(* ===== verification/Ads_Prelude.thy ===== *)
theory Ads_Prelude
  imports Main "HOL-Library.Word"
begin

text \<open>
  Shared vocabulary of the development: the integer types of the driver, byte memories with
  bounds-checked access, little-endian images of integers, C strings, and the part of
  \<^verbatim>\<open>printf\<close> and \<^verbatim>\<open>sscanf\<close> that the driver uses on integers (as the
  C library of an LP64 Linux system performs them).  Strings are lists of characters without the
  terminating zero byte.  Three collections carry the automation: \<open>mem_simps\<close> for byte
  memories, \<open>fmt_simps\<close> for formatting and scanning, \<open>run_simps\<close> for outcomes.
\<close>

named_theorems mem_simps
named_theorems fmt_simps
named_theorems run_simps

type_synonym u8 = "8 word"
type_synonym u16 = "16 word"
type_synonym u32 = "32 word"
type_synonym u64 = "64 word"

section \<open>Outcomes of code that may misbehave\<close>

text \<open>
  \<open>Done x\<close>: the code returns \<open>x\<close>.  \<open>Ub\<close>: the code performs an access outside an
  object, dereferences a null pointer or passes an invalid format, after which C++ promises nothing.
  \<open>NoFuel\<close>: the iteration budget of the model is used up; a loop that never ends gives
  \<open>NoFuel\<close> for every budget.
\<close>

datatype 'a run = Done 'a | Ub | NoFuel

fun run_bind :: "'a run \<Rightarrow> ('a \<Rightarrow> 'b run) \<Rightarrow> 'b run" where
  "run_bind (Done x) f = f x"
| "run_bind Ub f = Ub"
| "run_bind NoFuel f = NoFuel"

lemma run_bind_Done_iff [run_simps]:
  "run_bind m f = Done y \<longleftrightarrow> (\<exists>x. m = Done x \<and> f x = Done y)"
  by (cases m) auto

lemma run_bind_NoFuel_iff [run_simps]:
  "run_bind m f = NoFuel \<longleftrightarrow> m = NoFuel \<or> (\<exists>x. m = Done x \<and> f x = NoFuel)"
  by (cases m) auto

lemma run_bind_Ub_iff [run_simps]:
  "run_bind m f = Ub \<longleftrightarrow> m = Ub \<or> (\<exists>x. m = Done x \<and> f x = Ub)"
  by (cases m) auto

lemma run_bind_assoc [run_simps]:
  "run_bind (run_bind m f) g = run_bind m (\<lambda>x. run_bind (f x) g)"
  by (cases m) auto

section \<open>Byte memories\<close>

definition mem_write :: "'a list \<Rightarrow> nat \<Rightarrow> 'a list \<Rightarrow> 'a list run" where
  "mem_write m off bs =
     (if off + length bs \<le> length m
      then Done (take off m @ bs @ drop (off + length bs) m) else Ub)"

definition mem_read :: "'a list \<Rightarrow> nat \<Rightarrow> nat \<Rightarrow> 'a list run" where
  "mem_read m off n = (if off + n \<le> length m then Done (take n (drop off m)) else Ub)"

lemma mem_write_length [mem_simps]: "mem_write m off bs = Done m' \<Longrightarrow> length m' = length m"
  by (auto simp: mem_write_def split: if_splits)

lemma mem_write_read_same [mem_simps]:
  "mem_write m off bs = Done m' \<Longrightarrow> mem_read m' off (length bs) = Done bs"
  by (auto simp: mem_write_def mem_read_def split: if_splits)

lemma mem_ends [run_simps]: "mem_write m off bs \<noteq> NoFuel" "mem_read m off n \<noteq> NoFuel"
  by (simp_all add: mem_write_def mem_read_def)

lemma mem_write_in_bounds [mem_simps]:
  "off + length bs \<le> length m \<Longrightarrow>
     mem_write m off bs = Done (take off m @ bs @ drop (off + length bs) m)"
  by (simp add: mem_write_def)

lemma mem_read_in_bounds [mem_simps]:
  "off + n \<le> length m \<Longrightarrow> mem_read m off n = Done (take n (drop off m))"
  by (simp add: mem_read_def)

section \<open>Little-endian images\<close>

primrec le_bytes :: "nat \<Rightarrow> nat \<Rightarrow> u8 list" where
  "le_bytes 0 v = []"
| "le_bytes (Suc n) v = word_of_nat (v mod 256) # le_bytes n (v div 256)"

primrec le_nat :: "u8 list \<Rightarrow> nat" where
  "le_nat [] = 0"
| "le_nat (b # bs) = unat b + 256 * le_nat bs"

lemma le_bytes_length [simp]: "length (le_bytes n v) = n"
  by (induction n arbitrary: v) auto

lemma unat_byte_bound: "unat (b :: u8) < 256"
proof -
  have "unat b < 2 ^ LENGTH(8)" by (rule unsigned_less)
  also have "(2::nat) ^ LENGTH(8) = 256" by simp
  finally show ?thesis .
qed

lemma unat_of_byte [simp]: "v < 256 \<Longrightarrow> unat (word_of_nat v :: u8) = v"
  by (simp add: unsigned_of_nat take_bit_eq_mod)

lemma le_nat_bound: "le_nat bs < 256 ^ length bs"
proof (induction bs)
  case Nil
  then show ?case by simp
next
  case (Cons b bs)
  have "unat b < 256" by (rule unat_byte_bound)
  with Cons show ?case by simp
qed

lemma le_nat_le_bytes [mem_simps]: "le_nat (le_bytes n v) = v mod 256 ^ n"
proof (induction n arbitrary: v)
  case 0
  then show ?case by simp
next
  case (Suc n)
  have "v mod 256 ^ Suc n = 256 * (v div 256 mod 256 ^ n) + v mod 256"
    by (simp add: mod_mult2_eq)
  with Suc show ?case by simp
qed

lemma le_bytes_le_nat [mem_simps]: "length bs = n \<Longrightarrow> le_bytes n (le_nat bs) = bs"
proof (induction bs arbitrary: n)
  case Nil
  then show ?case by simp
next
  case (Cons b bs)
  have "unat b < 256" by (rule unat_byte_bound)
  with Cons show ?case by (cases n) auto
qed

lemma le_bytes_mod: "le_bytes n (v mod 256 ^ n) = le_bytes n v"
  by (metis le_bytes_le_nat le_bytes_length le_nat_le_bytes)

text \<open>Signed reading (two's complement) and the image of a signed value.\<close>

definition le_int :: "u8 list \<Rightarrow> int" where
  "le_int bs = (let v = int (le_nat bs); m = 256 ^ length bs in if 2 * v < m then v else v - m)"

definition le_bytes_int :: "nat \<Rightarrow> int \<Rightarrow> u8 list" where
  "le_bytes_int n v = le_bytes n (nat (v mod 256 ^ n))"

lemma le_bytes_int_length [simp]: "length (le_bytes_int n v) = n"
  by (simp add: le_bytes_int_def)

lemma int_le_nat_bound: "int (le_nat bs) < 256 ^ length bs"
proof -
  have "int (le_nat bs) < int (256 ^ length bs)"
    using le_nat_bound [of bs] by (simp only: of_nat_less_iff)
  then show ?thesis by simp
qed

lemma le_int_mod: "le_int bs mod 256 ^ length bs = int (le_nat bs)"
proof -
  have b: "int (le_nat bs) < 256 ^ length bs" by (rule int_le_nat_bound)
  have "(int (le_nat bs) - 256 ^ length bs) mod 256 ^ length bs = int (le_nat bs) mod 256 ^ length bs"
    by (rule minus_mod_self2)
  with b show ?thesis by (simp add: le_int_def Let_def)
qed

lemma le_bytes_int_le_int [mem_simps]: "length bs = n \<Longrightarrow> le_bytes_int n (le_int bs) = bs"
proof -
  assume n: "length bs = n"
  have "nat (le_int bs mod 256 ^ n) = le_nat bs"
    using le_int_mod [of bs] by (simp only: n nat_int)
  then show ?thesis using n by (simp only: le_bytes_int_def le_bytes_le_nat)
qed

lemma le_bytes_int_le_nat [mem_simps]: "length bs = n \<Longrightarrow> le_bytes_int n (int (le_nat bs)) = bs"
proof -
  assume n: "length bs = n"
  have "int (le_nat bs) mod 256 ^ n = int (le_nat bs)"
    using int_le_nat_bound [of bs] by (simp add: n)
  then show ?thesis using n by (simp only: le_bytes_int_def nat_int le_bytes_le_nat)
qed

lemma le_int_range:
  "- (256 ^ length bs) \<le> 2 * le_int bs \<and> 2 * le_int bs < 256 ^ length bs"
proof -
  define m :: int where "m = 256 ^ length bs"
  have "int (le_nat bs) < m" using int_le_nat_bound [of bs] by (simp add: m_def)
  then show ?thesis by (auto simp: le_int_def Let_def m_def [symmetric])
qed

section \<open>C strings\<close>

text \<open>A pointer into a string is the suffix it points to; a null pointer is \<open>None\<close>.\<close>

fun strchr :: "string \<Rightarrow> char \<Rightarrow> string option" where
  "strchr [] c = None"
| "strchr (x # xs) c = (if x = c then Some (x # xs) else strchr xs c)"

fun strrchr :: "string \<Rightarrow> char \<Rightarrow> string option" where
  "strrchr [] c = None"
| "strrchr (x # xs) c =
     (case strrchr xs c of Some s \<Rightarrow> Some s | None \<Rightarrow> if x = c then Some (x # xs) else None)"

fun is_prefix :: "string \<Rightarrow> string \<Rightarrow> bool" where
  "is_prefix [] s = True"
| "is_prefix (p # ps) [] = False"
| "is_prefix (p # ps) (x # xs) = (p = x \<and> is_prefix ps xs)"

fun strstr :: "string \<Rightarrow> string \<Rightarrow> string option" where
  "strstr [] p = (if p = [] then Some [] else None)"
| "strstr (x # xs) p = (if is_prefix p (x # xs) then Some (x # xs) else strstr xs p)"

lemma strchr_None_iff [fmt_simps]: "strchr s c = None \<longleftrightarrow> c \<notin> set s"
  by (induction s) auto

lemma strchr_append_sep [fmt_simps]: "c \<notin> set xs \<Longrightarrow> strchr (xs @ c # ys) c = Some (c # ys)"
  by (induction xs) auto

lemma strchr_SomeD:
  "strchr s c = Some t \<Longrightarrow> \<exists>pre ys. s = pre @ t \<and> t = c # ys \<and> c \<notin> set pre"
proof (induction s)
  case Nil
  then show ?case by simp
next
  case (Cons x xs)
  show ?case
  proof (cases "x = c")
    case True
    with Cons.prems show ?thesis by auto
  next
    case False
    with Cons obtain pre ys where "xs = pre @ t" "t = c # ys" "c \<notin> set pre" by auto
    with False have "x # xs = (x # pre) @ t \<and> t = c # ys \<and> c \<notin> set (x # pre)" by auto
    then show ?thesis by blast
  qed
qed

lemma strrchr_last: "strrchr (xs @ [c]) c = Some [c]"
  by (induction xs) auto

lemma strrchr_single_iff: "strrchr s c = Some [c] \<longleftrightarrow> (\<exists>xs. s = xs @ [c])"
proof (induction s)
  case Nil
  then show ?case by simp
next
  case (Cons x xs)
  show ?case
  proof (cases "strrchr xs c")
    case None
    then have "\<not> (\<exists>ys. xs = ys @ [c])" by (auto simp: strrchr_last)
    with None show ?thesis by (auto simp: Cons_eq_append_conv)
  next
    case (Some t)
    then have "xs \<noteq> []" by auto
    with Some Cons.IH show ?thesis by (auto simp: Cons_eq_append_conv)
  qed
qed

definition is_space :: "char \<Rightarrow> bool" where
  "is_space c \<longleftrightarrow> c \<in> {CHR 0x20, CHR 0x09, CHR 0x0A, CHR 0x0B, CHR 0x0C, CHR 0x0D}"

text \<open>\<^verbatim>\<open>std::tolower\<close> of the C locale.\<close>

definition tolower :: "char \<Rightarrow> char" where
  "tolower c = (let n = (of_char c :: nat) in if 65 \<le> n \<and> n \<le> 90 then char_of (n + 32) else c)"

section \<open>Decimal numbers: printing and scanning\<close>

definition is_digit :: "char \<Rightarrow> bool" where
  "is_digit c \<longleftrightarrow> 48 \<le> (of_char c :: nat) \<and> (of_char c :: nat) \<le> 57"

definition digit_val :: "char \<Rightarrow> nat" where
  "digit_val c = of_char c - 48"

definition digit_char :: "nat \<Rightarrow> char" where
  "digit_char d = char_of (48 + d)"

fun show_nat :: "nat \<Rightarrow> string" where
  "show_nat n = (if n < 10 then [digit_char n] else show_nat (n div 10) @ [digit_char (n mod 10)])"

declare show_nat.simps [simp del]

definition show_int :: "int \<Rightarrow> string" where
  "show_int v = (if v < 0 then CHR ''-'' # show_nat (nat (- v)) else show_nat (nat v))"

definition dec_value :: "string \<Rightarrow> nat" where
  "dec_value s = foldl (\<lambda>a c. 10 * a + digit_val c) 0 s"

lemma of_digit_char [fmt_simps]: "d < 10 \<Longrightarrow> (of_char (digit_char d) :: nat) = 48 + d"
  by (simp add: digit_char_def)

lemma digit_char_is_digit [fmt_simps]: "d < 10 \<Longrightarrow> is_digit (digit_char d)"
  by (simp add: is_digit_def fmt_simps)

lemma digit_val_digit_char [fmt_simps]: "d < 10 \<Longrightarrow> digit_val (digit_char d) = d"
  by (simp add: digit_val_def fmt_simps)

lemma show_nat_digits: "c \<in> set (show_nat n) \<Longrightarrow> is_digit c"
proof (induction n rule: show_nat.induct)
  case (1 n)
  then show ?case
    by (subst (asm) (2) show_nat.simps) (auto simp: fmt_simps split: if_splits)
qed

lemma show_nat_nonempty [simp]: "show_nat n \<noteq> []"
  by (subst show_nat.simps) simp

lemma dec_value_snoc: "dec_value (s @ [c]) = 10 * dec_value s + digit_val c"
  by (simp add: dec_value_def)

lemma dec_value_show_nat [fmt_simps]: "dec_value (show_nat n) = n"
proof (induction n rule: show_nat.induct)
  case (1 n)
  show ?case
  proof (cases "n < 10")
    case True
    then show ?thesis by (simp add: show_nat.simps [of n] dec_value_def fmt_simps)
  next
    case False
    with 1 show ?thesis by (simp add: show_nat.simps [of n] dec_value_snoc fmt_simps)
  qed
qed

lemma show_nat_length: "n < 10 ^ k \<Longrightarrow> k > 0 \<Longrightarrow> length (show_nat n) \<le> k"
proof (induction k arbitrary: n)
  case 0
  then show ?case by simp
next
  case (Suc k)
  show ?case
  proof (cases "n < 10")
    case True
    then show ?thesis by (simp add: show_nat.simps [of n])
  next
    case False
    with Suc.prems have "k > 0" by (cases k) auto
    moreover from Suc.prems have "n div 10 < 10 ^ k" by (simp add: less_mult_imp_div_less)
    ultimately have "length (show_nat (n div 10)) \<le> k" by (rule Suc.IH [rotated])
    with False show ?thesis by (simp add: show_nat.simps [of n])
  qed
qed

text \<open>
  A scan directive either meets the end of the input before anything else (the C library then
  reports end of file, a negative count, if nothing was converted yet), or fails to match, or
  converts a value and leaves the rest of the input.
\<close>

datatype 'a scan = Scan_Eof | Scan_Fail | Scan_Ok 'a string

definition skip_space :: "string \<Rightarrow> string" where
  "skip_space s = dropWhile is_space s"

fun scan_sign :: "string \<Rightarrow> bool \<times> string" where
  "scan_sign [] = (False, [])"
| "scan_sign (c # s) =
     (if c = CHR ''-'' then (True, s) else if c = CHR ''+'' then (False, s) else (False, c # s))"

definition scan_dec :: "string \<Rightarrow> (bool \<times> nat) scan" where
  "scan_dec s =
     (let t = skip_space s in
      if t = [] then Scan_Eof
      else let (neg, u) = scan_sign t; ds = takeWhile is_digit u
           in if ds = [] then Scan_Fail else Scan_Ok (neg, dec_value ds) (dropWhile is_digit u))"

text \<open>
  \<^verbatim>\<open>strtol\<close> and \<^verbatim>\<open>strtoul\<close> at 64 bits: a signed number saturates, an
  unsigned one saturates at the top and a minus sign negates it modulo \<open>2^64\<close>.  A directive
  with a narrower destination stores the low bits.
\<close>

definition strtol64 :: "bool \<times> nat \<Rightarrow> int" where
  "strtol64 nm = (case nm of (neg, m) \<Rightarrow>
     if neg then max (- (2 ^ 63)) (- int m) else min (2 ^ 63 - 1) (int m))"

definition strtoul64 :: "bool \<times> nat \<Rightarrow> int" where
  "strtoul64 nm = (case nm of (neg, m) \<Rightarrow>
     if m \<ge> 2 ^ 64 then 2 ^ 64 - 1 else if neg then (- int m) mod 2 ^ 64 else int m)"

lemma is_digit_not_space: "is_digit c \<Longrightarrow> \<not> is_space c"
  by (auto simp: is_digit_def is_space_def)

lemma is_digit_not_sign: "is_digit c \<Longrightarrow> c \<noteq> CHR ''-'' \<and> c \<noteq> CHR ''+''"
  by (auto simp: is_digit_def)

lemma take_digits_show_nat:
  assumes "rest = [] \<or> \<not> is_digit (hd rest)"
  shows "takeWhile is_digit (show_nat n @ rest) = show_nat n"
    and "dropWhile is_digit (show_nat n @ rest) = rest"
  using assms show_nat_digits [of _ n]
  by (cases rest; auto simp: takeWhile_append dropWhile_append)+

lemma scan_dec_show_int [fmt_simps]:
  assumes "rest = [] \<or> \<not> is_digit (hd rest)"
  shows "scan_dec (show_int v @ rest) = Scan_Ok (v < 0, nat \<bar>v\<bar>) rest"
proof -
  obtain c s where cs: "show_nat (nat \<bar>v\<bar>) = c # s"
    by (cases "show_nat (nat \<bar>v\<bar>)") auto
  have d: "is_digit c"
    using show_nat_digits [of c "nat \<bar>v\<bar>"] cs by simp
  have ns: "\<not> is_space CHR ''-''" by (simp add: is_space_def)
  show ?thesis
  proof (cases "v < 0")
    case True
    then have a: "nat \<bar>v\<bar> = nat (- v)" by simp
    have "skip_space (show_int v @ rest) = CHR ''-'' # (show_nat (nat (- v)) @ rest)"
      using True ns by (simp add: show_int_def skip_space_def)
    then show ?thesis
      using True assms a
      by (simp add: scan_dec_def Let_def take_digits_show_nat dec_value_show_nat)
  next
    case False
    then have a: "nat \<bar>v\<bar> = nat v" by simp
    have e: "show_int v @ rest = c # (s @ rest)"
      using False cs a by (simp add: show_int_def)
    have "skip_space (show_int v @ rest) = show_int v @ rest"
      using d is_digit_not_space by (simp add: e skip_space_def)
    moreover have "scan_sign (show_int v @ rest) = (False, show_nat (nat v) @ rest)"
      using is_digit_not_sign [OF d] False e by (simp add: show_int_def)
    moreover have "show_int v @ rest \<noteq> []" using e by simp
    ultimately show ?thesis
      using False assms a
      by (simp add: scan_dec_def Let_def take_digits_show_nat dec_value_show_nat)
  qed
qed

lemma strtol64_abs [fmt_simps]:
  "- (2 ^ 63) \<le> v \<Longrightarrow> v < 2 ^ 63 \<Longrightarrow> strtol64 (v < 0, nat \<bar>v\<bar>) = v"
  by (auto simp: strtol64_def)

lemma strtoul64_abs [fmt_simps]:
  "- (2 ^ 63) \<le> v \<Longrightarrow> v < 2 ^ 64 \<Longrightarrow> strtoul64 (v < 0, nat \<bar>v\<bar>) = v mod 2 ^ 64"
  by (auto simp: strtoul64_def)

section \<open>Scanning by parts of a format\<close>

text \<open>A directive into a destination of \<open>w\<close> bits, and literal text of a format.\<close>

definition scan_to :: "nat \<Rightarrow> (bool \<times> nat) scan \<Rightarrow> (nat \<times> string) option" where
  "scan_to w r = (case r of Scan_Ok n rest \<Rightarrow> Some (nat (strtoul64 n mod 2 ^ w), rest) | _ \<Rightarrow> None)"

definition scan_lit :: "string \<Rightarrow> string \<Rightarrow> string option" where
  "scan_lit l s = (if is_prefix l s then Some (drop (length l) s) else None)"

text \<open>
  A directive \<^verbatim>\<open>%k[...]\<close>: at least one and at most \<open>k\<close> characters of a set; and
  \<^verbatim>\<open>%ks\<close>: the same for the characters other than white space, behind white space.
\<close>

definition scan_set :: "nat \<Rightarrow> (char \<Rightarrow> bool) \<Rightarrow> string \<Rightarrow> (string \<times> string) option" where
  "scan_set k P s =
     (let w = take k (takeWhile P s) in if w = [] then None else Some (w, drop (length w) s))"

definition scan_str :: "nat \<Rightarrow> string \<Rightarrow> (string \<times> string) option" where
  "scan_str k s = scan_set k (\<lambda>c. \<not> is_space c) (skip_space s)"

lemma scan_lit_append [fmt_simps]: "scan_lit l (l @ s) = Some s"
proof -
  have "is_prefix l (l @ s)" by (induction l) auto
  then show ?thesis by (simp add: scan_lit_def)
qed

end
