(* ===== verification/Ads_Types.thy ===== *)
theory Ads_Types
  imports Ads_Prelude
begin

text \<open>
  The data of the driver (\<^verbatim>\<open>adsAsynPortDriverUtils.h\<close>) and its pure conversions
  (\<^verbatim>\<open>adsAsynPortDriverUtils.cpp\<close>): the ADS data type enumeration with its sizes and
  names, the tables that name error codes and states, the DTYP strings and the conversion of a
  Windows time stamp to an EPICS one.  The numeric values of the constants that the AdsLib and EPICS
  headers define are not in this repository: the tables take them as an argument \<open>code\<close>,
  from the identifier to its value.
\<close>

section \<open>ADS data types\<close>

datatype ADSDATATYPEID =
    ADST_VOID | ADST_INT8 | ADST_UINT8 | ADST_INT16 | ADST_UINT16 | ADST_INT32 | ADST_UINT32
  | ADST_INT64 | ADST_UINT64 | ADST_REAL32 | ADST_REAL64 | ADST_BIGTYPE | ADST_STRING
  | ADST_WSTRING | ADST_REAL80 | ADST_BIT | ADST_MAXTYPES

fun adst_code :: "ADSDATATYPEID \<Rightarrow> int" where
  "adst_code ADST_VOID = 0"
| "adst_code ADST_INT8 = 16"
| "adst_code ADST_UINT8 = 17"
| "adst_code ADST_INT16 = 2"
| "adst_code ADST_UINT16 = 18"
| "adst_code ADST_INT32 = 3"
| "adst_code ADST_UINT32 = 19"
| "adst_code ADST_INT64 = 20"
| "adst_code ADST_UINT64 = 21"
| "adst_code ADST_REAL32 = 4"
| "adst_code ADST_REAL64 = 5"
| "adst_code ADST_BIGTYPE = 65"
| "adst_code ADST_STRING = 30"
| "adst_code ADST_WSTRING = 31"
| "adst_code ADST_REAL80 = 32"
| "adst_code ADST_BIT = 33"
| "adst_code ADST_MAXTYPES = 34"

text \<open>A \<^verbatim>\<open>switch\<close> over a number with these labels first finds the label.\<close>

definition adst_all :: "ADSDATATYPEID list" where
  "adst_all = [ADST_VOID, ADST_INT8, ADST_UINT8, ADST_INT16, ADST_UINT16, ADST_INT32, ADST_UINT32,
     ADST_INT64, ADST_UINT64, ADST_REAL32, ADST_REAL64, ADST_BIGTYPE, ADST_STRING, ADST_WSTRING,
     ADST_REAL80, ADST_BIT, ADST_MAXTYPES]"

definition adst_of :: "int \<Rightarrow> ADSDATATYPEID option" where
  "adst_of n = find (\<lambda>t. adst_code t = n) adst_all"

lemma adst_of_code [simp]: "adst_of (adst_code t) = Some t"
  by (cases t) (simp_all add: adst_of_def adst_all_def)

lemma adst_code_inject [simp]: "adst_code s = adst_code t \<longleftrightarrow> s = t"
  by (metis adst_of_code option.inject)

lemma adst_of_Some_iff: "adst_of n = Some t \<longleftrightarrow> n = adst_code t"
  by (auto simp: adst_of_def find_Some_iff) (metis adst_of_code adst_of_def find_Some_iff)

lemma adst_of_None_iff: "adst_of n = None \<longleftrightarrow> (\<forall>t. n \<noteq> adst_code t)"
  by (metis adst_of_Some_iff not_None_eq)

instantiation ADSDATATYPEID :: linorder
begin
definition less_eq_ADSDATATYPEID :: "ADSDATATYPEID \<Rightarrow> ADSDATATYPEID \<Rightarrow> bool" where
  "less_eq_ADSDATATYPEID s t \<longleftrightarrow> adst_code s \<le> adst_code t"
definition less_ADSDATATYPEID :: "ADSDATATYPEID \<Rightarrow> ADSDATATYPEID \<Rightarrow> bool" where
  "less_ADSDATATYPEID s t \<longleftrightarrow> adst_code s < adst_code t"
instance
  by standard (auto simp: less_eq_ADSDATATYPEID_def less_ADSDATATYPEID_def intro: antisym)
end

fun adst_name :: "ADSDATATYPEID \<Rightarrow> string" where
  "adst_name ADST_VOID = ''ADST_VOID''"
| "adst_name ADST_INT16 = ''ADST_INT16''"
| "adst_name ADST_INT32 = ''ADST_INT32''"
| "adst_name ADST_REAL32 = ''ADST_REAL32''"
| "adst_name ADST_REAL64 = ''ADST_REAL64''"
| "adst_name ADST_INT8 = ''ADST_INT8''"
| "adst_name ADST_UINT8 = ''ADST_UINT8''"
| "adst_name ADST_UINT16 = ''ADST_UINT16''"
| "adst_name ADST_UINT32 = ''ADST_UINT32''"
| "adst_name ADST_INT64 = ''ADST_INT64''"
| "adst_name ADST_UINT64 = ''ADST_UINT64''"
| "adst_name ADST_STRING = ''ADST_STRING''"
| "adst_name ADST_WSTRING = ''ADST_WSTRING''"
| "adst_name ADST_REAL80 = ''ADST_REAL80''"
| "adst_name ADST_BIT = ''ADST_BIT''"
| "adst_name ADST_BIGTYPE = ''ADST_BIGTYPE''"
| "adst_name ADST_MAXTYPES = ''ADST_MAXTYPES''"

definition adsTypeToString :: "int \<Rightarrow> string" where
  "adsTypeToString type =
     (case adst_of type of Some t \<Rightarrow> adst_name t | None \<Rightarrow> ''ADS_UNKNOWN_DATATYPE'')"

text \<open>The result is a \<^verbatim>\<open>size_t\<close>: the \<open>- 1\<close> of the source is the largest value.\<close>

definition adsTypeSize :: "int \<Rightarrow> u64" where
  "adsTypeSize type =
     (case adst_of type of
        Some ADST_VOID \<Rightarrow> 0 | Some ADST_INT16 \<Rightarrow> 2 | Some ADST_INT32 \<Rightarrow> 4
      | Some ADST_REAL32 \<Rightarrow> 4 | Some ADST_REAL64 \<Rightarrow> 8 | Some ADST_INT8 \<Rightarrow> 1
      | Some ADST_UINT8 \<Rightarrow> 1 | Some ADST_UINT16 \<Rightarrow> 2 | Some ADST_UINT32 \<Rightarrow> 4
      | Some ADST_INT64 \<Rightarrow> 8 | Some ADST_UINT64 \<Rightarrow> 8 | Some ADST_STRING \<Rightarrow> 1
      | Some ADST_WSTRING \<Rightarrow> - 1 | Some ADST_REAL80 \<Rightarrow> 10 | Some ADST_BIT \<Rightarrow> 1
      | Some ADST_BIGTYPE \<Rightarrow> - 1 | Some ADST_MAXTYPES \<Rightarrow> - 1 | None \<Rightarrow> - 1)"

text \<open>The size of one element of a type whose values are numbers.\<close>

fun adst_width :: "ADSDATATYPEID \<Rightarrow> nat" where
  "adst_width ADST_INT8 = 1" | "adst_width ADST_UINT8 = 1" | "adst_width ADST_BIT = 1"
| "adst_width ADST_INT16 = 2" | "adst_width ADST_UINT16 = 2"
| "adst_width ADST_INT32 = 4" | "adst_width ADST_UINT32 = 4" | "adst_width ADST_REAL32 = 4"
| "adst_width ADST_INT64 = 8" | "adst_width ADST_UINT64 = 8" | "adst_width ADST_REAL64 = 8"
| "adst_width _ = 0"

lemma adst_width_size:
  "adst_width t > 0 \<Longrightarrow> unat (adsTypeSize (adst_code t)) = adst_width t"
  unfolding adsTypeSize_def adst_of_code by (cases t) simp_all

section \<open>Tables of names\<close>

text \<open>
  A \<^verbatim>\<open>switch\<close> from codes to strings is a search in the list of its cases, each with its label
  and the string it returns, in their order.
\<close>

fun text_of_code :: "(string \<Rightarrow> int) \<Rightarrow> (string \<times> string) list \<Rightarrow> string \<Rightarrow> int \<Rightarrow> string" where
  "text_of_code code [] other v = other"
| "text_of_code code ((n, t) # ps) other v = (if code n = v then t else text_of_code code ps other v)"

locale code_table =
  fixes name_of :: "int \<Rightarrow> string" and code :: "'k \<Rightarrow> int" and label :: "'k \<Rightarrow> string"
    and other :: string
  assumes hit: "name_of (code k) = label k"
    and miss: "(\<And>k. v \<noteq> code k) \<Longrightarrow> name_of v = other"
    and labels: "label k = label k' \<Longrightarrow> k = k'" "label k \<noteq> other"
begin

lemma known_iff: "name_of v \<noteq> other \<longleftrightarrow> (\<exists>k. v = code k)"
  using hit miss labels(2) by metis

lemma code_back: "name_of v = label k \<Longrightarrow> v = code k"
proof -
  assume v: "name_of v = label k"
  then obtain k' where k': "v = code k'" using known_iff labels(2) by metis
  with v hit labels(1) show ?thesis by metis
qed

lemma determines: "name_of v = name_of w \<Longrightarrow> name_of v \<noteq> other \<Longrightarrow> v = w"
  using known_iff hit code_back by metis

end

lemma adst_name_inject: "adst_name s = adst_name t \<Longrightarrow> s = t"
  by (cases s; cases t; simp)

lemma adst_name_known: "adst_name t \<noteq> ''ADS_UNKNOWN_DATATYPE''"
  by (cases t) simp_all

interpretation adst_table: code_table adsTypeToString adst_code adst_name "''ADS_UNKNOWN_DATATYPE''"
proof unfold_locales
  fix v :: int
  assume "\<And>k. v \<noteq> adst_code k"
  then have "adst_of v = None" by (simp add: adst_of_None_iff)
  then show "adsTypeToString v = ''ADS_UNKNOWN_DATATYPE''" by (simp add: adsTypeToString_def)
qed (auto simp: adsTypeToString_def adst_name_known intro: adst_name_inject)

definition adsErrorNames :: "(string \<times> string) list" where
  "adsErrorNames = [
    (''GLOBALERR_TARGET_PORT'', ''GLOBALERR_TARGET_PORT''),
    (''GLOBALERR_MISSING_ROUTE'', ''GLOBALERR_MISSING_ROUTE''),
    (''GLOBALERR_NO_MEMORY'', ''GLOBALERR_NO_MEMORY''), (''GLOBALERR_TCP_SEND'', ''GLOBALERR_TCP_SEND''),
    (''ADSERR_DEVICE_ERROR'', ''ADSERR_DEVICE_ERROR''),
    (''ADSERR_DEVICE_SRVNOTSUPP'', ''ADSERR_DEVICE_SRVNOTSUPP''),
    (''ADSERR_DEVICE_INVALIDGRP'', ''ADSERR_DEVICE_INVALIDGRP''),
    (''ADSERR_DEVICE_INVALIDOFFSET'', ''ADSERR_DEVICE_INVALIDOFFSET''),
    (''ADSERR_DEVICE_INVALIDACCESS'', ''ADSERR_DEVICE_INVALIDACCESS''),
    (''ADSERR_DEVICE_INVALIDSIZE'', ''ADSERR_DEVICE_INVALIDSIZE''),
    (''ADSERR_DEVICE_INVALIDDATA'', ''ADSERR_DEVICE_INVALIDDATA''),
    (''ADSERR_DEVICE_NOTREADY'', ''ADSERR_DEVICE_NOTREADY''),
    (''ADSERR_DEVICE_BUSY'', ''ADSERR_DEVICE_BUSY''),
    (''ADSERR_DEVICE_INVALIDCONTEXT'', ''ADSERR_DEVICE_INVALIDCONTEXT''),
    (''ADSERR_DEVICE_NOMEMORY'', ''ADSERR_DEVICE_NOMEMORY''),
    (''ADSERR_DEVICE_INVALIDPARM'', ''ADSERR_DEVICE_INVALIDPARM''),
    (''ADSERR_DEVICE_NOTFOUND'', ''ADSERR_DEVICE_NOTFOUND''),
    (''ADSERR_DEVICE_SYNTAX'', ''ADSERR_DEVICE_SYNTAX''),
    (''ADSERR_DEVICE_INCOMPATIBLE'', ''ADSERR_DEVICE_INCOMPATIBLE''),
    (''ADSERR_DEVICE_EXISTS'', ''ADSERR_DEVICE_EXISTS''),
    (''ADSERR_DEVICE_SYMBOLNOTFOUND'', ''ADSERR_DEVICE_SYMBOLNOTFOUND''),
    (''ADSERR_DEVICE_SYMBOLVERSIONINVALID'', ''ADSERR_DEVICE_SYMBOLVERSIONINVALID''),
    (''ADSERR_DEVICE_INVALIDSTATE'', ''ADSERR_DEVICE_INVALIDSTATE''),
    (''ADSERR_DEVICE_TRANSMODENOTSUPP'', ''ADSERR_DEVICE_TRANSMODENOTSUPP''),
    (''ADSERR_DEVICE_NOTIFYHNDINVALID'', ''ADSERR_DEVICE_NOTIFYHNDINVALID''),
    (''ADSERR_DEVICE_CLIENTUNKNOWN'', ''ADSERR_DEVICE_CLIENTUNKNOWN''),
    (''ADSERR_DEVICE_NOMOREHDLS'', ''ADSERR_DEVICE_NOMOREHDLS''),
    (''ADSERR_DEVICE_INVALIDWATCHSIZE'', ''ADSERR_DEVICE_INVALIDWATCHSIZE''),
    (''ADSERR_DEVICE_NOTINIT'', ''ADSERR_DEVICE_NOTINIT''),
    (''ADSERR_DEVICE_TIMEOUT'', ''ADSERR_DEVICE_TIMEOUT''),
    (''ADSERR_DEVICE_NOINTERFACE'', ''ADSERR_DEVICE_NOINTERFACE''),
    (''ADSERR_DEVICE_INVALIDINTERFACE'', ''ADSERR_DEVICE_INVALIDINTERFACE''),
    (''ADSERR_DEVICE_INVALIDCLSID'', ''ADSERR_DEVICE_INVALIDCLSID''),
    (''ADSERR_DEVICE_INVALIDOBJID'', ''ADSERR_DEVICE_INVALIDOBJID''),
    (''ADSERR_DEVICE_PENDING'', ''ADSERR_DEVICE_PENDING''),
    (''ADSERR_DEVICE_ABORTED'', ''ADSERR_DEVICE_ABORTED''),
    (''ADSERR_DEVICE_WARNING'', ''ADSERR_DEVICE_WARNING''),
    (''ADSERR_DEVICE_INVALIDARRAYIDX'', ''ADSERR_DEVICE_INVALIDARRAYIDX''),
    (''ADSERR_DEVICE_SYMBOLNOTACTIVE'', ''ADSERR_DEVICE_SYMBOLNOTACTIVE''),
    (''ADSERR_DEVICE_ACCESSDENIED'', ''ADSERR_DEVICE_ACCESSDENIED''),
    (''ADSERR_DEVICE_LICENSENOTFOUND'', ''ADSERR_DEVICE_LICENSENOTFOUND''),
    (''ADSERR_DEVICE_LICENSEEXPIRED'', ''ADSERR_DEVICE_LICENSEEXPIRED''),
    (''ADSERR_DEVICE_LICENSEEXCEEDED'', ''ADSERR_DEVICE_LICENSEEXCEEDED''),
    (''ADSERR_DEVICE_LICENSEINVALID'', ''ADSERR_DEVICE_LICENSEINVALID''),
    (''ADSERR_DEVICE_LICENSESYSTEMID'', ''ADSERR_DEVICE_LICENSESYSTEMID''),
    (''ADSERR_DEVICE_LICENSENOTIMELIMIT'', ''ADSERR_DEVICE_LICENSENOTIMELIMIT''),
    (''ADSERR_DEVICE_LICENSEFUTUREISSUE'', ''ADSERR_DEVICE_LICENSEFUTUREISSUE''),
    (''ADSERR_DEVICE_LICENSETIMETOLONG'', ''ADSERR_DEVICE_LICENSETIMETOLONG''),
    (''ADSERR_DEVICE_EXCEPTION'', ''ADSERR_DEVICE_EXCEPTION''),
    (''ADSERR_DEVICE_LICENSEDUPLICATED'', ''ADSERR_DEVICE_LICENSEDUPLICATED''),
    (''ADSERR_DEVICE_SIGNATUREINVALID'', ''ADSERR_DEVICE_SIGNATUREINVALID''),
    (''ADSERR_DEVICE_CERTIFICATEINVALID'', ''ADSERR_DEVICE_CERTIFICATEINVALID''),
    (''ADSERR_CLIENT_ERROR'', ''ADSERR_CLIENT_ERROR''),
    (''ADSERR_CLIENT_INVALIDPARM'', ''ADSERR_CLIENT_INVALIDPARM''),
    (''ADSERR_CLIENT_LISTEMPTY'', ''ADSERR_CLIENT_LISTEMPTY''),
    (''ADSERR_CLIENT_VARUSED'', ''ADSERR_CLIENT_VARUSED''),
    (''ADSERR_CLIENT_DUPLINVOKEID'', ''ADSERR_CLIENT_DUPLINVOKEID''),
    (''ADSERR_CLIENT_SYNCTIMEOUT'', ''ADSERR_CLIENT_SYNCTIMEOUT''),
    (''ADSERR_CLIENT_W32ERROR'', ''ADSERR_CLIENT_W32ERROR''),
    (''ADSERR_CLIENT_TIMEOUTINVALID'', ''ADSERR_CLIENT_TIMEOUTINVALID''),
    (''ADSERR_CLIENT_PORTNOTOPEN'', ''ADSERR_CLIENT_PORTNOTOPEN''),
    (''ADSERR_CLIENT_NOAMSADDR'', ''ADSERR_CLIENT_NOAMSADDR''),
    (''ADSERR_CLIENT_SYNCINTERNAL'', ''ADSERR_CLIENT_SYNCINTERNAL''),
    (''ADSERR_CLIENT_ADDHASH'', ''ADSERR_CLIENT_ADDHASH''),
    (''ADSERR_CLIENT_REMOVEHASH'', ''ADSERR_CLIENT_REMOVEHASH''),
    (''ADSERR_CLIENT_NOMORESYM'', ''ADSERR_CLIENT_NOMORESYM''),
    (''ADSERR_CLIENT_SYNCRESINVALID'', ''ADSERR_CLIENT_SYNCRESINVALID''),
    (''ADSERR_CLIENT_SYNCPORTLOCKED'', ''ADSERR_CLIENT_SYNCPORTLOCKED'')]"

definition adsErrorToString :: "(string \<Rightarrow> int) \<Rightarrow> int \<Rightarrow> string" where
  "adsErrorToString code error = text_of_code code adsErrorNames ''ADSERR_ERROR_UNKNOWN'' error"

definition asynTypeNames :: "(string \<times> string) list" where
  "asynTypeNames = [
    (''asynParamInt32'', ''asynParamInt32''), (''asynParamFloat64'', ''asynParamFloat64''),
    (''asynParamUInt32Digital'', ''asynParamUInt32Digital''), (''asynParamOctet'', ''asynParamOctet''),
    (''asynParamInt8Array'', ''asynParamInt8Array''), (''asynParamInt16Array'', ''asynParamInt16Array''),
    (''asynParamInt32Array'', ''asynParamInt32Array''),
    (''asynParamFloat32Array'', ''asynParamFloat32Array''),
    (''asynParamFloat64Array'', ''asynParamFloat64Array''),
    (''asynParamGenericPointer'', ''asynParamGenericPointer''), (''asynParamInt64'', ''asynParamInt64''),
    (''asynParamInt64Array'', ''asynParamInt64Array'')]"

definition asynTypeToString :: "(string \<Rightarrow> int) \<Rightarrow> int \<Rightarrow> string" where
  "asynTypeToString code type = text_of_code code asynTypeNames ''asynUnknownType'' type"

definition adsStateNames :: "(string \<times> string) list" where
  "adsStateNames = [
    (''ADSSTATE_INVALID'', ''ADSSTATE_INVALID''), (''ADSSTATE_IDLE'', ''ADSSTATE_IDLE''),
    (''ADSSTATE_RESET'', ''ADSSTATE_RESET''), (''ADSSTATE_INIT'', ''ADSSTATE_INIT''),
    (''ADSSTATE_START'', ''ADSSTATE_START''), (''ADSSTATE_RUN'', ''ADSSTATE_RUN''),
    (''ADSSTATE_STOP'', ''ADSSTATE_STOP''), (''ADSSTATE_SAVECFG'', ''ADSSTATE_SAVECFG''),
    (''ADSSTATE_LOADCFG'', ''ADSSTATE_LOADCFG''), (''ADSSTATE_POWERFAILURE'', ''ADSSTATE_POWERFAILURE''),
    (''ADSSTATE_POWERGOOD'', ''ADSSTATE_POWERGOOD''), (''ADSSTATE_ERROR'', ''ADSSTATE_ERROR''),
    (''ADSSTATE_SHUTDOWN'', ''ADSSTATE_SHUTDOWN''), (''ADSSTATE_SUSPEND'', ''ADSSTATE_SUSPEND''),
    (''ADSSTATE_RESUME'', ''ADSSTATE_RESUME''), (''ADSSTATE_CONFIG'', ''ADSSTATE_CONFIG''),
    (''ADSSTATE_RECONFIG'', ''ADSSTATE_RECONFIG''), (''ADSSTATE_STOPPING'', ''ADSSTATE_STOPPING''),
    (''ADSSTATE_INCOMPATIBLE'', ''ADSSTATE_INCOMPATIBLE''),
    (''ADSSTATE_EXCEPTION'', ''ADSSTATE_EXCEPTION''), (''ADSSTATE_MAXSTATES'', ''ADSSTATE_MAXSTATES'')]"

definition adsStateToString :: "(string \<Rightarrow> int) \<Rightarrow> int \<Rightarrow> string" where
  "adsStateToString code state = text_of_code code adsStateNames ''UNKNOWN ADSSTATE'' state"

definition epicsStateNames :: "(string \<times> string) list" where
  "epicsStateNames = [
    (''initHookAtIocBuild'', ''initHookAtIocBuild''), (''initHookAtBeginning'', ''initHookAtBeginning''),
    (''initHookAfterCallbackInit'', ''initHookAfterCallbackInit''),
    (''initHookAfterCaLinkInit'', ''initHookAfterCaLinkInit''),
    (''initHookAfterInitDrvSup'', ''initHookAfterInitDrvSup''),
    (''initHookAfterInitRecSup'', ''initHookAfterInitRecSup''),
    (''initHookAfterInitDevSup'', ''initHookAfterInitDevSup''),
    (''initHookAfterInitDatabase'', ''initHookAfterInitDatabase''),
    (''initHookAfterFinishDevSup'', ''initHookAfterFinishDevSup''),
    (''initHookAfterScanInit'', ''initHookAfterScanInit''),
    (''initHookAfterInitialProcess'', ''initHookAfterInitialProcess''),
    (''initHookAfterIocBuilt'', ''initHookAfterIocBuilt''), (''initHookAtIocRun'', ''initHookAtIocRun''),
    (''initHookAfterDatabaseRunning'', ''initHookAfterDatabaseRunning''),
    (''initHookAfterCaServerRunning'', ''initHookAfterCaServerRunning''),
    (''initHookAfterIocRunning'', ''initHookAfterIocRunning''),
    (''initHookAtIocPause'', ''initHookAtIocPause''),
    (''initHookAfterCaServerPaused'', ''initHookAfterCaServerPaused''),
    (''initHookAfterDatabasePaused'', ''initHookAfterDatabasePaused''),
    (''initHookAfterIocPaused'', ''initHookAfterIocPaused''),
    (''initHookAfterInterruptAccept'', ''initHookAfterInterruptAccept'')]"

definition epicsStateToString :: "(string \<Rightarrow> int) \<Rightarrow> int \<Rightarrow> string" where
  "epicsStateToString code state = text_of_code code epicsStateNames ''Unknown state'' state"

section \<open>Parameter types of asyn\<close>

datatype asynParamType =
    asynParamNotDefined | asynParamInt32 | asynParamInt64 | asynParamUInt32Digital
  | asynParamFloat64 | asynParamOctet | asynParamInt8Array | asynParamInt16Array
  | asynParamInt32Array | asynParamInt64Array | asynParamFloat32Array | asynParamFloat64Array
  | asynParamGenericPointer

definition dtypStringToAsynType :: "string \<Rightarrow> asynParamType" where
  "dtypStringToAsynType dtype =
     (if dtype = ''asynFloat64'' then asynParamFloat64
      else if dtype = ''asynInt32'' then asynParamInt32
      else if dtype = ''asynInt8ArrayIn'' \<or> dtype = ''asynInt8ArrayOut'' then asynParamInt8Array
      else if dtype = ''asynInt16ArrayIn'' \<or> dtype = ''asynInt16ArrayOut'' then asynParamInt16Array
      else if dtype = ''asynInt32ArrayIn'' \<or> dtype = ''asynInt32ArrayOut'' then asynParamInt32Array
      else if dtype = ''asynFloat32ArrayIn'' \<or> dtype = ''asynFloat32ArrayOut''
        then asynParamFloat32Array
      else if dtype = ''asynFloat64ArrayIn'' \<or> dtype = ''asynFloat64ArrayOut''
        then asynParamFloat64Array
      else if dtype = ''asynInt64'' then asynParamInt64
      else if dtype = ''asynInt64ArrayIn'' \<or> dtype = ''asynInt64ArrayOut'' then asynParamInt64Array
      else asynParamNotDefined)"

datatype asynStatus = asynSuccess | asynTimeout | asynError | asynOtherStatus nat

section \<open>Time stamps\<close>

record epicsTimeStamp =
  secPastEpoch :: u32
  nsec :: u32

definition WINDOWS_TICK_PER_SEC :: nat where "WINDOWS_TICK_PER_SEC = 10000000"
definition SEC_TO_UNIX_EPOCH :: nat where "SEC_TO_UNIX_EPOCH = 11644473600"

text \<open>
  The argument \<open>posix\<close> is \<^verbatim>\<open>POSIX_TIME_AT_EPICS_EPOCH\<close> of EPICS.  The product
  of the 32-bit seconds with the tick rate is computed at 32 bits and wraps; a null \<open>ts\<close> is
  \<open>None\<close>.
\<close>

definition windowsToEpicsTimeStamp ::
  "u64 \<Rightarrow> u64 \<Rightarrow> epicsTimeStamp option \<Rightarrow> int \<times> epicsTimeStamp option" where
  "windowsToEpicsTimeStamp posix plcTime ts =
     (case ts of
        None \<Rightarrow> (1, None)
      | Some _ \<Rightarrow>
          let t = plcTime - (posix + of_nat SEC_TO_UNIX_EPOCH) * of_nat WINDOWS_TICK_PER_SEC;
              secs = (ucast (t div of_nat WINDOWS_TICK_PER_SEC) :: u32);
              prod = secs * of_nat WINDOWS_TICK_PER_SEC;
              ns = (ucast ((t - ucast prod) * 100) :: u32)
          in (0, Some \<lparr>secPastEpoch = secs, nsec = ns\<rparr>))"

lemma u64_div: "(a :: u64) div 10000000 = word_of_nat (unat a div 10000000)"
proof -
  have "a div 10000000 = word_of_nat (unat (a div 10000000))" by simp
  also have "unat (a div 10000000) = unat a div 10000000" by (simp add: unat_div)
  finally show ?thesis .
qed

section \<open>Properties\<close>

lemma uint_ucast_32: "uint (ucast (x :: u64) :: u32) = uint x mod 2 ^ 32"
  by (simp add: unsigned_ucast_eq take_bit_eq_mod)

lemma uint_ucast_64: "uint (ucast (x :: u32) :: u64) = uint x"
  by (rule uint_up_ucast) (simp add: is_up)

lemma uint_arith_mod:
  "uint (x - y :: u64) = (uint x - uint y) mod 2 ^ 64" "uint (x * y :: u64) = uint x * uint y mod 2 ^ 64"
  "uint (u * v :: u32) = uint u * uint v mod 2 ^ 32"
  by (simp_all add: uint_word_ariths)

text \<open>The nanoseconds of a tick count, as the code computes them, are not affected by the wrap.\<close>

lemma mod_narrow: "(A mod 2 ^ 64 * 100 mod 2 ^ 64) mod 2 ^ 32 = (A mod 2 ^ 32 * 100) mod (2 ^ 32 :: int)"
proof -
  have m: "x mod 2 ^ 64 mod 2 ^ 32 = x mod (2 ^ 32 :: int)" for x by (rule mod_mod_cancel) simp
  have "(A mod 2 ^ 64 * 100 mod 2 ^ 64) mod 2 ^ 32 = (A mod 2 ^ 64 * 100) mod 2 ^ 32" by (rule m)
  also have "\<dots> = (A mod 2 ^ 64 mod 2 ^ 32 * 100) mod 2 ^ 32" by (rule mod_mult_left_eq [symmetric])
  finally show ?thesis by (simp only: m)
qed

lemma wrap_harmless:
  fixes T :: int
  shows "((T - (T div 10000000) mod 2 ^ 32 * 10000000 mod 2 ^ 32) mod 2 ^ 64 * 100 mod 2 ^ 64) mod 2 ^ 32 =
    T mod 10000000 * 100"
proof -
  have "(T - (T div 10000000) mod 2 ^ 32 * 10000000 mod 2 ^ 32) mod 2 ^ 32 =
      (T - T div 10000000 * 10000000) mod 2 ^ 32"
    by (simp only: mod_mult_left_eq mod_diff_right_eq)
  also have "T - T div 10000000 * 10000000 = T mod 10000000" by (rule minus_div_mult_eq_mod)
  finally have "((T - (T div 10000000) mod 2 ^ 32 * 10000000 mod 2 ^ 32) mod 2 ^ 64 * 100 mod 2 ^ 64) mod 2 ^ 32 =
      (T mod 10000000 mod 2 ^ 32 * 100) mod 2 ^ 32"
    by (simp only: mod_narrow)
  also have "\<dots> = (T mod 10000000 * 100) mod 2 ^ 32" by (rule mod_mult_left_eq)
  also have "\<dots> = T mod 10000000 * 100"
    using pos_mod_bound [of 10000000 T] pos_mod_sign [of 10000000 T] by (intro mod_pos_pos_trivial) simp_all
  finally show ?thesis .
qed

text \<open>
  C35: the conversion of the time stamp of a controller is exact for every input: with \<open>T\<close> the
  number of 100 ns ticks since the epoch of EPICS, the seconds are \<open>T div 10^7\<close> at 32 bits and the
  nanoseconds are those of the remaining ticks, below one second, although the code computes the product
  of the seconds and the tick rate at 32 bits, where it wraps after 429 seconds.
\<close>
theorem windows_time_exact:
  "let T = uint (plcTime - (posix + of_nat SEC_TO_UNIX_EPOCH) * of_nat WINDOWS_TICK_PER_SEC)
   in \<exists>ts'. windowsToEpicsTimeStamp posix plcTime (Some ts) = (0, Some ts') \<and>
        uint (secPastEpoch ts') = T div 10000000 mod 2 ^ 32 \<and>
        uint (nsec ts') = T mod 10000000 * 100 \<and> uint (nsec ts') < 1000000000"
proof -
  define t where "t = plcTime - (posix + of_nat SEC_TO_UNIX_EPOCH) * of_nat WINDOWS_TICK_PER_SEC"
  let ?secs = "ucast (t div of_nat WINDOWS_TICK_PER_SEC) :: u32"
  let ?ns = "ucast ((t - ucast (?secs * of_nat WINDOWS_TICK_PER_SEC)) * 100) :: u32"
  have d: "uint (t div of_nat WINDOWS_TICK_PER_SEC) = uint t div 10000000"
    by (simp add: WINDOWS_TICK_PER_SEC_def uint_div)
  then have s: "uint ?secs = uint t div 10000000 mod 2 ^ 32" by (simp add: uint_ucast_32)
  have k: "uint (of_nat WINDOWS_TICK_PER_SEC :: u32) = 10000000" "uint (100 :: u64) = 100"
    by (simp_all add: WINDOWS_TICK_PER_SEC_def)
  have n: "uint ?ns = uint t mod 10000000 * 100"
    unfolding uint_ucast_32 uint_arith_mod uint_ucast_64 d k by (rule wrap_harmless)
  have "uint t mod 10000000 * 100 < 1000000000" using pos_mod_bound [of 10000000 "uint t"] by simp
  then show ?thesis
    using s n by (simp add: windowsToEpicsTimeStamp_def Let_def t_def [symmetric])
qed

text \<open>
  The name of a data type determines its code: two codes with the same name are equal, unless the
  name is the one of unknown types.
\<close>
theorem type_name_determines:
  assumes "adsTypeToString v = adsTypeToString w" and "adsTypeToString v \<noteq> ''ADS_UNKNOWN_DATATYPE''"
  shows "v = w"
  using assms by (rule adst_table.determines)

lemma type_name_determines_witness: "(2 :: int) = adst_code ADST_INT16"
proof (rule type_name_determines)
  show "adsTypeToString 2 = adsTypeToString (adst_code ADST_INT16)" by simp
  show "adsTypeToString 2 \<noteq> ''ADS_UNKNOWN_DATATYPE''"
    using adst_of_code [of ADST_INT16] by (simp add: adsTypeToString_def)
qed

end
