(* ===== verification/Ads_Float.thy ===== *)
theory Ads_Float
  imports Ads_Prelude
begin

text \<open>
  The \<^verbatim>\<open>float\<close> and \<^verbatim>\<open>double\<close> values of the driver as their IEEE 754
  bit patterns (natural numbers below \<open>2^32\<close> and \<open>2^64\<close>): decoding, encoding with
  rounding to nearest (ties to even), the text that \<^verbatim>\<open>%f\<close> and
  \<^verbatim>\<open>%lf\<close> print, and the conversions between integers and the two formats that the
  write functions of the driver perform.  The conversion of a whole number to a double and back is
  shown to be exact below \<open>2^53\<close>.
\<close>

datatype fp = FP_Nan bool | FP_Inf bool | FP_Fin bool nat int

text \<open>The parameters are the numbers of exponent bits and of fraction bits.\<close>

definition fp_decode :: "nat \<Rightarrow> nat \<Rightarrow> nat \<Rightarrow> fp" where
  "fp_decode e m n =
     (let s = (n div 2 ^ (e + m) mod 2 = 1);
          ex = n div 2 ^ m mod 2 ^ e;
          f = n mod 2 ^ m;
          bias = 2 ^ (e - 1) - 1 :: int
      in if ex = 2 ^ e - 1 then (if f = 0 then FP_Inf s else FP_Nan s)
         else if ex = 0 then FP_Fin s f (1 - bias - int m)
         else FP_Fin s (f + 2 ^ m) (int ex - bias - int m))"

definition f32_decode :: "nat \<Rightarrow> fp" where "f32_decode n = fp_decode 8 23 n"
definition f64_decode :: "nat \<Rightarrow> fp" where "f64_decode n = fp_decode 11 52 n"

text \<open>Division rounded to the nearest, ties to even.\<close>

definition div_half_even :: "nat \<Rightarrow> nat \<Rightarrow> nat" where
  "div_half_even a d =
     (let q = a div d; r = a mod d
      in if 2 * r > d \<or> 2 * r = d \<and> odd q then q + 1 else q)"

fun bit_length :: "nat \<Rightarrow> nat" where
  "bit_length n = (if n = 0 then 0 else Suc (bit_length (n div 2)))"

declare bit_length.simps [simp del]

text \<open>The bit pattern of the value \<open>a * 2^k\<close> with the given sign.\<close>

definition fp_encode :: "nat \<Rightarrow> nat \<Rightarrow> bool \<Rightarrow> nat \<Rightarrow> int \<Rightarrow> nat" where
  "fp_encode e m s a k =
     (let sign = (if s then 2 ^ (e + m) else 0);
          low = 2 - 2 ^ (e - 1) - int m :: int;
          q = max (int (bit_length a) - 1 + k - int m) low;
          mant = (if q \<le> k then a * 2 ^ nat (k - q) else div_half_even a (2 ^ nat (q - k)));
          bits = nat (q - low) * 2 ^ m + mant;
          top = (2 ^ e - 1) * 2 ^ m
      in if a = 0 then sign else if bits \<ge> top then sign + top else sign + bits)"

definition int_to_f32 :: "int \<Rightarrow> nat" where
  "int_to_f32 v = fp_encode 8 23 (v < 0) (nat \<bar>v\<bar>) 0"

definition int_to_f64 :: "int \<Rightarrow> nat" where
  "int_to_f64 v = fp_encode 11 52 (v < 0) (nat \<bar>v\<bar>) 0"

fun fp_to_f32 :: "fp \<Rightarrow> nat" where
  "fp_to_f32 (FP_Nan s) = (if s then 2 ^ 31 else 0) + 255 * 2 ^ 23 + 2 ^ 22"
| "fp_to_f32 (FP_Inf s) = (if s then 2 ^ 31 else 0) + 255 * 2 ^ 23"
| "fp_to_f32 (FP_Fin s a k) = fp_encode 8 23 s a k"

fun fp_to_f64 :: "fp \<Rightarrow> nat" where
  "fp_to_f64 (FP_Nan s) = (if s then 2 ^ 63 else 0) + 2047 * 2 ^ 52 + 2 ^ 51"
| "fp_to_f64 (FP_Inf s) = (if s then 2 ^ 63 else 0) + 2047 * 2 ^ 52"
| "fp_to_f64 (FP_Fin s a k) = fp_encode 11 52 s a k"

text \<open>
  A conversion to an integer drops the fraction; it is undefined for a value that is not a number
  or not finite (and, at its use, for one outside the range of the destination).
\<close>

fun fp_trunc :: "fp \<Rightarrow> int option" where
  "fp_trunc (FP_Fin s a k) =
     (let v = (if k \<ge> 0 then a * 2 ^ nat k else a div 2 ^ nat (- k))
      in Some (if s then - int v else int v))"
| "fp_trunc _ = None"

text \<open>
  The product of two doubles, and the conversion of a double to \<^verbatim>\<open>uint32_t\<close> as it
  is compiled for x86-64: through a 64-bit signed integer, whose low half is kept; a value outside that
  range gives the integer indefinite value, whose low half is zero.
\<close>

fun fp_mul :: "fp \<Rightarrow> fp \<Rightarrow> fp" where
  "fp_mul (FP_Fin s a k) (FP_Fin t b l) = FP_Fin (s \<noteq> t) (a * b) (k + l)"
| "fp_mul (FP_Inf s) (FP_Inf t) = FP_Inf (s \<noteq> t)"
| "fp_mul (FP_Inf s) (FP_Fin t b l) = (if b = 0 then FP_Nan True else FP_Inf (s \<noteq> t))"
| "fp_mul (FP_Fin s a k) (FP_Inf t) = (if a = 0 then FP_Nan True else FP_Inf (s \<noteq> t))"
| "fp_mul (FP_Nan s) y = FP_Nan s"
| "fp_mul x (FP_Nan s) = FP_Nan s"

definition f64_mul :: "nat \<Rightarrow> nat \<Rightarrow> nat" where
  "f64_mul x y = fp_to_f64 (fp_mul (f64_decode x) (f64_decode y))"

definition f64_to_u32 :: "nat \<Rightarrow> nat" where
  "f64_to_u32 x =
     (case fp_trunc (f64_decode x) of
        Some v \<Rightarrow> if - (2 ^ 63) \<le> v \<and> v < 2 ^ 63 then nat (v mod 2 ^ 32) else 0
      | None \<Rightarrow> 0)"

section \<open>Printing\<close>

text \<open>Six digits with leading zeros.\<close>

fun digits_of :: "nat \<Rightarrow> nat \<Rightarrow> string" where
  "digits_of 0 n = []"
| "digits_of (Suc k) n = digits_of k (n div 10) @ [digit_char (n mod 10)]"

definition show_sign :: "bool \<Rightarrow> string" where
  "show_sign s = (if s then ''-'' else [])"

fun show_fp :: "fp \<Rightarrow> string" where
  "show_fp (FP_Nan s) = show_sign s @ ''nan''"
| "show_fp (FP_Inf s) = show_sign s @ ''inf''"
| "show_fp (FP_Fin s a k) =
     (let n = (if k \<ge> 0 then a * 10 ^ 6 * 2 ^ nat k else div_half_even (a * 10 ^ 6) (2 ^ nat (- k)))
      in show_sign s @ show_nat (n div 10 ^ 6) @ ''.'' @ digits_of 6 (n mod 10 ^ 6))"

section \<open>Exactness on whole numbers\<close>

lemma bit_length_bounds: "0 < n \<Longrightarrow> 2 ^ (bit_length n - 1) \<le> n \<and> n < 2 ^ bit_length n"
proof (induction n rule: bit_length.induct)
  case (1 n)
  show ?case
  proof (cases "n = 1")
    case True
    then show ?thesis by (simp add: bit_length.simps)
  next
    case False
    with 1(2) have h: "0 < n div 2" by simp
    let ?k = "bit_length (n div 2)"
    from 1 h have IH: "2 ^ (?k - 1) \<le> n div 2" "n div 2 < 2 ^ ?k" by auto
    have k: "0 < ?k" using h by (simp add: bit_length.simps [of "n div 2"])
    have bl: "bit_length n = Suc ?k" using 1(2) by (simp add: bit_length.simps [of n])
    have "2 ^ ?k = 2 * (2 :: nat) ^ (?k - 1)" using k by (cases ?k) auto
    then have "2 ^ ?k \<le> n" using IH(1) by linarith
    moreover have "n < 2 * 2 ^ ?k" using IH(2) by linarith
    ultimately show ?thesis by (simp add: bl)
  qed
qed

lemma bit_length_le: "n < 2 ^ k \<Longrightarrow> bit_length n \<le> k"
proof (rule ccontr)
  assume n: "n < 2 ^ k" and "\<not> bit_length n \<le> k"
  then have "k \<le> bit_length n - 1" and "0 < bit_length n" by auto
  then have "0 < n" by (cases n) (auto simp: bit_length.simps)
  have "(2 :: nat) ^ k \<le> 2 ^ (bit_length n - 1)"
    using \<open>k \<le> bit_length n - 1\<close> by (rule power_increasing) simp
  with bit_length_bounds [OF \<open>0 < n\<close>] n show False by linarith
qed

lemma fp_decode_parts:
  assumes f: "f < 2 ^ m" and ex: "0 < ex" "ex < 2 ^ e - 1"
  shows "fp_decode e m ((if s then 2 ^ (e + m) else 0) + (ex * 2 ^ m + f)) =
           FP_Fin s (f + 2 ^ m) (int ex - (2 ^ (e - 1) - 1) - int m)"
proof -
  let ?n = "(if s then 2 ^ (e + m) else 0) + (ex * 2 ^ m + f)"
  let ?s = "if s then 1 else 0 :: nat"
  have dm: "?n = (?s * 2 ^ e + ex) * 2 ^ m + f"
    by (simp add: power_add algebra_simps)
  have low: "?n mod 2 ^ m = f" using f by (simp add: dm)
  have mid: "?n div 2 ^ m = ?s * 2 ^ e + ex" using f by (simp add: dm)
  have exb: "ex < 2 ^ e" using ex(2) by simp
  then have mid': "?n div 2 ^ m mod 2 ^ e = ex" by (simp add: mid)
  have "?n div 2 ^ (e + m) = ?n div 2 ^ m div 2 ^ e"
    by (simp only: power_add mult.commute [of "2 ^ e"] div_mult2_eq)
  also have "\<dots> = ?s" using exb by (simp add: mid)
  finally have top: "?n div 2 ^ (e + m) mod 2 = ?s" by simp
  show ?thesis
    using ex by (simp add: fp_decode_def Let_def low mid' top)
qed

lemma int_f64_exact:
  assumes "\<bar>v\<bar> < 2 ^ 53"
  shows "fp_trunc (f64_decode (int_to_f64 v)) = Some v"
proof (cases "v = 0")
  case True
  have "f64_decode 0 = FP_Fin False 0 (- 1074)" by (simp add: f64_decode_def fp_decode_def)
  with True show ?thesis by (simp add: int_to_f64_def fp_encode_def)
next
  case False
  define a where "a = nat \<bar>v\<bar>"
  define L where "L = bit_length a"
  have a: "0 < a" "a < 2 ^ 53" using False assms by (simp_all add: a_def)
  have L: "L \<le> 53" "0 < L"
    using bit_length_le [OF a(2)] a(1) by (simp_all add: L_def bit_length.simps [of a])
  have aL: "2 ^ (L - 1) \<le> a" "a < 2 ^ L" using bit_length_bounds [OF a(1)] by (simp_all add: L_def)
  define M where "M = a * 2 ^ (53 - L)"
  have "(2 :: nat) ^ 52 = 2 ^ (L - 1) * 2 ^ (53 - L)"
    using L by (simp only: power_add [symmetric]) simp
  then have M1: "2 ^ 52 \<le> M" using aL(1) by (simp only: M_def mult_le_mono1)
  have "(2 :: nat) ^ 53 = 2 ^ L * 2 ^ (53 - L)"
    using L by (simp only: power_add [symmetric]) simp
  then have M2: "M < 2 ^ 53" using aL(2) by (simp only: M_def mult_less_mono1 zero_less_power zero_less_numeral)
  define ex where "ex = L + 1022"
  have q: "max (int L - 1 + 0 - int 52) (2 - 2 ^ (11 - 1) - int 52) = int L - 53"
    using L by simp
  have n1: "nat (0 - (int L - 53)) = 53 - L" using L by simp
  have n2: "nat (int L - 53 - (2 - 2 ^ (11 - 1) - int 52)) = L + 1021" by simp
  have bits: "(L + 1021) * 2 ^ 52 + M = ex * 2 ^ 52 + (M - 2 ^ 52)"
    using M1 by (simp add: ex_def)
  have f: "M - 2 ^ 52 < 2 ^ 52" using M2 by simp
  have "ex * 2 ^ 52 + (M - 2 ^ 52) < (ex + 1) * 2 ^ 52" using f by simp
  also have "\<dots> \<le> (2 ^ 11 - 1) * 2 ^ 52" using L by (simp add: ex_def)
  finally have nt: "\<not> (2 ^ 11 - 1) * 2 ^ 52 \<le> ex * 2 ^ 52 + (M - 2 ^ 52)" by simp
  have le0: "int L - 53 \<le> 0" using L by simp
  have enc: "int_to_f64 v = (if v < 0 then 2 ^ (11 + 52) else 0) + (ex * 2 ^ 52 + (M - 2 ^ 52))"
    using a(1) nt
    by (simp only: int_to_f64_def fp_encode_def Let_def a_def [symmetric] L_def [symmetric] q n1 n2
        le0 if_True M_def [symmetric] bits if_False neq0_conv [symmetric])
  have exb: "0 < ex" "ex < 2 ^ 11 - 1" using L by (simp_all add: ex_def)
  have dec: "f64_decode (int_to_f64 v) = FP_Fin (v < 0) M (int L - 53)"
    using fp_decode_parts [OF f exb] M1 by (simp add: f64_decode_def enc ex_def)
  have "(if int L - 53 \<ge> 0 then M * 2 ^ nat (int L - 53) else M div 2 ^ nat (- (int L - 53))) = a"
  proof (cases "L = 53")
    case True
    then show ?thesis by (simp add: M_def)
  next
    case False
    with L have "\<not> int L - 53 \<ge> 0" and "nat (- (int L - 53)) = 53 - L" by simp_all
    then show ?thesis by (simp only: if_False M_def) simp
  qed
  then have "fp_trunc (FP_Fin (v < 0) M (int L - 53)) = Some (if v < 0 then - int a else int a)"
    by (simp only: fp_trunc.simps Let_def)
  then show ?thesis by (simp add: dec a_def)
qed

end
