(* ===== verification/Ads_OctetBuffer.thy ===== *)
theory Ads_OctetBuffer
  imports Ads_Types
begin

text \<open>
  The ASCII output buffer of the octet interface (\<^verbatim>\<open>adsOctetOutputBufferType\<close> and
  its operations in \<^verbatim>\<open>adsAsynPortDriverUtils.cpp\<close>, and \<^verbatim>\<open>octetCMDreadIt\<close>
  that hands its content to asyn).  The operations are shown to implement a first-in first-out
  queue of characters of bounded room; the interface is the locale \<open>char_fifo\<close>.
\<close>

abbreviation nul :: char where "nul \<equiv> CHR 0x00"

record octet_buffer =
  bufferSize :: nat
  bytesUsed :: nat
  buffer :: "char list"

definition ADS_CMD_BUFFER_SIZE :: nat where "ADS_CMD_BUFFER_SIZE = 65536"

text \<open>Subtraction of \<^verbatim>\<open>size_t\<close> values wraps at 64 bits.\<close>

definition size_sub :: "nat \<Rightarrow> nat \<Rightarrow> nat" where
  "size_sub a b = (a + 2 ^ 64 - b) mod 2 ^ 64"

definition to_int32 :: "nat \<Rightarrow> int" where
  "to_int32 n = (let m = n mod 2 ^ 32 in if m < 2 ^ 31 then int m else int m - 2 ^ 32)"

lemma size_sub_le [mem_simps]: "b \<le> a \<Longrightarrow> a < 2 ^ 64 \<Longrightarrow> size_sub a b = a - b"
proof -
  assume "b \<le> a" and "a < 2 ^ 64"
  then have "a + 2 ^ 64 - b = (a - b) + 2 ^ 64" by simp
  then have "size_sub a b = (a - b) mod 2 ^ 64" by (simp add: size_sub_def del: power_numeral)
  with \<open>a < 2 ^ 64\<close> show ?thesis by simp
qed

section \<open>Operations\<close>

definition addToBuffer ::
  "octet_buffer option \<Rightarrow> char list \<Rightarrow> nat \<Rightarrow> (int \<times> octet_buffer option) run" where
  "addToBuffer ob addText addLength =
     (case ob of
        None \<Rightarrow> Done (587, None)
      | Some b \<Rightarrow>
          if addLength \<ge> size_sub (size_sub (bufferSize b) (bytesUsed b)) 1
          then Done (592, Some b)
          else
            run_bind (mem_read addText 0 addLength) (\<lambda>txt.
            run_bind (mem_write (buffer b) (bytesUsed b) txt) (\<lambda>m.
            run_bind (mem_write m (bytesUsed b + addLength) [nul]) (\<lambda>m'.
              Done (0, Some (b\<lparr>bytesUsed := bytesUsed b + addLength, buffer := m'\<rparr>))))))"

text \<open>
  The formatted text is an argument.  \<^verbatim>\<open>vsnprintf\<close> stores at most 4094 of its characters in
  the zeroed scratch array of 4096 bytes and returns the length of the whole text, which is then
  copied.
\<close>

definition cmd_buf_vprintf :: "octet_buffer \<Rightarrow> string \<Rightarrow> (int \<times> octet_buffer) run" where
  "cmd_buf_vprintf b text =
     (let len = 4096;
          shown = take (len - 2) text;
          buf = shown @ replicate (len - length shown) nul;
          res = (if length text < 2 ^ 31 then int (length text) else - 1)
      in if res \<ge> 0
         then run_bind (addToBuffer (Some b) buf (nat res)) (\<lambda>(_, ob'). Done (res, the ob'))
         else Done (res, b))"

definition octetCmdBuf_printf ::
  "octet_buffer option \<Rightarrow> string \<Rightarrow> (int \<times> octet_buffer option) run" where
  "octetCmdBuf_printf ob text =
     (case ob of
        None \<Rightarrow> Done (635, None)
      | Some b \<Rightarrow> run_bind (cmd_buf_vprintf b text) (\<lambda>(_, b'). Done (0, Some b')))"

definition octetRemoveFromBuffer ::
  "octet_buffer option \<Rightarrow> nat \<Rightarrow> (int \<times> octet_buffer option) run" where
  "octetRemoveFromBuffer ob len =
     (case ob of
        None \<Rightarrow> Done (655, None)
      | Some b \<Rightarrow>
          let bytesToMove = to_int32 (size_sub (bytesUsed b) len)
          in if bytesToMove < 0 then Done (661, Some b)
             else
               run_bind (mem_read (buffer b) len (nat bytesToMove)) (\<lambda>moved.
               run_bind (mem_write (buffer b) 0 moved) (\<lambda>m.
               run_bind (mem_write m (nat bytesToMove) [nul]) (\<lambda>m'.
                 Done (0, Some (b\<lparr>bytesUsed := nat bytesToMove, buffer := m'\<rparr>))))))"

definition octetClearBuffer ::
  "octet_buffer option \<Rightarrow> (int \<times> octet_buffer option) run" where
  "octetClearBuffer ob =
     (case ob of
        None \<Rightarrow> Done (680, None)
      | Some b \<Rightarrow>
          run_bind (mem_write (buffer b) 0 [nul])
            (\<lambda>m. Done (0, Some (b\<lparr>bytesUsed := 0, buffer := m\<rparr>))))"

text \<open>The driver always passes the address of its own buffer; \<open>emit\<close> is such a call.\<close>

definition emit :: "octet_buffer \<Rightarrow> string \<Rightarrow> octet_buffer run" where
  "emit b text = run_bind (octetCmdBuf_printf (Some b) text) (\<lambda>(_, ob'). Done (the ob'))"

text \<open>
  \<^verbatim>\<open>octetCMDreadIt\<close>: copy at most \<open>outlen\<close> characters and a terminator to
  \<open>outbuf\<close> (a memory), then remove them.  \<open>None\<close> is a null \<open>outbuf\<close>.
\<close>

definition c_string :: "char list \<Rightarrow> string" where
  "c_string m = takeWhile (\<lambda>c. c \<noteq> nul) m"

definition octetCMDreadIt ::
  "octet_buffer \<Rightarrow> char list option \<Rightarrow> nat \<Rightarrow> (int \<times> char list option \<times> octet_buffer) run" where
  "octetCMDreadIt b outbuf outlen =
     (case outbuf of
        None \<Rightarrow> Done (- 1, None, b)
      | Some out \<Rightarrow>
          if outlen = 0 then Done (- 1, Some out, b)
          else
            let text = c_string (buffer b);
                ret = (if length text \<ge> outlen + 1 then outlen else length text)
            in run_bind (mem_write out 0 (take outlen text @ [nul])) (\<lambda>out'.
               run_bind (octetRemoveFromBuffer (Some b) ret) (\<lambda>(_, ob').
                 Done (0, Some out', the ob'))))"

section \<open>Well-formed buffers and their content\<close>

definition obuf_contents :: "octet_buffer \<Rightarrow> string" where
  "obuf_contents b = take (bytesUsed b) (buffer b)"

definition obuf_inv :: "octet_buffer \<Rightarrow> bool" where
  "obuf_inv b \<longleftrightarrow>
     length (buffer b) = bufferSize b \<and> bytesUsed b < bufferSize b \<and> bufferSize b < 2 ^ 31 \<and>
     buffer b ! bytesUsed b = nul \<and> nul \<notin> set (obuf_contents b)"

definition obuf_room :: "octet_buffer \<Rightarrow> nat" where
  "obuf_room b = bufferSize b - bytesUsed b - 1"

text \<open>The buffer that the constructor sets up.\<close>

definition fresh_obuf :: octet_buffer where
  "fresh_obuf = \<lparr>bufferSize = ADS_CMD_BUFFER_SIZE, bytesUsed = 0,
     buffer = replicate ADS_CMD_BUFFER_SIZE nul\<rparr>"

lemma fresh_obuf_inv [simp]:
  "obuf_inv fresh_obuf" "obuf_contents fresh_obuf = []" "obuf_room fresh_obuf = 65535"
  by (simp_all add: fresh_obuf_def obuf_inv_def obuf_contents_def obuf_room_def
      ADS_CMD_BUFFER_SIZE_def)

lemma obuf_contents_length: "obuf_inv b \<Longrightarrow> length (obuf_contents b) = bytesUsed b"
  by (simp add: obuf_inv_def obuf_contents_def)

lemma obuf_inv_sizes [mem_simps]:
  "obuf_inv b \<Longrightarrow> size_sub (size_sub (bufferSize b) (bytesUsed b)) 1 = obuf_room b"
proof -
  assume "obuf_inv b"
  then have "bytesUsed b < bufferSize b" and "bufferSize b < 2 ^ 64" by (auto simp: obuf_inv_def)
  then show ?thesis by (simp only: size_sub_le obuf_room_def less_imp_le less_imp_diff_less
      Suc_leI zero_less_diff One_nat_def)
qed

lemma obuf_c_string:
  assumes "obuf_inv b"
  shows "c_string (buffer b) = obuf_contents b"
proof -
  have "buffer b = obuf_contents b @ buffer b ! bytesUsed b # drop (Suc (bytesUsed b)) (buffer b)"
    using assms id_take_nth_drop [of "bytesUsed b" "buffer b"]
    by (simp add: obuf_inv_def obuf_contents_def)
  then have split: "buffer b = obuf_contents b @ nul # drop (Suc (bytesUsed b)) (buffer b)"
    using assms by (simp add: obuf_inv_def)
  have "\<forall>c \<in> set (obuf_contents b). c \<noteq> nul"
    using assms by (auto simp: obuf_inv_def)
  then show ?thesis
    by (subst split) (simp add: c_string_def takeWhile_append2)
qed

text \<open>The memory after a text and its terminator were stored.\<close>

lemma store_terminated:
  assumes "off + length txt < length m"
  shows "run_bind (mem_write m off txt) (\<lambda>m1. run_bind (mem_write m1 (off + length txt) [nul]) f) =
         f (take off m @ txt @ nul # drop (Suc (off + length txt)) m)"
  using assms by (simp add: mem_write_def)

text \<open>Printing a text that fits the scratch array, and one that does not.\<close>

lemma emit_short:
  assumes "length t \<le> 4094"
  shows "emit b t = run_bind (addToBuffer (Some b) (t @ replicate (4096 - length t) nul) (length t))
                      (\<lambda>(_, ob'). Done (the ob'))"
proof -
  have "take (4096 - 2) t = t" and "length t < 2 ^ 31" using assms by simp_all
  then show ?thesis
    by (simp only: emit_def octetCmdBuf_printf_def cmd_buf_vprintf_def Let_def option.case if_True
        nat_int of_nat_0_le_iff run_bind_assoc case_prod_unfold run_bind.simps fst_conv snd_conv
        option.sel)
qed

lemma emit_store:
  assumes inv: "obuf_inv b" and fits: "length t < obuf_room b" and short: "length t \<le> 4094"
  shows "emit b t =
    Done (b\<lparr>bytesUsed := bytesUsed b + length t,
           buffer := take (bytesUsed b) (buffer b) @ t @ nul #
                     drop (Suc (bytesUsed b + length t)) (buffer b)\<rparr>)"
proof -
  have len: "bytesUsed b + length t < length (buffer b)"
    using inv fits by (auto simp: obuf_inv_def obuf_room_def)
  have read: "mem_read (t @ replicate (4096 - length t) nul) 0 (length t) = Done t"
    using short by (simp add: mem_read_def)
  have room: "\<not> size_sub (size_sub (bufferSize b) (bytesUsed b)) 1 \<le> length t"
    using inv fits by (simp only: obuf_inv_sizes not_le)
  show ?thesis
    by (simp only: emit_short [OF short] addToBuffer_def option.case room if_False read
        run_bind.simps store_terminated [OF len] case_prod_conv option.sel)
qed

lemma emit_inv:
  assumes inv: "obuf_inv b" and fits: "length t < obuf_room b" and short: "length t \<le> 4094"
    and clean: "nul \<notin> set t"
  obtains b' where "emit b t = Done b'" and "obuf_inv b'"
    and "obuf_contents b' = obuf_contents b @ t" and "obuf_room b' = obuf_room b - length t"
    and "bufferSize b' = bufferSize b"
proof -
  let ?m = "take (bytesUsed b) (buffer b) @ t @ nul # drop (Suc (bytesUsed b + length t)) (buffer b)"
  let ?b = "b\<lparr>bytesUsed := bytesUsed b + length t, buffer := ?m\<rparr>"
  have bu: "bytesUsed b + length t < bufferSize b" and len: "length (buffer b) = bufferSize b"
    using inv fits by (auto simp: obuf_inv_def obuf_room_def)
  have c: "obuf_contents ?b = obuf_contents b @ t"
    using bu len by (simp add: obuf_contents_def)
  have lt: "length (take (bytesUsed b) (buffer b) @ t) = bytesUsed b + length t"
    using bu len by simp
  have n: "?m ! (bytesUsed b + length t) = nul"
    using nth_append_length [of "take (bytesUsed b) (buffer b) @ t" nul] lt by simp
  have "obuf_inv ?b"
    using inv bu len clean c n by (auto simp: obuf_inv_def)
  moreover have "obuf_room ?b = obuf_room b - length t"
    by (simp add: obuf_room_def)
  ultimately show thesis
    using that [of ?b] c emit_store [OF inv fits short] by simp
qed

lemma emit_full:
  assumes "obuf_inv b" and "obuf_room b \<le> length t" and "length t < 2 ^ 31"
  shows "emit b t = Done b"
proof -
  have "size_sub (size_sub (bufferSize b) (bytesUsed b)) 1 \<le> length t"
    using assms(1,2) by (simp only: obuf_inv_sizes)
  with assms(3) show ?thesis
    by (simp only: emit_def octetCmdBuf_printf_def cmd_buf_vprintf_def addToBuffer_def Let_def
        option.case if_True nat_int of_nat_0_le_iff run_bind_assoc case_prod_unfold run_bind.simps
        snd_conv option.sel)
qed

lemma emit_overrun:
  assumes inv: "obuf_inv b" and "length t < obuf_room b" and long: "4096 < length t"
  shows "emit b t = Ub"
proof -
  have small: "length t < 2 ^ 31" using assms by (auto simp: obuf_inv_def obuf_room_def)
  have room: "\<not> size_sub (size_sub (bufferSize b) (bytesUsed b)) 1 \<le> length t"
    using assms by (simp only: obuf_inv_sizes not_le)
  let ?s = "take (4096 - 2) t"
  have "mem_read (?s @ replicate (4096 - length ?s) nul) 0 (length t) = Ub"
    using long by (simp add: mem_read_def)
  with small room show ?thesis
    by (simp only: emit_def octetCmdBuf_printf_def cmd_buf_vprintf_def addToBuffer_def Let_def
        option.case if_True if_False nat_int of_nat_0_le_iff run_bind.simps)
qed

lemma emit_ends [run_simps]: "emit b t \<noteq> NoFuel"
  by (auto simp: emit_def octetCmdBuf_printf_def cmd_buf_vprintf_def addToBuffer_def Let_def
      run_simps)

lemma remove_prefix:
  assumes inv: "obuf_inv b" and le: "len \<le> bytesUsed b"
  obtains b' where "octetRemoveFromBuffer (Some b) len = Done (0, Some b')" and "obuf_inv b'"
    and "obuf_contents b' = drop len (obuf_contents b)" and "bufferSize b' = bufferSize b"
proof -
  let ?n = "bytesUsed b - len"
  have bu: "bytesUsed b < bufferSize b" and len: "length (buffer b) = bufferSize b"
    and sz: "bufferSize b < 2 ^ 31"
    using inv by (auto simp: obuf_inv_def)
  have mv: "to_int32 (size_sub (bytesUsed b) len) = int ?n"
    using bu sz le by (simp add: mem_simps to_int32_def Let_def)
  let ?moved = "take ?n (drop len (buffer b))"
  have lm: "length ?moved = ?n" using bu len le by simp
  have rd: "mem_read (buffer b) len ?n = Done ?moved"
    using bu len le by (simp add: mem_read_def)
  let ?m = "?moved @ nul # drop (Suc ?n) (buffer b)"
  have st: "run_bind (mem_write (buffer b) 0 ?moved) (\<lambda>m. run_bind (mem_write m ?n [nul]) f) =
        f ?m" for f :: "char list \<Rightarrow> (int \<times> octet_buffer option) run"
    using store_terminated [of 0 ?moved "buffer b" f] lm bu len by simp
  let ?b = "b\<lparr>bytesUsed := ?n, buffer := ?m\<rparr>"
  have res: "octetRemoveFromBuffer (Some b) len = Done (0, Some ?b)"
    using mv rd st by (simp add: octetRemoveFromBuffer_def Let_def)
  have c: "obuf_contents ?b = drop len (obuf_contents b)"
    using lm by (simp add: obuf_contents_def drop_take)
  have n: "?m ! ?n = nul"
    using nth_append_length [of ?moved nul] lm by simp
  have "set (drop len (obuf_contents b)) \<subseteq> set (obuf_contents b)" by (rule set_drop_subset)
  then have "obuf_inv ?b"
    using inv bu len c n lm by (auto simp: obuf_inv_def)
  then show thesis using that [of ?b] res c by simp
qed

section \<open>The buffer as a queue of characters\<close>

text \<open>Reading a sequence of chunks, for any read operation.\<close>

fun read_seq :: "('b \<Rightarrow> nat \<Rightarrow> (string \<times> 'b) run) \<Rightarrow> nat list \<Rightarrow> 'b \<Rightarrow> (string list \<times> 'b) run" where
  "read_seq get [] b = Done ([], b)"
| "read_seq get (n # ns) b =
     run_bind (get b n) (\<lambda>(s, b'). run_bind (read_seq get ns b') (\<lambda>(ss, b''). Done (s # ss, b'')))"

fun write_seq :: "('b \<Rightarrow> string \<Rightarrow> 'b run) \<Rightarrow> string list \<Rightarrow> 'b \<Rightarrow> 'b run" where
  "write_seq put [] b = Done b"
| "write_seq put (t # ts) b = run_bind (put b t) (write_seq put ts)"

locale char_fifo =
  fixes inv :: "'b \<Rightarrow> bool" and contents :: "'b \<Rightarrow> string" and room :: "'b \<Rightarrow> nat"
    and put :: "'b \<Rightarrow> string \<Rightarrow> 'b run" and get :: "'b \<Rightarrow> nat \<Rightarrow> (string \<times> 'b) run"
    and chunk :: nat
  assumes put_fits: "\<lbrakk>inv b; length t < room b; length t \<le> chunk; nul \<notin> set t\<rbrakk> \<Longrightarrow>
      \<exists>b'. put b t = Done b' \<and> inv b' \<and> contents b' = contents b @ t \<and> room b' = room b - length t"
    and put_full: "\<lbrakk>inv b; room b \<le> length t; length t \<le> chunk\<rbrakk> \<Longrightarrow> put b t = Done b"
    and get_takes: "\<lbrakk>inv b; 0 < n\<rbrakk> \<Longrightarrow>
      \<exists>b'. get b n = Done (take n (contents b), b') \<and> inv b' \<and> contents b' = drop n (contents b)"
begin

lemma put_seq:
  "\<lbrakk>inv b; sum_list (map length ts) < room b; \<forall>t \<in> set ts. length t \<le> chunk \<and> nul \<notin> set t\<rbrakk> \<Longrightarrow>
     \<exists>b'. write_seq put ts b = Done b' \<and> inv b' \<and> contents b' = contents b @ concat ts"
proof (induction ts arbitrary: b)
  case Nil
  then show ?case by simp
next
  case (Cons t ts)
  then obtain b1 where b1: "put b t = Done b1" "inv b1" "contents b1 = contents b @ t"
      "room b1 = room b - length t"
    using put_fits [of b t] by auto
  with Cons.prems have "sum_list (map length ts) < room b1" by simp
  with Cons b1 show ?case by fastforce
qed

lemma get_seq:
  "\<lbrakk>inv b; \<forall>n \<in> set ns. 0 < n\<rbrakk> \<Longrightarrow>
     \<exists>ss b'. read_seq get ns b = Done (ss, b') \<and> inv b' \<and>
       concat ss = take (sum_list ns) (contents b) \<and> contents b' = drop (sum_list ns) (contents b)"
proof (induction ns arbitrary: b)
  case Nil
  then show ?case by simp
next
  case (Cons n ns)
  then obtain b1 where b1: "get b n = Done (take n (contents b), b1)" "inv b1"
      "contents b1 = drop n (contents b)"
    using get_takes [of b n] by auto
  from Cons.IH [OF b1(2)] Cons.prems(2) obtain ss b2 where
    r: "read_seq get ns b1 = Done (ss, b2)" "inv b2"
      "concat ss = take (sum_list ns) (contents b1)"
      "contents b2 = drop (sum_list ns) (contents b1)"
    by auto
  have "read_seq get (n # ns) b = Done (take n (contents b) # ss, b2)" using b1 r by simp
  moreover have "concat (take n (contents b) # ss) = take (sum_list (n # ns)) (contents b)"
    using b1(3) r(3) by (simp add: take_add)
  moreover have "contents b2 = drop (sum_list (n # ns)) (contents b)"
    using b1(3) r(4) by (simp add: add.commute)
  ultimately show ?case using r(2) by blast
qed

lemma stream_through:
  assumes "inv b" and "contents b = []" and "sum_list (map length ts) < room b"
    and "\<forall>t \<in> set ts. length t \<le> chunk \<and> nul \<notin> set t"
    and "\<forall>n \<in> set ns. 0 < n" and "sum_list (map length ts) \<le> sum_list ns"
  shows "\<exists>ss b'. run_bind (write_seq put ts b) (read_seq get ns) = Done (ss, b') \<and>
           concat ss = concat ts \<and> contents b' = []"
proof -
  obtain b1 where b1: "write_seq put ts b = Done b1" "inv b1" "contents b1 = concat ts"
    using put_seq [OF assms(1,3,4)] assms(2) by auto
  have "length (concat ts) \<le> sum_list ns" using assms(6) by (simp add: length_concat)
  with get_seq [OF b1(2) assms(5)] b1 show ?thesis by auto
qed

end

text \<open>One read request of asyn: a fresh output array that has room for the terminator.\<close>

definition obuf_get :: "octet_buffer \<Rightarrow> nat \<Rightarrow> (string \<times> octet_buffer) run" where
  "obuf_get b n =
     run_bind (octetCMDreadIt b (Some (replicate (n + 1) nul)) n) (\<lambda>(_, out, b').
       Done (c_string (the out), b'))"

lemma obuf_get_takes:
  assumes inv: "obuf_inv b" and n: "0 < n"
  shows "\<exists>b'. obuf_get b n = Done (take n (obuf_contents b), b') \<and> obuf_inv b' \<and>
              obuf_contents b' = drop n (obuf_contents b)"
proof -
  let ?t = "obuf_contents b"
  let ?ret = "if length ?t \<ge> n + 1 then n else length ?t"
  have ct: "c_string (buffer b) = ?t" by (rule obuf_c_string [OF inv])
  have ret: "?ret \<le> bytesUsed b" using obuf_contents_length [OF inv] by auto
  obtain b' where b': "octetRemoveFromBuffer (Some b) ?ret = Done (0, Some b')" "obuf_inv b'"
      "obuf_contents b' = drop ?ret ?t"
    using remove_prefix [OF inv ret] by blast
  have d: "drop ?ret ?t = drop n ?t" by simp
  let ?o = "take n ?t @ nul # drop (Suc (length (take n ?t))) (replicate (n + 1) nul)"
  have w: "mem_write (replicate (n + 1) nul) 0 (take n ?t @ [nul]) = Done ?o"
    by (simp add: mem_write_def)
  have "set (take n ?t) \<subseteq> set ?t" by (rule set_take_subset)
  then have "\<forall>c \<in> set (take n ?t). c \<noteq> nul" using inv by (auto simp: obuf_inv_def)
  then have "c_string ?o = take n ?t" by (simp add: c_string_def takeWhile_append2)
  then show ?thesis
    using b' d w n ct by (simp add: obuf_get_def octetCMDreadIt_def Let_def)
qed

interpretation octet_fifo: char_fifo obuf_inv obuf_contents obuf_room emit obuf_get 4094
proof unfold_locales
  fix b :: octet_buffer and t :: string
  assume a: "obuf_inv b" "length t < obuf_room b" "length t \<le> 4094" "nul \<notin> set t"
  show "\<exists>b'. emit b t = Done b' \<and> obuf_inv b' \<and> obuf_contents b' = obuf_contents b @ t \<and>
          obuf_room b' = obuf_room b - length t"
    by (rule emit_inv [OF a]) blast
next
  fix b :: octet_buffer and t :: string
  assume "obuf_inv b" "obuf_room b \<le> length t" "length t \<le> 4094"
  then show "emit b t = Done b" by (simp add: emit_full)
qed (rule obuf_get_takes)

section \<open>Properties\<close>

text \<open>
  C14: texts of at most 4094 characters that fit the buffer and are printed to it one after the
  other come out in the read requests that follow, whatever the sizes of the requests: the chunks
  put together are the texts put together, and the buffer ends empty.
\<close>
theorem octet_stream:
  assumes "obuf_inv b" and "obuf_contents b = []" and "sum_list (map length ts) < obuf_room b"
    and "\<forall>t \<in> set ts. length t \<le> 4094 \<and> nul \<notin> set t"
    and "\<forall>n \<in> set ns. 0 < n" and "sum_list (map length ts) \<le> sum_list ns"
  shows "\<exists>ss b'. run_bind (write_seq emit ts b) (read_seq obuf_get ns) = Done (ss, b') \<and>
           concat ss = concat ts \<and> obuf_contents b' = []"
  by (rule octet_fifo.stream_through [OF assms])

lemma octet_stream_witness:
  "\<exists>ss b'. run_bind (write_seq emit [''OK;'', ''1,2''] fresh_obuf) (read_seq obuf_get [4, 1, 1]) =
     Done (ss, b') \<and> concat ss = ''OK;1,2'' \<and> obuf_contents b' = []"
  using octet_stream [of fresh_obuf "[''OK;'', ''1,2'']" "[4, 1, 1]"] by simp

text \<open>
  Printing a text of more than 4096 characters for which the output buffer has room reads
  beyond the scratch array of 4096 bytes, because the length that
  \<^verbatim>\<open>vsnprintf\<close> returns is that of the whole text.
\<close>
theorem octet_print_overrun:
  assumes "obuf_inv b" and "length t < obuf_room b" and "4096 < length t"
  shows "octetCmdBuf_printf (Some b) t = Ub"
proof -
  have "emit b t = Ub" by (rule emit_overrun [OF assms])
  moreover have "octetCmdBuf_printf (Some b) t \<noteq> NoFuel"
    by (auto simp: octetCmdBuf_printf_def cmd_buf_vprintf_def addToBuffer_def Let_def run_simps)
  ultimately show ?thesis
    by (cases "octetCmdBuf_printf (Some b) t") (auto simp: emit_def)
qed

lemma octet_print_overrun_witness:
  "octetCmdBuf_printf (Some fresh_obuf) (replicate 5000 CHR ''x'') = Ub"
  by (rule octet_print_overrun) simp_all

text \<open>
  A read request never writes outside an array of \<open>outlen + 1\<close> characters, whatever the
  buffer holds, and does write the character with index \<open>outlen\<close>, one beyond the
  \<open>outlen\<close> characters that the caller announced, when the buffer holds that many.
\<close>
theorem octet_read_bounds:
  assumes "obuf_inv b" and "0 < outlen"
  shows "(outlen < length out \<longrightarrow> octetCMDreadIt b (Some out) outlen \<noteq> Ub) \<and>
         (length out = outlen \<and> outlen \<le> bytesUsed b \<longrightarrow> octetCMDreadIt b (Some out) outlen = Ub)"
proof -
  let ?t = "obuf_contents b"
  let ?ret = "if length ?t \<ge> outlen + 1 then outlen else length ?t"
  have ct: "c_string (buffer b) = ?t" by (rule obuf_c_string [OF assms(1)])
  have len: "length ?t = bytesUsed b" by (rule obuf_contents_length [OF assms(1)])
  have ret: "?ret \<le> bytesUsed b" using len by auto
  obtain b' where b': "octetRemoveFromBuffer (Some b) ?ret = Done (0, Some b')"
    using remove_prefix [OF assms(1) ret] by blast
  show ?thesis
    using b' ct len assms(2) by (auto simp: octetCMDreadIt_def Let_def mem_write_def)
qed

lemma octet_read_bounds_witness:
  "octetCMDreadIt fresh_obuf (Some [nul, nul]) 1 \<noteq> Ub"
  using octet_read_bounds [of fresh_obuf 1 "[nul, nul]"] by simp

end
