(* ===== verification/Ads_OctetConv.thy ===== *)
theory Ads_OctetConv
  imports Ads_OctetBuffer Ads_Float
begin

text \<open>
  The two conversions of the octet interface (\<^verbatim>\<open>octetBinary2ascii\<close> and
  \<^verbatim>\<open>octetAscii2binary\<close> of \<^verbatim>\<open>adsAsynPortDriverUtils.cpp\<close>): a memory image
  of PLC data to comma separated text in the output buffer, and such text to a memory image.  Numbers
  are printed and scanned by the definitions of the prelude and of the float theory; the scanning of a
  floating point text (\<^verbatim>\<open>sscanf\<close> with \<^verbatim>\<open>%f\<close> or
  \<^verbatim>\<open>%lf\<close>) is the argument \<open>scan_real\<close>, from the width in bytes and the text to
  the stored image.
\<close>

definition ADS_COM_ERROR_INVALID_DATA_TYPE :: int where "ADS_COM_ERROR_INVALID_DATA_TYPE = 1004"
definition ADS_COM_ERROR_ADS_READ_BUFFER_INDEX_EXCEEDED_SIZE :: int where
  "ADS_COM_ERROR_ADS_READ_BUFFER_INDEX_EXCEEDED_SIZE = 1005"
definition ADS_COM_ERROR_BUFFER_TO_EPICS_FULL :: int where
  "ADS_COM_ERROR_BUFFER_TO_EPICS_FULL = 1006"

definition DUT_AXIS_STATUS :: string where "DUT_AXIS_STATUS = ''DUT_AxisStatus_v0_01''"

text \<open>
  The symbol description that the ADS server returns.  The three pointers into the raw buffer are
  the strings they point to, \<open>None\<close> for a null pointer.
\<close>

record adsSymbolEntry =
  se_entryLen :: nat
  se_iGroup :: nat
  se_iOffset :: nat
  se_size :: nat
  se_dataType :: nat
  se_flags :: nat
  se_nameLength :: nat
  se_typeLength :: nat
  se_commentLength :: nat
  se_buffer :: "u8 list"
  se_variableName :: "string option"
  se_symDataType :: "string option"
  se_symComment :: "string option"

section \<open>Binary to text\<close>

text \<open>The C string at the start of a memory of bytes.\<close>

definition bytes_text :: "u8 list \<Rightarrow> string" where
  "bytes_text m = map (\<lambda>x. char_of (unat x)) (takeWhile (\<lambda>x. x \<noteq> 0) m)"

text \<open>The macro \<^verbatim>\<open>RETURN_VAR_NAME_IF_NEEDED\<close>.\<close>

definition return_var_name :: "bool \<Rightarrow> adsSymbolEntry \<Rightarrow> octet_buffer \<Rightarrow> octet_buffer run" where
  "return_var_name wanted info b =
     (if wanted
      then (case se_variableName info of None \<Rightarrow> Ub | Some n \<Rightarrow> emit b (n @ ''=''))
      else Done b)"

text \<open>
  The text of one element of a numeric type.  The formats \<^verbatim>\<open>% PRId64\<close> and
  \<^verbatim>\<open>% PRIu64\<close>, written inside the string literal, are no conversions: \<open>None\<close>.
  \<^verbatim>\<open>%d\<close> of a 32-bit unsigned value prints it as a signed one.
\<close>

definition b2a_text :: "ADSDATATYPEID \<Rightarrow> u8 list \<Rightarrow> string option" where
  "b2a_text t bs =
     (case t of
        ADST_INT8 \<Rightarrow> Some (show_int (le_int bs))
      | ADST_INT16 \<Rightarrow> Some (show_int (le_int bs))
      | ADST_INT32 \<Rightarrow> Some (show_int (le_int bs))
      | ADST_UINT8 \<Rightarrow> Some (show_int (int (le_nat bs)))
      | ADST_UINT16 \<Rightarrow> Some (show_int (int (le_nat bs)))
      | ADST_UINT32 \<Rightarrow> Some (show_int (le_int bs))
      | ADST_REAL32 \<Rightarrow> Some (show_fp (f32_decode (le_nat bs)))
      | ADST_REAL64 \<Rightarrow> Some (show_fp (f64_decode (le_nat bs)))
      | ADST_BIT \<Rightarrow> Some (if le_nat bs = 1 then ''1'' else ''0'')
      | _ \<Rightarrow> None)"

text \<open>
  The members of \<^verbatim>\<open>adsOctetSTAXISSTATUSSTRUCT\<close> with their offsets on an LP64 system,
  in the order in which they are printed.
\<close>

datatype axis_field = Axis_Flag nat | Axis_U16 nat | Axis_U32 nat | Axis_Double nat

definition adsOctetSTAXISSTATUSSTRUCT :: "axis_field list" where
  "adsOctetSTAXISSTATUSSTRUCT = [
     Axis_Flag 0, Axis_Flag 1, Axis_Flag 2, Axis_U16 4, Axis_U16 6,
     Axis_Double 8, Axis_Double 16, Axis_Double 24, Axis_Double 32,
     Axis_Flag 40, Axis_Flag 41, Axis_Flag 42, Axis_Flag 43, Axis_Double 48,
     Axis_Flag 56, Axis_Flag 57, Axis_Flag 58, Axis_U32 60,
     Axis_Double 64, Axis_Double 72, Axis_Double 80, Axis_Flag 88, Axis_Flag 89]"

fun axis_field_text :: "u8 list \<Rightarrow> axis_field \<Rightarrow> string run" where
  "axis_field_text m (Axis_Flag off) =
     run_bind (mem_read m off 1) (\<lambda>bs. Done (if le_nat bs \<noteq> 0 then ''1'' else ''0''))"
| "axis_field_text m (Axis_U16 off) =
     run_bind (mem_read m off 2) (\<lambda>bs. Done (show_int (int (le_nat bs))))"
| "axis_field_text m (Axis_U32 off) =
     run_bind (mem_read m off 4) (\<lambda>bs. Done (show_int (le_int bs)))"
| "axis_field_text m (Axis_Double off) =
     run_bind (mem_read m off 8) (\<lambda>bs. Done (show_fp (f64_decode (le_nat bs))))"

fun b2a_axis :: "u8 list \<Rightarrow> axis_field list \<Rightarrow> octet_buffer \<Rightarrow> octet_buffer run" where
  "b2a_axis m [] b = Done b"
| "b2a_axis m (f # fs) b =
     run_bind (axis_field_text m f) (\<lambda>txt.
     run_bind (emit b (txt @ (if fs = [] then '';'' else '',''))) (b2a_axis m fs))"

text \<open>
  The \<^verbatim>\<open>switch\<close> of one round.  It returns the error, the number of processed bytes,
  the bytes per element (which some branches leave as they were) and the output buffer.
\<close>

definition b2a_switch ::
  "bool \<Rightarrow> u8 list \<Rightarrow> adsSymbolEntry \<Rightarrow> nat \<Rightarrow> nat \<Rightarrow> nat \<Rightarrow> int \<Rightarrow> octet_buffer \<Rightarrow>
     (int \<times> nat \<times> nat \<times> octet_buffer) run" where
  "b2a_switch wanted m info cycles bp bpd err b =
     (case adst_of (int (se_dataType info)) of
        Some ADST_STRING \<Rightarrow>
          run_bind (return_var_name wanted info b) (\<lambda>b1.
          run_bind (if 0 \<in> set m then emit b1 (bytes_text m) else Ub) (\<lambda>b2.
            Done (err, se_size info, bpd, b2)))
      | Some ADST_BIGTYPE \<Rightarrow>
          (case se_symDataType info of
             None \<Rightarrow> Ub
           | Some ty \<Rightarrow>
               if strstr ty DUT_AXIS_STATUS \<noteq> None
               then (case se_variableName info of
                       None \<Rightarrow> Ub
                     | Some n \<Rightarrow>
                         run_bind (emit b (n @ ''='')) (\<lambda>b1.
                         run_bind (b2a_axis m adsOctetSTAXISSTATUSSTRUCT b1) (\<lambda>b2.
                           Done (err, se_size info, bpd, b2))))
               else Done (err, bp, bpd, b))
      | Some t \<Rightarrow>
          if adst_width t = 0 then Done (ADS_COM_ERROR_INVALID_DATA_TYPE, bp, 0, b)
          else
            run_bind (return_var_name wanted info b) (\<lambda>b1.
            run_bind (mem_read m (cycles * adst_width t) (adst_width t)) (\<lambda>bs.
              case b2a_text t bs of
                None \<Rightarrow> Ub
              | Some txt \<Rightarrow>
                  run_bind (emit b1 txt) (\<lambda>b2.
                    Done (err, (bp + adst_width t) mod 2 ^ 32, adst_width t, b2))))
      | None \<Rightarrow> Done (ADS_COM_ERROR_INVALID_DATA_TYPE, bp, 0, b))"

definition b2a_comma :: "nat \<Rightarrow> octet_buffer \<Rightarrow> octet_buffer run" where
  "b2a_comma bp b = (if bp \<noteq> 0 then emit b '','' else Done b)"

text \<open>The checks at the end of a round.\<close>

definition b2a_checks :: "nat \<Rightarrow> int \<Rightarrow> nat \<Rightarrow> nat \<Rightarrow> octet_buffer \<Rightarrow> int" where
  "b2a_checks binaryBufferSize err bp bpd b =
     (if size_sub (bufferSize b) (bytesUsed b) < 20 then ADS_COM_ERROR_BUFFER_TO_EPICS_FULL
      else if binaryBufferSize < (bp + bpd) mod 2 ^ 32
      then ADS_COM_ERROR_ADS_READ_BUFFER_INDEX_EXCEEDED_SIZE else err)"

fun b2a_loop ::
  "nat \<Rightarrow> bool \<Rightarrow> u8 list \<Rightarrow> nat \<Rightarrow> adsSymbolEntry \<Rightarrow> nat \<Rightarrow> nat \<Rightarrow> nat \<Rightarrow> int \<Rightarrow> octet_buffer \<Rightarrow>
     (int \<times> octet_buffer) run" where
  "b2a_loop 0 wanted m bsize info cycles bp bpd err b = NoFuel"
| "b2a_loop (Suc fuel) wanted m bsize info cycles bp bpd err b =
     (if bp < se_size info \<and> err = 0
      then run_bind (b2a_comma bp b) (\<lambda>b1.
           run_bind (b2a_switch wanted m info cycles bp bpd err b1) (\<lambda>(err1, bp1, bpd1, b2).
             b2a_loop fuel wanted m bsize info (Suc cycles) bp1 bpd1
               (b2a_checks bsize err1 bp1 bpd1 b2) b2))
      else Done (err, b))"

definition octetBinary2ascii ::
  "nat \<Rightarrow> bool \<Rightarrow> u8 list \<Rightarrow> nat \<Rightarrow> adsSymbolEntry \<Rightarrow> octet_buffer \<Rightarrow> (int \<times> octet_buffer) run" where
  "octetBinary2ascii fuel returnVarName binaryBuffer binaryBufferSize info asciiBuffer =
     b2a_loop fuel returnVarName binaryBuffer binaryBufferSize info 0 0 0 0 asciiBuffer"

section \<open>Text to binary\<close>

text \<open>What \<^verbatim>\<open>sscanf\<close> with the directive of the type reads: the stored image.\<close>

fun scan_map :: "('a \<Rightarrow> 'b) \<Rightarrow> 'a scan \<Rightarrow> 'b scan" where
  "scan_map f (Scan_Ok x s) = Scan_Ok (f x) s"
| "scan_map f Scan_Fail = Scan_Fail"
| "scan_map f Scan_Eof = Scan_Eof"

definition scan_word :: "string \<Rightarrow> string scan" where
  "scan_word s =
     (let t = skip_space s in
      if t = [] then Scan_Eof
      else Scan_Ok (takeWhile (\<lambda>c. \<not> is_space c) t) (dropWhile (\<lambda>c. \<not> is_space c) t))"

definition a2b_scan ::
  "(nat \<Rightarrow> string \<Rightarrow> u8 list scan) \<Rightarrow> ADSDATATYPEID \<Rightarrow> string \<Rightarrow> u8 list scan" where
  "a2b_scan scan_real t s =
     (case t of
        ADST_INT8 \<Rightarrow> scan_map (\<lambda>n. le_bytes_int 1 (strtol64 n)) (scan_dec s)
      | ADST_INT16 \<Rightarrow> scan_map (\<lambda>n. le_bytes_int 2 (strtol64 n)) (scan_dec s)
      | ADST_INT32 \<Rightarrow> scan_map (\<lambda>n. le_bytes_int 4 (strtol64 n)) (scan_dec s)
      | ADST_INT64 \<Rightarrow> scan_map (\<lambda>n. le_bytes_int 8 (strtol64 n)) (scan_dec s)
      | ADST_UINT8 \<Rightarrow> scan_map (\<lambda>n. le_bytes_int 1 (strtoul64 n)) (scan_dec s)
      | ADST_UINT16 \<Rightarrow> scan_map (\<lambda>n. le_bytes_int 2 (strtoul64 n)) (scan_dec s)
      | ADST_UINT32 \<Rightarrow> scan_map (\<lambda>n. le_bytes_int 4 (strtoul64 n)) (scan_dec s)
      | ADST_UINT64 \<Rightarrow> scan_map (\<lambda>n. le_bytes_int 8 (strtoul64 n)) (scan_dec s)
      | ADST_REAL32 \<Rightarrow> scan_real 4 s
      | ADST_REAL64 \<Rightarrow> scan_real 8 s
      | ADST_BIT \<Rightarrow> scan_map (\<lambda>n. le_bytes_int 1 (strtoul64 n)) (scan_dec s)
      | _ \<Rightarrow> Scan_Fail)"

text \<open>The value \<open>converted\<close> that \<^verbatim>\<open>sscanf\<close> returns, and the memory after its store.\<close>

fun a2b_store :: "u8 list scan \<Rightarrow> nat \<Rightarrow> u8 list \<Rightarrow> (int \<times> u8 list) run" where
  "a2b_store (Scan_Ok bs rest) off m = run_bind (mem_write m off bs) (\<lambda>m'. Done (1, m'))"
| "a2b_store Scan_Fail off m = Done (0, m)"
| "a2b_store Scan_Eof off m = Done (- 1, m)"

text \<open>One \<^verbatim>\<open>switch\<close>: converted, error, processed bytes, bytes per element, memory.\<close>

definition a2b_switch ::
  "(nat \<Rightarrow> string \<Rightarrow> u8 list scan) \<Rightarrow> nat \<Rightarrow> nat \<Rightarrow> string \<Rightarrow> nat \<Rightarrow> int \<Rightarrow> nat \<Rightarrow> u8 list \<Rightarrow>
     (int \<times> int \<times> nat \<times> nat \<times> u8 list) run" where
  "a2b_switch scan_real dataType bsize s cycles converted bp m =
     (case adst_of (int dataType) of
        Some ADST_STRING \<Rightarrow>
          run_bind (a2b_store (scan_map (\<lambda>w. map (\<lambda>c. word_of_nat (of_char c)) w @ [0]) (scan_word s)) 0 m)
            (\<lambda>(cv, m'). Done (cv, 0, bsize, 1, m'))
      | Some t \<Rightarrow>
          if adst_width t = 0 then Done (converted, ADS_COM_ERROR_INVALID_DATA_TYPE, bp, 0, m)
          else run_bind (a2b_store (a2b_scan scan_real t s) (cycles * adst_width t) m)
                 (\<lambda>(cv, m'). Done (cv, 0, (bp + adst_width t) mod 2 ^ 32, adst_width t, m'))
      | None \<Rightarrow> Done (converted, ADS_COM_ERROR_INVALID_DATA_TYPE, bp, 0, m))"

lemma strchr_shorter: "strchr s c = Some t \<Longrightarrow> length (tl t) < length s"
  by (drule strchr_SomeD) auto

function a2b_loop ::
  "(nat \<Rightarrow> string \<Rightarrow> u8 list scan) \<Rightarrow> nat \<Rightarrow> nat \<Rightarrow> string \<Rightarrow> nat \<Rightarrow> int \<Rightarrow> nat \<Rightarrow> u8 list \<Rightarrow>
     (int \<times> nat \<times> u8 list) run" where
  "a2b_loop scan_real dataType bsize s cycles converted bp m =
     (case a2b_switch scan_real dataType bsize s cycles converted bp m of
        Ub \<Rightarrow> Ub
      | NoFuel \<Rightarrow> NoFuel
      | Done (cv, err, bp1, bpd, m1) \<Rightarrow>
          let err1 = (if bsize < (bp1 + bpd) mod 2 ^ 32
                      then ADS_COM_ERROR_ADS_READ_BUFFER_INDEX_EXCEEDED_SIZE else err)
          in case strchr s CHR '','' of
               None \<Rightarrow> Done (err1, bp1, m1)
             | Some t \<Rightarrow>
                 if cv \<noteq> 0 \<and> err1 = 0
                 then a2b_loop scan_real dataType bsize (tl t) (Suc cycles) cv bp1 m1
                 else Done (err1, bp1, m1))"
  by pat_completeness auto

termination a2b_loop
  by (relation "measure (\<lambda>(_, _, _, s, _). length s)") (auto dest: strchr_shorter)

declare a2b_loop.simps [simp del]

text \<open>The result: the error, \<^verbatim>\<open>*bytesProcessed\<close> and the memory.\<close>

definition octetAscii2binary ::
  "(nat \<Rightarrow> string \<Rightarrow> u8 list scan) \<Rightarrow> string \<Rightarrow> nat \<Rightarrow> u8 list \<Rightarrow> nat \<Rightarrow> nat \<Rightarrow> (int \<times> nat \<times> u8 list) run" where
  "octetAscii2binary scan_real asciiBuffer dataType binaryBuffer binaryBufferSize bytesProcessed =
     a2b_loop scan_real dataType binaryBufferSize asciiBuffer 0 0 bytesProcessed binaryBuffer"

section \<open>Elements of the integer types\<close>

text \<open>The integer types whose elements both conversions handle.\<close>

definition conv_int :: "ADSDATATYPEID \<Rightarrow> bool" where
  "conv_int t \<longleftrightarrow> t \<in> {ADST_INT8, ADST_INT16, ADST_INT32, ADST_UINT8, ADST_UINT16, ADST_UINT32}"

lemma conv_int_cases:
  assumes "conv_int t"
  obtains "t = ADST_INT8" | "t = ADST_INT16" | "t = ADST_INT32" | "t = ADST_UINT8"
    | "t = ADST_UINT16" | "t = ADST_UINT32"
  using assms unfolding conv_int_def by auto

lemma conv_int_width: "conv_int t \<Longrightarrow> 0 < adst_width t \<and> adst_width t \<le> 4"
  by (erule conv_int_cases) simp_all

lemma le_int_small:
  assumes "length bs \<le> 4"
  shows "- (2 ^ 31) \<le> le_int bs \<and> le_int bs < 2 ^ 31"
proof -
  have "(256 :: int) ^ length bs \<le> 256 ^ 4" using assms by (rule power_increasing) simp
  also have "\<dots> = 2 * 2 ^ 31" by simp
  finally have "(256 :: int) ^ length bs \<le> 2 * 2 ^ 31" .
  with le_int_range [of bs] show ?thesis by linarith
qed

lemma le_nat_small:
  assumes "length bs \<le> 2"
  shows "int (le_nat bs) < 2 ^ 16"
proof -
  have "(256 :: int) ^ length bs \<le> 256 ^ 2" using assms by (rule power_increasing) simp
  also have "\<dots> = 2 ^ 16" by simp
  finally have "(256 :: int) ^ length bs \<le> 2 ^ 16" .
  with int_le_nat_bound [of bs] show ?thesis by linarith
qed

lemma show_int_chars: "c \<in> set (show_int v) \<Longrightarrow> is_digit c \<or> c = CHR ''-''"
  using show_nat_digits by (auto simp: show_int_def split: if_splits)

lemma show_int_clean: "nul \<notin> set (show_int v)" "CHR '','' \<notin> set (show_int v)"
  using show_int_chars [of nul v] show_int_chars [of "CHR '',''" v] by (auto simp: is_digit_def)

lemma show_int_length:
  assumes "\<bar>v\<bar> < 2 ^ 32"
  shows "length (show_int v) \<le> 11"
proof -
  have "nat \<bar>v\<bar> < 10 ^ 10" using assms by simp
  then have n: "length (show_nat (nat \<bar>v\<bar>)) \<le> 10" by (rule show_nat_length) simp
  show ?thesis
  proof (cases "v < 0")
    case True
    then have "nat \<bar>v\<bar> = nat (- v)" by simp
    with True n show ?thesis by (simp add: show_int_def)
  next
    case False
    then have "nat \<bar>v\<bar> = nat v" by simp
    with False n show ?thesis by (simp add: show_int_def)
  qed
qed

text \<open>The text of an integer element: the number it prints.\<close>

lemma conv_int_text:
  assumes "conv_int t" and "length bs = adst_width t"
  obtains v where "b2a_text t bs = Some (show_int v)" and "\<bar>v\<bar> < 2 ^ 32"
    and "\<And>rest scan_real. rest = [] \<or> hd rest = CHR '','' \<Longrightarrow>
           a2b_scan scan_real t (show_int v @ rest) = Scan_Ok bs rest"
proof -
  note out = that
  have comma: "rest = [] \<or> hd rest = CHR '','' \<Longrightarrow> rest = [] \<or> \<not> is_digit (hd rest)" for rest
    by (auto simp: is_digit_def)
  have w4: "length bs \<le> 4" using assms conv_int_width by simp
  let ?v = "le_int bs"
  let ?u = "int (le_nat bs)"
  have v: "- (2 ^ 31) \<le> ?v" "?v < 2 ^ 31" using le_int_small [OF w4] by simp_all
  then have vb: "\<bar>?v\<bar> < 2 ^ 32" by simp
  have s: "strtol64 (?v < 0, nat \<bar>?v\<bar>) = ?v" using v by (intro strtol64_abs) simp_all
  have signed: thesis
    if "b2a_text t bs = Some (show_int ?v)"
      and "\<And>sr x. a2b_scan sr t x = scan_map (\<lambda>n. le_bytes_int (length bs) (strtol64 n)) (scan_dec x)"
    using that vb comma s
    by (intro out [of ?v]) (simp_all only: that scan_dec_show_int scan_map.simps le_bytes_int_le_int)
  have unsigned: thesis
    if l: "length bs \<le> 2" and "b2a_text t bs = Some (show_int ?u)"
      and a: "\<And>sr x. a2b_scan sr t x = scan_map (\<lambda>n. le_bytes_int (length bs) (strtoul64 n)) (scan_dec x)"
  proof -
    have u: "?u < 2 ^ 16" using le_nat_small [OF l] .
    then have "strtoul64 (?u < 0, nat \<bar>?u\<bar>) = ?u" by (subst strtoul64_abs) simp_all
    then show thesis
      using that u comma
      by (intro out [of ?u]) (simp_all add: scan_dec_show_int le_bytes_int_le_nat)
  qed
  show thesis
  proof (cases rule: conv_int_cases [OF assms(1)])
    case 6
    have "strtoul64 (?v < 0, nat \<bar>?v\<bar>) = ?v mod 2 ^ 64"
      using v by (intro strtoul64_abs) simp_all
    moreover have "le_bytes_int 4 (?v mod 2 ^ 64) = le_bytes_int 4 ?v"
      by (simp add: le_bytes_int_def mod_mod_cancel)
    ultimately have "le_bytes_int 4 (strtoul64 (?v < 0, nat \<bar>?v\<bar>)) = bs"
      using assms(2) 6 by (simp add: le_bytes_int_le_int)
    with 6 vb comma show thesis
      by (intro out [of ?v]) (simp_all only: b2a_text_def a2b_scan_def ADSDATATYPEID.case
          scan_dec_show_int scan_map.simps)
  next
    case 4
    with assms(2) show thesis by (intro unsigned) (simp_all add: b2a_text_def a2b_scan_def)
  next
    case 5
    with assms(2) show thesis by (intro unsigned) (simp_all add: b2a_text_def a2b_scan_def)
  qed (use assms(2) in \<open>auto intro!: signed simp: b2a_text_def a2b_scan_def\<close>)
qed

lemma adst_of_nat_code: "adst_of (int (nat (adst_code t))) = Some t"
proof -
  have "adst_code t \<ge> 0" by (cases t) simp_all
  then show ?thesis by simp
qed

lemma a2b_switch_num:
  assumes "0 < adst_width t"
  shows "a2b_switch scan_real (nat (adst_code t)) bsize s cycles converted bp m =
    run_bind (a2b_store (a2b_scan scan_real t s) (cycles * adst_width t) m)
      (\<lambda>(cv, m'). Done (cv, 0, (bp + adst_width t) mod 2 ^ 32, adst_width t, m'))"
  using assms unfolding a2b_switch_def adst_of_nat_code option.case by (cases t) simp_all

section \<open>Arrays of integers\<close>

text \<open>The text of element \<open>i\<close> with the comma before it, and of the elements from \<open>i\<close> on.\<close>

definition elem :: "ADSDATATYPEID \<Rightarrow> u8 list \<Rightarrow> nat \<Rightarrow> u8 list" where
  "elem t m i = take (adst_width t) (drop (i * adst_width t) m)"

definition elem_text :: "ADSDATATYPEID \<Rightarrow> u8 list \<Rightarrow> nat \<Rightarrow> string" where
  "elem_text t m i = the (b2a_text t (elem t m i))"

definition comma_list :: "ADSDATATYPEID \<Rightarrow> u8 list \<Rightarrow> nat \<Rightarrow> nat \<Rightarrow> string" where
  "comma_list t m i n =
     concat (map (\<lambda>j. (if j = 0 then [] else '','') @ elem_text t m j) [i..<n])"

lemma comma_list_step:
  "i < n \<Longrightarrow> comma_list t m i n =
     (if i = 0 then [] else '','') @ elem_text t m i @ comma_list t m (Suc i) n"
  by (simp add: comma_list_def upt_conv_Cons)

lemma comma_list_end: "comma_list t m n n = []"
  by (simp add: comma_list_def)

lemma elem_in_bounds:
  assumes "i < n" and "n * w \<le> s"
  shows "i * w + w \<le> (s :: nat)"
proof -
  have "Suc i * w \<le> n * w" using assms(1) by (intro mult_le_mono1) simp
  with assms(2) show ?thesis by simp
qed

lemma elem_text_facts:
  assumes "conv_int t" and "i < n" and "n * adst_width t \<le> length m"
  shows "b2a_text t (elem t m i) = Some (elem_text t m i)"
    and "length (elem_text t m i) \<le> 11" and "nul \<notin> set (elem_text t m i)"
    and "CHR '','' \<notin> set (elem_text t m i)"
    and "rest = [] \<or> hd rest = CHR '','' \<Longrightarrow>
           a2b_scan scan_real t (elem_text t m i @ rest) = Scan_Ok (elem t m i) rest"
proof -
  have "length (elem t m i) = adst_width t"
    using elem_in_bounds [OF assms(2,3)] by (simp add: elem_def)
  from conv_int_text [OF assms(1) this] obtain v where
    v: "b2a_text t (elem t m i) = Some (show_int v)" "\<bar>v\<bar> < 2 ^ 32"
      "\<And>rest scan_real. rest = [] \<or> hd rest = CHR '','' \<Longrightarrow>
         a2b_scan scan_real t (show_int v @ rest) = Scan_Ok (elem t m i) rest"
    by blast
  then have e: "elem_text t m i = show_int v" by (simp add: elem_text_def)
  show "b2a_text t (elem t m i) = Some (elem_text t m i)" using v(1) e by simp
  show "length (elem_text t m i) \<le> 11" using show_int_length [OF v(2)] e by simp
  show "nul \<notin> set (elem_text t m i)" "CHR '','' \<notin> set (elem_text t m i)"
    using show_int_clean [of v] e by simp_all
  show "rest = [] \<or> hd rest = CHR '','' \<Longrightarrow>
           a2b_scan scan_real t (elem_text t m i @ rest) = Scan_Ok (elem t m i) rest"
    using v(3) e by simp
qed

lemma conv_int_not_other: "conv_int t \<Longrightarrow> t \<noteq> ADST_STRING \<and> t \<noteq> ADST_BIGTYPE"
  by (auto simp: conv_int_def)

text \<open>One round on a numeric type without the variable name.\<close>

lemma b2a_switch_elem:
  assumes "conv_int t" and "se_dataType info = nat (adst_code t)"
    and "i < n" and "n * adst_width t \<le> length m"
  shows "b2a_switch False m info i bp bpd err b =
    run_bind (emit b (elem_text t m i)) (\<lambda>b2.
      Done (err, (bp + adst_width t) mod 2 ^ 32, adst_width t, b2))"
proof -
  have c: "adst_of (int (se_dataType info)) = Some t" by (simp only: assms(2) adst_of_nat_code)
  have r: "mem_read m (i * adst_width t) (adst_width t) = Done (elem t m i)"
    using elem_in_bounds [OF assms(3,4)] by (simp add: mem_read_def elem_def)
  note s = elem_text_facts(1) [OF assms(1,3,4)]
  from assms(1) show ?thesis
  proof (cases rule: conv_int_cases)
  qed (use c r s in \<open>simp_all add: b2a_switch_def return_var_name_def\<close>)
qed

lemma b2a_comma_inv:
  assumes "obuf_inv b" and "1 < obuf_room b"
  obtains b' where "b2a_comma bp b = Done b'" and "obuf_inv b'"
    and "obuf_contents b' = obuf_contents b @ (if bp = 0 then [] else '','')"
    and "obuf_room b \<le> obuf_room b' + 1" and "bufferSize b' = bufferSize b"
proof (cases "bp = 0")
  case True
  with assms show thesis by (intro that [of b]) (simp_all add: b2a_comma_def)
next
  case False
  obtain b' where "emit b '','' = Done b'" "obuf_inv b'" "obuf_contents b' = obuf_contents b @ '',''"
      "obuf_room b' = obuf_room b - length '',''" "bufferSize b' = bufferSize b"
    using emit_inv [OF assms(1), of "'',''"] assms(2) by auto
  with False assms(2) show thesis by (intro that [of b']) (simp_all add: b2a_comma_def)
qed

lemma b2a_checks_pass:
  assumes "obuf_inv b" and "20 \<le> obuf_room b" and "bp + bpd \<le> bsize" and "bsize < 2 ^ 32"
  shows "b2a_checks bsize err bp bpd b = err"
proof -
  have "size_sub (bufferSize b) (bytesUsed b) = bufferSize b - bytesUsed b"
    using assms(1) by (intro size_sub_le) (auto simp: obuf_inv_def)
  then have "\<not> size_sub (bufferSize b) (bytesUsed b) < 20"
    using assms(2) by (simp add: obuf_room_def)
  moreover have "(bp + bpd) mod 2 ^ 32 = bp + bpd" using assms(3,4) by (intro mod_less) simp
  ultimately show ?thesis using assms(3) by (simp add: b2a_checks_def)
qed

lemma b2a_loop_ints:
  assumes t: "conv_int t" "se_dataType info = nat (adst_code t)"
    and size: "se_size info = n * adst_width t"
    and fits: "(n + 1) * adst_width t \<le> length m" "length m < 2 ^ 32"
  shows "i \<le> n \<Longrightarrow> obuf_inv b \<Longrightarrow> 12 * (n - i) + 20 \<le> obuf_room b \<Longrightarrow> n - i < fuel \<Longrightarrow>
    \<exists>b'. b2a_loop fuel False m (length m) info i (i * adst_width t) bpd 0 b = Done (0, b') \<and>
         obuf_inv b' \<and> obuf_contents b' = obuf_contents b @ comma_list t m i n"
proof (induction fuel arbitrary: i b bpd)
  case 0
  then show ?case by simp
next
  case (Suc fuel)
  let ?w = "adst_width t"
  have w: "0 < ?w" "?w \<le> 4" using conv_int_width [OF t(1)] by auto
  show ?case
  proof (cases "i = n")
    case True
    then show ?thesis using Suc.prems(2) size by (simp add: comma_list_end)
  next
    case False
    with Suc.prems(1) have i: "i < n" by simp
    have nm: "n * ?w \<le> length m" using fits(1) by simp
    note facts = elem_text_facts [OF t(1) i nm]
    have room: "32 \<le> obuf_room b" using Suc.prems(3) i by simp
    obtain b1 where b1: "b2a_comma (i * ?w) b = Done b1" "obuf_inv b1"
        "obuf_contents b1 = obuf_contents b @ (if i * ?w = 0 then [] else '','')"
        "obuf_room b \<le> obuf_room b1 + 1"
      using b2a_comma_inv [OF Suc.prems(2), of "i * ?w"] room by auto
    have "length (elem_text t m i) < obuf_room b1" "length (elem_text t m i) \<le> 4094"
      using facts(2) room b1(4) by simp_all
    then obtain b2 where b2: "emit b1 (elem_text t m i) = Done b2" "obuf_inv b2"
        "obuf_contents b2 = obuf_contents b1 @ elem_text t m i"
        "obuf_room b2 = obuf_room b1 - length (elem_text t m i)"
      using emit_inv [OF b1(2)] facts(3) by blast
    have r2: "12 * (n - Suc i) + 20 \<le> obuf_room b2"
      using Suc.prems(3) i b1(4) b2(4) facts(2) by (simp add: Suc_diff_Suc [symmetric])
    have "Suc i * ?w + ?w \<le> n * ?w + ?w" using i by (intro add_mono mult_le_mono1) simp_all
    then have bp: "Suc i * ?w + ?w \<le> length m" using fits(1) by simp
    then have md: "(i * ?w + ?w) mod 2 ^ 32 = Suc i * ?w"
      using fits(2) by (subst mod_less) simp_all
    have chk: "b2a_checks (length m) 0 (Suc i * ?w) ?w b2 = 0"
      using b2(2) r2 bp fits(2) by (intro b2a_checks_pass) simp_all
    have lt: "i * ?w < se_size info" using i w size by simp
    have "Suc i \<le> n" "n - Suc i < fuel" using i Suc.prems(4) by simp_all
    from Suc.IH [OF this(1) b2(2) r2 this(2), of ?w] obtain b' where b':
        "b2a_loop fuel False m (length m) info (Suc i) (Suc i * ?w) ?w 0 b2 = Done (0, b')"
        "obuf_inv b'" "obuf_contents b' = obuf_contents b2 @ comma_list t m (Suc i) n"
      by blast
    have "b2a_loop (Suc fuel) False m (length m) info i (i * ?w) bpd 0 b = Done (0, b')"
      using lt by (simp only: b2a_loop.simps b1(1) run_bind.simps simp_thms if_True case_prod_conv
          b2a_switch_elem [OF t i nm] b2(1) md chk b'(1))
    moreover have "obuf_contents b' = obuf_contents b @ comma_list t m i n"
      using b1(3) b2(3) b'(3) w by (simp add: comma_list_step [OF i])
    ultimately show ?thesis using b'(2) by blast
  qed
qed

text \<open>Writing the next part of an image extends the part already copied.\<close>

lemma mem_write_extend:
  assumes "k + w \<le> length m" and "length m0 = length m"
  shows "mem_write (take k m @ drop k m0) k (take w (drop k m)) =
           Done (take (k + w) m @ drop (k + w) m0)"
proof -
  let ?mem = "take k m @ drop k m0"
  have k: "length (take k m) = k" using assms(1) by simp
  have w: "length (take w (drop k m)) = w" using assms(1) by simp
  have "take k ?mem = take k m" using k by simp
  moreover have "drop (k + w) ?mem = drop (k + w) m0" using k by (simp add: add.commute)
  moreover have "length ?mem = length m" using assms by simp
  ultimately show ?thesis using assms(1) by (simp add: mem_write_def w take_add)
qed

lemma a2b_loop_ints:
  assumes t: "conv_int t" and fits: "(n + 1) * adst_width t \<le> length m" "length m < 2 ^ 32"
    and len: "length m0 = length m"
  shows "i < n \<Longrightarrow> a2b_loop sr (nat (adst_code t)) (length m)
      (elem_text t m i @ comma_list t m (Suc i) n) i cv (i * adst_width t)
      (take (i * adst_width t) m @ drop (i * adst_width t) m0) =
    Done (0, n * adst_width t, take (n * adst_width t) m @ drop (n * adst_width t) m0)"
proof (induction "n - i" arbitrary: i cv)
  case 0
  then show ?case by simp
next
  case (Suc d)
  let ?w = "adst_width t"
  let ?mem = "\<lambda>i. take (i * ?w) m @ drop (i * ?w) m0"
  have w: "0 < ?w" "?w \<le> 4" using conv_int_width [OF t] by auto
  have nm: "n * ?w \<le> length m" using fits(1) by simp
  note facts = elem_text_facts [OF t Suc.prems nm]
  let ?rest = "comma_list t m (Suc i) n"
  let ?s = "elem_text t m i @ ?rest"
  have rest: "?rest = [] \<or> hd ?rest = CHR '',''"
    using Suc.prems by (cases "Suc i = n") (simp_all add: comma_list_step comma_list_end)
  have sc: "a2b_scan sr t ?s = Scan_Ok (elem t m i) ?rest" by (rule facts(5) [OF rest])
  have iw: "i * ?w + ?w \<le> length m" by (rule elem_in_bounds [OF Suc.prems nm])
  have "mem_write (?mem i) (i * ?w) (elem t m i) = Done (?mem (Suc i))"
    using mem_write_extend [OF iw len] by (simp add: elem_def add.commute)
  then have sw: "a2b_switch sr (nat (adst_code t)) (length m) ?s i cv (i * ?w) (?mem i) =
      Done (1, 0, (i * ?w + ?w) mod 2 ^ 32, ?w, ?mem (Suc i))"
    using w(1) sc by (simp add: a2b_switch_num)
  have "Suc i * ?w + ?w \<le> n * ?w + ?w"
    using Suc.prems by (intro add_mono mult_le_mono1) simp_all
  then have bp: "Suc i * ?w + ?w \<le> length m" using fits(1) by simp
  then have md: "(i * ?w + ?w) mod 2 ^ 32 = Suc i * ?w"
    and md2: "(Suc i * ?w + ?w) mod 2 ^ 32 = Suc i * ?w + ?w"
    using fits(2) by (subst mod_less; simp)+
  have chk: "\<not> length m < (Suc i * ?w + ?w) mod 2 ^ 32" using bp by (simp only: md2 not_less)
  show ?case
  proof (cases "Suc i < n")
    case True
    have "strchr ?s CHR '','' = Some (CHR '','' # elem_text t m (Suc i) @ comma_list t m (Suc (Suc i)) n)"
      using facts(4) by (simp add: comma_list_step [OF True] strchr_append_sep)
    moreover have "d = n - Suc i" using Suc.hyps(2) by simp
    ultimately show ?thesis
      using Suc.hyps(1) [of "Suc i"] True chk
      by (subst a2b_loop.simps) (simp only: sw run.case case_prod_conv md Let_def if_False
          option.case list.sel simp_thms if_True one_neq_zero not_False_eq_True)
  next
    case False
    with Suc.prems have n: "Suc i = n" by simp
    have "strchr ?s CHR '','' = None"
      using facts(4) by (simp add: n comma_list_end strchr_None_iff)
    then show ?thesis
      using chk by (subst a2b_loop.simps) (simp only: sw [unfolded n] run.case case_prod_conv
          md [unfolded n] Let_def if_False option.case n)
  qed
qed

section \<open>Termination and memory safety\<close>

lemma b2a_axis_ends [run_simps]: "b2a_axis m fs b \<noteq> NoFuel"
proof (induction fs arbitrary: b)
  case Nil
  then show ?case by simp
next
  case (Cons f fs)
  then show ?case by (cases f) (auto simp: run_simps)
qed

lemma b2a_switch_ends [run_simps]: "b2a_switch wanted m info cycles bp bpd err b \<noteq> NoFuel"
  by (auto simp: b2a_switch_def return_var_name_def run_simps split: option.splits
      ADSDATATYPEID.splits)

lemma b2a_comma_ends [run_simps]: "b2a_comma bp b \<noteq> NoFuel"
  by (simp add: b2a_comma_def run_simps)

text \<open>Whether the variable is a structure that the conversion does not know.\<close>

definition unknown_struct :: "adsSymbolEntry \<Rightarrow> bool" where
  "unknown_struct info \<longleftrightarrow> adst_of (int (se_dataType info)) = Some ADST_BIGTYPE \<and>
     (\<exists>ty. se_symDataType info = Some ty \<and> strstr ty DUT_AXIS_STATUS = None)"

text \<open>A round either ends the loop or moves on by at least one byte.\<close>

lemma b2a_switch_progress:
  assumes "b2a_switch wanted m info cycles bp bpd err b = Done (err1, bp1, bpd1, b1)"
    and "\<not> unknown_struct info"
  shows "err1 \<noteq> 0 \<or> se_size info \<le> bp1 \<or> (\<exists>w. 0 < w \<and> w \<le> 10 \<and> bpd1 = w \<and> bp1 = (bp + w) mod 2 ^ 32)"
proof (cases "adst_of (int (se_dataType info))")
  case None
  with assms show ?thesis
    by (auto simp: b2a_switch_def ADS_COM_ERROR_INVALID_DATA_TYPE_def)
next
  case (Some t)
  have "adst_width t \<le> 10" by (cases t) simp_all
  with Some assms show ?thesis
    by (cases t) (auto simp: b2a_switch_def ADS_COM_ERROR_INVALID_DATA_TYPE_def unknown_struct_def
        run_simps split: option.splits if_splits)
qed

lemma b2a_loop_ends:
  assumes u: "\<not> unknown_struct info" and bs: "bsize < 2 ^ 31"
  shows "bp < 2 ^ 31 \<or> se_size info \<le> bp \<or> err \<noteq> 0 \<Longrightarrow> se_size info - bp < fuel \<Longrightarrow> 0 < fuel \<Longrightarrow>
    b2a_loop fuel wanted m bsize info cycles bp bpd err b \<noteq> NoFuel"
proof (induction fuel arbitrary: cycles bp bpd err b)
  case 0
  then show ?case by simp
next
  case (Suc fuel)
  show ?case
  proof (cases "bp < se_size info \<and> err = 0")
    case False
    then show ?thesis by (simp only: b2a_loop.simps if_False) simp
  next
    case True
    with Suc.prems have b31: "bp < 2 ^ 31" by auto
    have next_round: "b2a_loop fuel wanted m bsize info (Suc cycles) bp1 bpd1
        (b2a_checks bsize err1 bp1 bpd1 b2) b2 \<noteq> NoFuel"
      if sw: "b2a_switch wanted m info cycles bp bpd err b1 = Done (err1, bp1, bpd1, b2)"
      for b1 err1 bp1 bpd1 b2
    proof (cases "b2a_checks bsize err1 bp1 bpd1 b2 = 0 \<and> bp1 < se_size info")
      case False
      have "fuel > 0" using Suc.prems(2) conjunct1 [OF True] by linarith
      then show ?thesis using False by (cases fuel) auto
    next
      case c: True
      then have "err1 = 0" "\<not> bsize < (bp1 + bpd1) mod 2 ^ 32"
        by (simp_all add: b2a_checks_def ADS_COM_ERROR_BUFFER_TO_EPICS_FULL_def
            ADS_COM_ERROR_ADS_READ_BUFFER_INDEX_EXCEEDED_SIZE_def split: if_splits)
      with b2a_switch_progress [OF sw u] c obtain w where
        w: "0 < w" "w \<le> 10" "bpd1 = w" "bp1 = (bp + w) mod 2 ^ 32" by auto
      have "bp + w < 2 ^ 32" using b31 w(2) by simp
      then have bp1: "bp1 = bp + w" using w(4) by (simp only: mod_less)
      have "bp1 + bpd1 < 2 ^ 32" using b31 w bp1 by simp
      then have "(bp1 + bpd1) mod 2 ^ 32 = bp1 + bpd1" by (rule mod_less)
      with \<open>\<not> bsize < (bp1 + bpd1) mod 2 ^ 32\<close> bs have "bp1 < 2 ^ 31" by linarith
      moreover have "se_size info - bp1 < fuel" 
        using Suc.prems(2) bp1 w(1) conjunct1 [OF True] by linarith
      moreover have "0 < fuel" using calculation(2) by simp
      ultimately show ?thesis by (intro Suc.IH) simp_all
    qed
    show ?thesis
    proof
      assume "b2a_loop (Suc fuel) wanted m bsize info cycles bp bpd err b = NoFuel"
      then show False
        using True next_round by (auto simp: run_simps simp del: b2a_loop.simps(1))
    qed
  qed
qed

lemma b2a_loop_diverges:
  assumes u: "unknown_struct info" and s: "0 < se_size info"
    and room: "20 \<le> size_sub (bufferSize b) (bytesUsed b)"
  shows "b2a_loop fuel wanted m bsize info cycles 0 0 0 b = NoFuel"
proof (induction fuel arbitrary: cycles)
  case 0
  then show ?case by simp
next
  case (Suc fuel)
  from u obtain ty where "adst_of (int (se_dataType info)) = Some ADST_BIGTYPE"
    "se_symDataType info = Some ty" "strstr ty DUT_AXIS_STATUS = None"
    by (auto simp: unknown_struct_def)
  then have "b2a_switch wanted m info cycles 0 0 0 b = Done (0, 0, 0, b)"
    by (simp add: b2a_switch_def)
  moreover have "b2a_checks bsize 0 0 0 b = 0" using room by (simp add: b2a_checks_def)
  ultimately show ?case using s Suc by (simp add: b2a_comma_def)
qed

lemma a2b_scan_length:
  assumes "a2b_scan scan_real t s = Scan_Ok bs rest" and "0 < adst_width t"
    and "t \<notin> {ADST_REAL32, ADST_REAL64}"
  shows "length bs = adst_width t"
proof -
  have sm: "scan_map f x = Scan_Ok bs rest \<Longrightarrow> \<exists>y. bs = f y" for f :: "bool \<times> nat \<Rightarrow> u8 list" and x
    by (cases x) auto
  show ?thesis using assms by (cases t) (auto simp: a2b_scan_def dest!: sm)
qed

lemma a2b_loop_safe:
  assumes "0 < adst_width t" and "t \<notin> {ADST_REAL32, ADST_REAL64}" and "bsize < 2 ^ 31"
  shows "\<lbrakk>length m = bsize; bp = cycles * adst_width t; bp + adst_width t \<le> bsize\<rbrakk> \<Longrightarrow>
    \<exists>err bp' m'. a2b_loop scan_real (nat (adst_code t)) bsize s cycles cv bp m = Done (err, bp', m') \<and>
      length m' = bsize \<and> bp' \<le> bsize \<and> drop bp' m' = drop bp' m \<and> bp \<le> bp'"
proof (induction s arbitrary: cycles cv bp m rule: length_induct)
  case (1 s)
  let ?w = "adst_width t"
  have w: "?w \<le> 8" using assms(2) by (cases t) simp_all
  have "bp + ?w < 2 ^ 32" "bp + ?w + ?w < 2 ^ 32" using "1.prems"(3) assms(3) w by simp_all
  then have md: "(bp + ?w) mod 2 ^ 32 = bp + ?w" "(bp + ?w + ?w) mod 2 ^ 32 = bp + ?w + ?w"
    by (simp_all only: mod_less)
  have "\<exists>cv m1. a2b_store (a2b_scan scan_real t s) bp m = Done (cv, m1) \<and> length m1 = bsize \<and>
      drop (bp + ?w) m1 = drop (bp + ?w) m"
  proof (cases "a2b_scan scan_real t s")
    case (Scan_Ok bs rest)
    then have "length bs = ?w" using assms(1,2) by (rule a2b_scan_length)
    with Scan_Ok "1.prems" show ?thesis by (simp add: mem_write_def)
  qed (use "1.prems" in simp_all)
  then obtain c1 m1 where m1: "a2b_store (a2b_scan scan_real t s) bp m = Done (c1, m1)"
      "length m1 = bsize" "drop (bp + ?w) m1 = drop (bp + ?w) m"
    by blast
  have sw: "a2b_switch scan_real (nat (adst_code t)) bsize s cycles cv bp m =
      Done (c1, 0, bp + ?w, ?w, m1)"
    by (simp only: a2b_switch_num [OF assms(1)] m1(1) [unfolded "1.prems"(2)] run_bind.simps
        case_prod_conv md)
  let ?err = "if bsize < bp + ?w + ?w then ADS_COM_ERROR_ADS_READ_BUFFER_INDEX_EXCEEDED_SIZE else 0"
  have step: "a2b_loop scan_real (nat (adst_code t)) bsize s cycles cv bp m =
      (case strchr s CHR '','' of None \<Rightarrow> Done (?err, bp + ?w, m1)
       | Some r \<Rightarrow> if c1 \<noteq> 0 \<and> ?err = 0
           then a2b_loop scan_real (nat (adst_code t)) bsize (tl r) (Suc cycles) c1 (bp + ?w) m1
           else Done (?err, bp + ?w, m1))"
    by (subst a2b_loop.simps) (simp only: sw run.case case_prod_conv md Let_def)
  have stop: "\<exists>err bp' m'. Done (?err, bp + ?w, m1) = Done (err, bp', m') \<and> length m' = bsize \<and>
      bp' \<le> bsize \<and> drop bp' m' = drop bp' m \<and> bp \<le> bp'"
    using m1 "1.prems"(3) by auto
  show ?case
  proof (cases "strchr s CHR '',''")
    case None
    then show ?thesis using stop by (simp only: step option.case)
  next
    case (Some r)
    show ?thesis
    proof (cases "c1 \<noteq> 0 \<and> ?err = 0")
      case False
      then show ?thesis using stop Some by (simp only: step option.case if_False)
    next
      case True
      then have "bp + ?w + ?w \<le> bsize"
        by (auto simp: ADS_COM_ERROR_ADS_READ_BUFFER_INDEX_EXCEEDED_SIZE_def split: if_splits)
      moreover have "bp + ?w = Suc cycles * ?w" using "1.prems"(2) by simp
      ultimately obtain err bp' m' where r: "a2b_loop scan_real (nat (adst_code t)) bsize (tl r)
            (Suc cycles) c1 (bp + ?w) m1 = Done (err, bp', m')"
          "length m' = bsize" "bp' \<le> bsize" "drop bp' m' = drop bp' m1" "bp + ?w \<le> bp'"
        using "1.IH" strchr_shorter [OF Some] m1(2) by blast
      have "drop bp' m1 = drop (bp' - (bp + ?w)) (drop (bp + ?w) m1)" using r(5) by simp
      also have "\<dots> = drop bp' m" using r(5) m1(3) by simp
      finally have "drop bp' m' = drop bp' m" using r(4) by simp
      moreover have "bp \<le> bp'" using r(5) by simp
      ultimately show ?thesis
        using r(1-3) True Some by (simp only: step option.case) simp
    qed
  qed
qed

section \<open>Properties\<close>

definition sym_of :: "ADSDATATYPEID \<Rightarrow> nat \<Rightarrow> adsSymbolEntry" where
  "sym_of t sz =
     \<lparr>se_entryLen = 0, se_iGroup = 0, se_iOffset = 0, se_size = sz,
      se_dataType = nat (adst_code t), se_flags = 0, se_nameLength = 0, se_typeLength = 0,
      se_commentLength = 0, se_buffer = [], se_variableName = None, se_symDataType = None,
      se_symComment = None\<rparr>"

text \<open>
  Reading \<open>n\<close> elements of an 8, 16 or 32-bit integer type, for which the binary buffer
  has room for one more element and the output buffer for 12 characters each, prints the elements in
  order with a comma between them and reports success; \<open>n + 1\<close> rounds suffice.
\<close>
theorem b2a_prints_list:
  assumes "conv_int t" and "se_dataType info = nat (adst_code t)"
    and "se_size info = n * adst_width t"
    and "(n + 1) * adst_width t \<le> length m" and "length m < 2 ^ 32"
    and "obuf_inv b" and "12 * n + 20 \<le> obuf_room b"
  shows "\<exists>b'. octetBinary2ascii (n + 1) False m (length m) info b = Done (0, b') \<and>
      obuf_contents b' = obuf_contents b @ comma_list t m 0 n"
  using b2a_loop_ints [OF assms(1-5), of 0 b "n + 1" 0] assms(6,7)
  by (auto simp: octetBinary2ascii_def)

lemma b2a_prints_list_witness:
  "\<exists>b'. octetBinary2ascii (2 + 1) False [254, 255, 5, 0, 0, 0] (length [254, 255, 5, 0, 0, 0 :: u8])
     (sym_of ADST_INT16 4) fresh_obuf = Done (0, b') \<and>
     obuf_contents b' = obuf_contents fresh_obuf @ comma_list ADST_INT16 [254, 255, 5, 0, 0, 0] 0 2"
  by (rule b2a_prints_list) (simp_all add: conv_int_def sym_of_def)



text \<open>
  C20: the conversion to text ends after at most one round per byte and two more, whatever the
  data, unless the variable is a structure of an unknown type.
\<close>
theorem b2a_terminates:
  assumes "\<not> unknown_struct info" and "binaryBufferSize < 2 ^ 31" and "se_size info < fuel"
  shows "octetBinary2ascii fuel wanted m binaryBufferSize info b \<noteq> NoFuel"
  using b2a_loop_ends [OF assms(1,2)] assms(3) by (simp add: octetBinary2ascii_def)

lemma b2a_terminates_witness:
  "octetBinary2ascii 9 True [] 65536 (sym_of ADST_REAL64 8) fresh_obuf \<noteq> NoFuel"
proof (rule b2a_terminates)
  have "adst_of (int (nat (adst_code ADST_REAL64))) = Some ADST_REAL64" by (rule adst_of_nat_code)
  then show "\<not> unknown_struct (sym_of ADST_REAL64 8)" by (simp add: unknown_struct_def sym_of_def)
qed (simp_all add: sym_of_def)

text \<open>
  Reading a structure of an unknown type never returns: no number of rounds is enough, since
  no branch moves on or reports an error.
\<close>
theorem b2a_unknown_struct_diverges:
  assumes "unknown_struct info" and "0 < se_size info"
    and "20 \<le> size_sub (bufferSize b) (bytesUsed b)"
  shows "octetBinary2ascii fuel wanted m binaryBufferSize info b = NoFuel"
  using b2a_loop_diverges [OF assms] by (simp add: octetBinary2ascii_def)

lemma b2a_unknown_struct_diverges_witness:
  "octetBinary2ascii 1000 False [] 65536 ((sym_of ADST_BIGTYPE 24)\<lparr>se_symDataType := Some ''DUT_X''\<rparr>) fresh_obuf = NoFuel"
proof (rule b2a_unknown_struct_diverges)
  have "adst_of (int (nat (adst_code ADST_BIGTYPE))) = Some ADST_BIGTYPE" by (rule adst_of_nat_code)
  moreover have "strstr ''DUT_X'' DUT_AXIS_STATUS = None" by code_simp
  ultimately show "unknown_struct ((sym_of ADST_BIGTYPE 24)\<lparr>se_symDataType := Some ''DUT_X''\<rparr>)"
    by (simp add: unknown_struct_def sym_of_def)
  show "20 \<le> size_sub (bufferSize fresh_obuf) (bytesUsed fresh_obuf)"
    by (simp add: size_sub_def fresh_obuf_def ADS_CMD_BUFFER_SIZE_def)
qed (simp add: sym_of_def)

text \<open>
  C19: for every text and every integer or bit type, the conversion to binary stays inside the
  destination, leaves the bytes behind the reported number of bytes as they were, and reports at most
  the size of the destination.
\<close>
theorem a2b_memory_safe:
  assumes "0 < adst_width t" and "t \<notin> {ADST_REAL32, ADST_REAL64}"
    and "adst_width t \<le> length m" and "length m < 2 ^ 31"
  shows "\<exists>err bp m'. octetAscii2binary scan_real s (nat (adst_code t)) m (length m) 0 = Done (err, bp, m') \<and>
      length m' = length m \<and> bp \<le> length m \<and> drop bp m' = drop bp m"
  using a2b_loop_safe [OF assms(1,2,4) refl, of 0 0 scan_real s 0] assms(3)
  by (auto simp: octetAscii2binary_def)

lemma a2b_memory_safe_witness:
  "\<exists>err bp m'. octetAscii2binary (\<lambda>_ _. Scan_Fail) ''1,2,3,4,5'' (nat (adst_code ADST_INT16))
       [0, 0, 0, 0, 7] (length [0, 0, 0, 0, 7 :: u8]) 0 = Done (err, bp, m') \<and>
     length m' = length [0, 0, 0, 0, 7 :: u8] \<and> bp \<le> length [0, 0, 0, 0, 7 :: u8] \<and>
     drop bp m' = drop bp [0, 0, 0, 0, 7]"
  by (rule a2b_memory_safe) simp_all

text \<open>
  A text that holds no number is not reported: the conversion returns success and the width of
  one element, with the destination unchanged, so that the bytes of the cleared buffer are written to
  the PLC.
\<close>
theorem a2b_unparsable_succeeds:
  assumes "0 < adst_width t" and "t \<notin> {ADST_REAL32, ADST_REAL64}" and "scan_dec s = Scan_Fail"
    and "2 * adst_width t \<le> bsize"
  shows "octetAscii2binary scan_real s (nat (adst_code t)) m bsize 0 = Done (0, adst_width t, m)"
proof -
  have w: "adst_width t \<le> 8" by (cases t) simp_all
  have f: "a2b_scan scan_real t s = Scan_Fail"
    using assms(1-3) by (cases t) (simp_all add: a2b_scan_def)
  have md: "(0 + adst_width t) mod 2 ^ 32 = adst_width t"
    "(adst_width t + adst_width t) mod 2 ^ 32 = adst_width t + adst_width t"
    using w by (subst mod_less; simp)+
  have "a2b_switch scan_real (nat (adst_code t)) bsize s 0 0 0 m =
      Done (0, 0, adst_width t, adst_width t, m)"
    by (simp only: a2b_switch_num [OF assms(1)] f a2b_store.simps run_bind.simps case_prod_conv md)
  moreover have "\<not> bsize < adst_width t + adst_width t" using assms(4) by simp
  ultimately show ?thesis
    unfolding octetAscii2binary_def
    by (subst a2b_loop.simps) (cases "strchr s CHR '',''", simp_all only: run.case case_prod_conv md
        Let_def if_False option.case simp_thms)
qed

lemma a2b_unparsable_succeeds_witness:
  "octetAscii2binary (\<lambda>_ _. Scan_Fail) ''true'' 3 [0, 0, 0, 0, 0, 0, 0, 0] 8 0 =
     Done (0, 4, [0, 0, 0, 0, 0, 0, 0, 0])"
proof -
  have "scan_dec ''true'' = Scan_Fail" by code_simp
  then show ?thesis
    using a2b_unparsable_succeeds [of ADST_INT32 "''true''" 8 "\<lambda>_ _. Scan_Fail" "[0, 0, 0, 0, 0, 0, 0, 0]"]
    by simp
qed

text \<open>
  Writing a string always ends with error 1005: the number of processed bytes is set to the
  size of the buffer, and the check for the next element adds one.
\<close>
theorem a2b_string_fails:
  assumes "length s < length m" and "length m < 2 ^ 31"
  shows "\<exists>bp m'. octetAscii2binary scan_real s (nat (adst_code ADST_STRING)) m (length m) 0 =
           Done (ADS_COM_ERROR_ADS_READ_BUFFER_INDEX_EXCEEDED_SIZE, bp, m')"
proof -
  let ?f = "\<lambda>w. map (\<lambda>c. word_of_nat (of_char c)) w @ [0 :: u8]"
  have "\<exists>cv m'. a2b_store (scan_map ?f (scan_word s)) 0 m = Done (cv, m')"
  proof (cases "skip_space s = []")
    case True
    then show ?thesis by (simp add: scan_word_def Let_def)
  next
    case False
    have "length (takeWhile (\<lambda>c. \<not> is_space c) (skip_space s)) \<le> length (skip_space s)"
      by (rule length_takeWhile_le)
    also have "\<dots> \<le> length s" by (simp add: skip_space_def length_dropWhile_le)
    finally show ?thesis using False assms(1) by (simp add: scan_word_def Let_def mem_write_def)
  qed
  then obtain cv m' where m': "a2b_store (scan_map ?f (scan_word s)) 0 m = Done (cv, m')" by blast
  have sw: "a2b_switch scan_real (nat (adst_code ADST_STRING)) (length m) s 0 0 0 m =
      Done (cv, 0, length m, 1, m')"
    unfolding a2b_switch_def adst_of_nat_code option.case ADSDATATYPEID.case m' by simp
  have "(length m + 1) mod 2 ^ 32 = length m + 1" using assms(2) by (subst mod_less) simp_all
  then have "length m < (length m + 1) mod 2 ^ 32" by simp
  with sw show ?thesis
    unfolding octetAscii2binary_def
    by (subst a2b_loop.simps)
       (simp add: ADS_COM_ERROR_ADS_READ_BUFFER_INDEX_EXCEEDED_SIZE_def del: adst_code.simps
         split: option.splits)
qed

lemma a2b_string_fails_witness:
  "\<exists>bp m'. octetAscii2binary (\<lambda>_ _. Scan_Fail) ''abc'' (nat (adst_code ADST_STRING))
       [0, 0, 0, 0, 0, 0] (length [0, 0, 0, 0, 0, 0 :: u8]) 0 =
     Done (ADS_COM_ERROR_ADS_READ_BUFFER_INDEX_EXCEEDED_SIZE, bp, m')"
  by (rule a2b_string_fails) simp_all

end
