(* ===== verification/Ads_Driver.thy ===== *)
theory Ads_Driver
  imports Ads_Types Ads_Float Ads_OctetConv
begin

text \<open>
  The state of the driver (\<^verbatim>\<open>adsAsynPortDriver.h\<close>, with the parameter and port
  structures of \<^verbatim>\<open>adsAsynPortDriverUtils.h\<close>) and the code it calls outside the
  repository.  The AdsLib, the base class of asyn and the EPICS clock are the operations of the record
  \<open>lib\<close> over an environment of any type \<open>'e\<close> (the ADS router, the remote
  controllers, the parameter library): each operation maps its arguments and the environment to its
  results and the next environment.  Every definition that calls them takes the record as an argument,
  so a theorem about the driver holds for every behaviour of that code that its hypotheses allow.
  Unsigned integers are natural numbers, with the reduction written where the code can wrap; doubles
  are bit patterns; a pointer to a parameter is its index or the parameter itself, passed in and out.
\<close>

section \<open>Parameters and ports\<close>

datatype ADSTIMESOURCE = ADS_TIME_BASE_PLC | ADS_TIME_BASE_EPICS

datatype ADSDATASOURCE = ADS_DATASOURCE_PLC | ADS_DATASOURCE_AMS_STATE

record adsParamInfo =
  p_recordName :: "string option"
  p_recordType :: "string option"
  p_scan :: "string option"
  p_dtyp :: "string option"
  p_inp :: "string option"
  p_out :: "string option"
  p_drvInfo :: "string option"
  p_asynType :: asynParamType
  p_asynAddr :: int
  p_isIOIntr :: bool
  p_sampleTimeMS :: nat
  p_maxDelayTimeMS :: nat
  p_amsPort :: nat
  p_paramIndex :: int
  p_plcAbsAdrValid :: bool
  p_isAdrCommand :: bool
  p_isBulkRead :: bool
  p_pollClass :: nat
  p_plcAdrStr :: string
  p_plcAbsAdrGroup :: nat
  p_plcAbsAdrOffset :: nat
  p_plcSize :: nat
  p_plcDataType :: nat
  p_plcDataTypeWarn :: bool
  p_plcDataIsArray :: bool
  p_hCallbackNotify :: nat
  p_bCallbackNotifyValid :: bool
  p_hSymbolicHandle :: nat
  p_bSymbolicHandleValid :: bool
  p_lastCallbackSize :: nat
  p_arrayDataBufferSize :: nat
  p_arrayDataBuffer :: "u8 list option"
  p_refreshNeeded :: bool
  p_dataSource :: ADSDATASOURCE
  p_timeBase :: ADSTIMESOURCE
  p_plcTimeStampRaw :: u64
  p_plcTimeStamp :: epicsTimeStamp
  p_epicsTimestamp :: epicsTimeStamp
  p_alarmStatus :: int
  p_alarmSeverity :: int
  p_firstReadDone :: bool
  p_bulkIndex :: int
  p_bulkOffset :: int

record amsPortInfo =
  port_amsPort :: nat
  port_connectedOld :: bool
  port_connected :: bool
  port_paramsOK :: bool
  port_version :: "nat \<times> nat \<times> nat"
  port_devName :: string
  port_adsStateOld :: int
  port_adsState :: int
  port_paramInfo :: "nat option"
  port_hCallbackNotify :: nat
  port_bCallbackNotifyValid :: bool
  port_refreshNeeded :: bool

text \<open>The value \<open>- 1\<close> of a \<^verbatim>\<open>uint32_t\<close> handle.\<close>

definition no_handle :: nat where "no_handle = 2 ^ 32 - 1"

section \<open>Code outside the repository\<close>

type_synonym AmsNetId = "u8 list"

record AmsAddr =
  netId :: AmsNetId
  addr_port :: nat

text \<open>Which of the two callback functions of the driver a notification calls.\<close>

datatype notification = adsSymbolsChangedCallback_fn | adsDataCallback_fn

record notification_attrib =
  cbLength :: nat
  nMaxDelay :: nat
  nCycleTime :: nat

text \<open>
  A read returns the status, the bytes that were stored at the start of the destination, and the
  number of bytes it reports.
\<close>

record 'e ads_lib =
  sdk :: "string \<Rightarrow> int"
  mallocOk :: "nat \<Rightarrow> 'e \<Rightarrow> bool"
  AdsPortOpenEx :: "'e \<Rightarrow> int \<times> 'e"
  AdsPortCloseEx :: "int \<Rightarrow> 'e \<Rightarrow> int \<times> 'e"
  AdsAddRoute :: "AmsNetId \<Rightarrow> string \<Rightarrow> 'e \<Rightarrow> int \<times> 'e"
  AdsDelRoute :: "AmsNetId \<Rightarrow> 'e \<Rightarrow> 'e"
  AdsSyncGetTimeoutEx :: "nat \<Rightarrow> 'e \<Rightarrow> int \<times> 'e"
  AdsSyncSetTimeoutEx :: "nat \<Rightarrow> nat \<Rightarrow> 'e \<Rightarrow> int \<times> 'e"
  AdsSyncReadReqEx2 :: "nat \<Rightarrow> AmsAddr \<Rightarrow> nat \<Rightarrow> nat \<Rightarrow> nat \<Rightarrow> 'e \<Rightarrow> (int \<times> u8 list \<times> nat) \<times> 'e"
  AdsSyncReadWriteReqEx2 ::
    "nat \<Rightarrow> AmsAddr \<Rightarrow> nat \<Rightarrow> nat \<Rightarrow> nat \<Rightarrow> u8 list \<Rightarrow> 'e \<Rightarrow> (int \<times> u8 list \<times> nat) \<times> 'e"
  AdsSyncWriteReqEx :: "nat \<Rightarrow> AmsAddr \<Rightarrow> nat \<Rightarrow> nat \<Rightarrow> u8 list \<Rightarrow> 'e \<Rightarrow> int \<times> 'e"
  AdsSyncReadStateReqEx :: "nat \<Rightarrow> AmsAddr \<Rightarrow> 'e \<Rightarrow> (int \<times> nat) \<times> 'e"
  AdsSyncWriteControlReqEx :: "nat \<Rightarrow> AmsAddr \<Rightarrow> nat \<Rightarrow> nat \<Rightarrow> 'e \<Rightarrow> int \<times> 'e"
  AdsSyncReadDeviceInfoReqEx :: "nat \<Rightarrow> AmsAddr \<Rightarrow> 'e \<Rightarrow> (int \<times> string \<times> nat \<times> nat \<times> nat) \<times> 'e"
  AdsSyncAddDeviceNotificationReqEx ::
    "int \<Rightarrow> AmsAddr \<Rightarrow> nat \<Rightarrow> nat \<Rightarrow> notification_attrib \<Rightarrow> notification \<Rightarrow> nat \<Rightarrow> 'e \<Rightarrow> (int \<times> nat) \<times> 'e"
  AdsSyncDelDeviceNotificationReqEx :: "nat \<Rightarrow> AmsAddr \<Rightarrow> nat \<Rightarrow> 'e \<Rightarrow> int \<times> 'e"
  ab_connect :: "'e \<Rightarrow> asynStatus \<times> 'e"
  ab_disconnect :: "'e \<Rightarrow> asynStatus \<times> 'e"
  ab_setIntegerParam :: "int \<Rightarrow> int \<Rightarrow> 'e \<Rightarrow> asynStatus \<times> 'e"
  ab_setInteger64Param :: "int \<Rightarrow> int \<Rightarrow> 'e \<Rightarrow> asynStatus \<times> 'e"
  ab_setDoubleParam :: "int \<Rightarrow> nat \<Rightarrow> 'e \<Rightarrow> asynStatus \<times> 'e"
  ab_getParamAlarmStatus :: "int \<Rightarrow> 'e \<Rightarrow> (asynStatus \<times> int) \<times> 'e"
  ab_setParamAlarmStatus :: "int \<Rightarrow> int \<Rightarrow> 'e \<Rightarrow> asynStatus \<times> 'e"
  ab_getParamAlarmSeverity :: "int \<Rightarrow> 'e \<Rightarrow> (asynStatus \<times> int) \<times> 'e"
  ab_setParamAlarmSeverity :: "int \<Rightarrow> int \<Rightarrow> 'e \<Rightarrow> asynStatus \<times> 'e"
  ab_callParamCallbacks :: "'e \<Rightarrow> 'e"
  ab_updateTimeStamp :: "'e \<Rightarrow> asynStatus \<times> 'e"
  ab_setTimeStamp :: "epicsTimeStamp \<Rightarrow> 'e \<Rightarrow> asynStatus \<times> 'e"
  ab_getTimeStamp :: "'e \<Rightarrow> (asynStatus \<times> epicsTimeStamp) \<times> 'e"
  ab_readValue :: "asynParamType \<Rightarrow> int \<Rightarrow> 'e \<Rightarrow> (asynStatus \<times> nat) \<times> 'e"
  ab_writeValue :: "asynParamType \<Rightarrow> int \<Rightarrow> nat \<Rightarrow> 'e \<Rightarrow> asynStatus \<times> 'e"
  ab_doCallbacksArray :: "asynParamType \<Rightarrow> u8 list \<Rightarrow> nat \<Rightarrow> int \<Rightarrow> int \<Rightarrow> 'e \<Rightarrow> asynStatus \<times> 'e"

text \<open>The unsigned value of a constant of the SDK headers, such as an index group.\<close>

definition sdk_u :: "('e, 'z) ads_lib_scheme \<Rightarrow> string \<Rightarrow> nat" where
  "sdk_u lib n = nat (sdk lib n)"

section \<open>Bulk reads\<close>

definition MAXBULK :: nat where "MAXBULK = 2000"
definition BULKSIZ :: nat where "BULKSIZ = 500"
definition MAXTSENTRY :: nat where "MAXTSENTRY = 10"

record tsentry =
  ts_amsPort :: nat
  ts_iHandleH :: nat
  ts_iHandleL :: nat
  ts_refreshNeeded :: bool

record sum_entry =
  s_iGroup :: nat
  s_iOffset :: nat
  s_iSize :: nat

record BulkReadInfo =
  b_cnt :: nat
  b_amsPort :: nat
  b_sum :: "sum_entry list"
  b_paramID :: "int list"
  b_readSize :: int
  b_refreshNeeded :: bool

section \<open>The symbol dictionary and the client ports\<close>

record AdsSymbolDictEntry =
  e_symbol :: string
  e_symbolLower :: string
  e_datatype :: string
  e_pvName :: string
  e_size :: nat
  e_adst :: nat
  e_handle :: nat
  e_resolved :: bool

record AmsClientPortEntry =
  cp_port :: int
  cp_liveCount :: int

text \<open>A notification that waits for the callback thread; the parameter is its index.\<close>

record datacbinfo =
  cb_param :: nat
  cb_data :: "u8 list"
  cb_nTimeStamp :: u64
  cb_cbSampleSize :: nat

text \<open>What the cache of the loaded database knows about the record of a link.\<close>

record RecordInfoCache =
  rc_recordType :: string
  rc_recordName :: string
  rc_inp :: string
  rc_out :: string
  rc_dtyp :: string
  rc_asynType :: asynParamType

section \<open>The driver object\<close>

text \<open>
  The members of the class, and at the end the two static variables of the file, the cache of links
  (keyed by asyn port and \<^verbatim>\<open>drvInfo\<close>) and whether it was built.
\<close>

record 'e driver =
  env :: 'e
  d_ipaddr :: string
  d_autoConnect :: bool
  d_params :: "adsParamInfo list"
  d_paramCount :: nat
  d_paramTableSize :: int
  d_defaultSampleTimeMS :: int
  d_defaultMaxDelayTimeMS :: int
  d_adsTimeoutMS :: int
  d_connectedAds :: bool
  d_adsPort :: int
  d_routeAdded :: bool
  d_ethercatRouteAdded :: bool
  d_notConnectedCounter :: int
  d_oneAmsConnectionOKold :: bool
  d_amsportDefault :: nat
  d_remoteNetId :: AmsNetId
  d_ethercatMasterNetId :: AmsNetId
  d_ethercatMasterNetIdResolved :: bool
  d_ethercatMasterAvailable :: bool
  d_ethercatMasterAmsNetIdSource :: string
  d_amsPortList :: "amsPortInfo list"
  d_clientPorts :: "nat \<rightharpoonup> AmsClientPortEntry"
  d_stopThreads :: bool
  d_arrayParams :: "nat list"
  d_octetAsciiBuffer :: octet_buffer
  d_octetBinaryBuffer :: "u8 list"
  d_octetReturnVarName :: bool
  d_bulkTS :: "tsentry list"
  d_bulkTScnt :: nat
  d_bulk :: "BulkReadInfo list"
  d_bulkdata :: "u8 list"
  d_datacbqueue :: "datacbinfo list"
  d_bulkOK :: bool
  d_symbolDict :: "string \<rightharpoonup> AdsSymbolDictEntry"
  d_portName :: string
  d_defaultTimeSource :: ADSTIMESOURCE
  d_symInfoResolved :: bool
  d_createdParamsMap :: "string \<rightharpoonup> int"
  d_drvInfoCacheBuilt :: bool
  d_drvInfoCache :: "string \<times> string \<rightharpoonup> RecordInfoCache"

text \<open>A call of code outside the repository on the environment of the driver.\<close>

definition call :: "('e \<Rightarrow> 'r \<times> 'e) \<Rightarrow> 'e driver \<Rightarrow> 'r \<times> 'e driver" where
  "call f d = (case f (env d) of (r, e) \<Rightarrow> (r, d\<lparr>env := e\<rparr>))"

lemma call_simps [simp]:
  "fst (call f d) = fst (f (env d))" "env (snd (call f d)) = snd (f (env d))"
  by (simp_all add: call_def split: prod.splits)

text \<open>What a call keeps: everything but the environment.\<close>

lemma call_frame:
  "call f d = (r, d') \<Longrightarrow> d' = d\<lparr>env := env d'\<rparr> \<and> f (env d) = (r, env d')"
  by (auto simp: call_def split: prod.splits)

text \<open>A parameter is changed through its pointer.\<close>

definition set_param :: "nat \<Rightarrow> adsParamInfo \<Rightarrow> 'e driver \<Rightarrow> 'e driver" where
  "set_param i p d = d\<lparr>d_params := (d_params d)[i := p]\<rparr>"

section \<open>The start of the constructor\<close>

text \<open>A parameter with the default values of its members, and an unused bulk request.\<close>

definition new_param :: adsParamInfo where
  "new_param =
     \<lparr>p_recordName = None, p_recordType = None, p_scan = None, p_dtyp = None, p_inp = None,
      p_out = None, p_drvInfo = None, p_asynType = asynParamNotDefined, p_asynAddr = 0,
      p_isIOIntr = False, p_sampleTimeMS = 0, p_maxDelayTimeMS = 0, p_amsPort = 0, p_paramIndex = 0,
      p_plcAbsAdrValid = False, p_isAdrCommand = False, p_isBulkRead = False, p_pollClass = 0,
      p_plcAdrStr = [], p_plcAbsAdrGroup = 0, p_plcAbsAdrOffset = 0, p_plcSize = 0,
      p_plcDataType = 0, p_plcDataTypeWarn = False, p_plcDataIsArray = False,
      p_hCallbackNotify = 0, p_bCallbackNotifyValid = False, p_hSymbolicHandle = 0,
      p_bSymbolicHandleValid = False, p_lastCallbackSize = 0, p_arrayDataBufferSize = 0,
      p_arrayDataBuffer = None, p_refreshNeeded = False, p_dataSource = ADS_DATASOURCE_PLC,
      p_timeBase = ADS_TIME_BASE_PLC, p_plcTimeStampRaw = 0,
      p_plcTimeStamp = \<lparr>secPastEpoch = 0, nsec = 0\<rparr>,
      p_epicsTimestamp = \<lparr>secPastEpoch = 0, nsec = 0\<rparr>, p_alarmStatus = 0,
      p_alarmSeverity = 0, p_firstReadDone = False, p_bulkIndex = 0, p_bulkOffset = 0\<rparr>"

definition new_bulk :: BulkReadInfo where
  "new_bulk = \<lparr>b_cnt = 0, b_amsPort = 0,
     b_sum = replicate BULKSIZ \<lparr>s_iGroup = 0, s_iOffset = 0, s_iSize = 0\<rparr>,
     b_paramID = replicate BULKSIZ 0, b_readSize = 0, b_refreshNeeded = False\<rparr>"

text \<open>The members as the constructor sets them before it parses the addresses.\<close>

definition constructed ::
  "'e \<Rightarrow> string \<Rightarrow> string \<Rightarrow> nat \<Rightarrow> nat \<Rightarrow> bool \<Rightarrow> int \<Rightarrow> int \<Rightarrow> int \<Rightarrow> ADSTIMESOURCE \<Rightarrow> 'e driver" where
  "constructed e portName ipaddr amsport paramTableSize autoConnect sampleTimeMS maxDelayTimeMS timeoutMS
     defaultTimeSource =
     \<lparr>env = e, d_ipaddr = ipaddr, d_autoConnect = autoConnect,
      d_params = replicate paramTableSize new_param, d_paramCount = 0,
      d_paramTableSize = int paramTableSize, d_defaultSampleTimeMS = sampleTimeMS,
      d_defaultMaxDelayTimeMS = maxDelayTimeMS, d_adsTimeoutMS = timeoutMS,
      d_connectedAds = False, d_adsPort = 0, d_routeAdded = False, d_ethercatRouteAdded = False,
      d_notConnectedCounter = 0, d_oneAmsConnectionOKold = False,
      d_amsportDefault = amsport mod 2 ^ 16, d_remoteNetId = [0, 0, 0, 0, 0, 0],
      d_ethercatMasterNetId = [0, 0, 0, 0, 0, 0], d_ethercatMasterNetIdResolved = False,
      d_ethercatMasterAvailable = False, d_ethercatMasterAmsNetIdSource = [],
      d_amsPortList = [], d_clientPorts = Map.empty, d_stopThreads = False, d_arrayParams = [],
      d_octetAsciiBuffer = fresh_obuf, d_octetBinaryBuffer = replicate ADS_CMD_BUFFER_SIZE 0,
      d_octetReturnVarName = False,
      d_bulkTS = replicate MAXTSENTRY
        \<lparr>ts_amsPort = 0, ts_iHandleH = 0, ts_iHandleL = 0, ts_refreshNeeded = False\<rparr>,
      d_bulkTScnt = 0, d_bulk = replicate MAXBULK new_bulk,
      d_bulkdata = replicate (4 * 1024 * 1024) 0, d_datacbqueue = [], d_bulkOK = False,
      d_symbolDict = Map.empty, d_portName = portName, d_defaultTimeSource = defaultTimeSource,
      d_symInfoResolved = False, d_createdParamsMap = Map.empty, d_drvInfoCacheBuilt = False,
      d_drvInfoCache = Map.empty\<rparr>"

text \<open>
  A library for concrete examples: every request succeeds, reads return zero bytes of the requested
  length, and the constants are the lengths of their names.
\<close>

definition zero_lib :: "'e ads_lib" where
  "zero_lib =
     \<lparr>sdk = (\<lambda>n. int (length n)), mallocOk = (\<lambda>n e. True), AdsPortOpenEx = (\<lambda>e. (30000, e)),
      AdsPortCloseEx = (\<lambda>p e. (0, e)), AdsAddRoute = (\<lambda>a i e. (0, e)), AdsDelRoute = (\<lambda>a e. e),
      AdsSyncGetTimeoutEx = (\<lambda>c e. (0, e)), AdsSyncSetTimeoutEx = (\<lambda>c t e. (0, e)),
      AdsSyncReadReqEx2 = (\<lambda>c a g off n e. ((0, replicate n 0, n), e)),
      AdsSyncReadWriteReqEx2 = (\<lambda>c a g off n w e. ((0, replicate n 0, n), e)),
      AdsSyncWriteReqEx = (\<lambda>c a g off w e. (0, e)),
      AdsSyncReadStateReqEx = (\<lambda>c a e. ((0, 0), e)),
      AdsSyncWriteControlReqEx = (\<lambda>c a s v e. (0, e)),
      AdsSyncReadDeviceInfoReqEx = (\<lambda>c a e. ((0, [], 0, 0, 0), e)),
      AdsSyncAddDeviceNotificationReqEx = (\<lambda>c a g off t f u e. ((0, 0), e)),
      AdsSyncDelDeviceNotificationReqEx = (\<lambda>c a h e. (0, e)),
      ab_connect = (\<lambda>e. (asynSuccess, e)), ab_disconnect = (\<lambda>e. (asynSuccess, e)),
      ab_setIntegerParam = (\<lambda>i v e. (asynSuccess, e)),
      ab_setInteger64Param = (\<lambda>i v e. (asynSuccess, e)),
      ab_setDoubleParam = (\<lambda>i v e. (asynSuccess, e)),
      ab_getParamAlarmStatus = (\<lambda>i e. ((asynSuccess, 0), e)),
      ab_setParamAlarmStatus = (\<lambda>i v e. (asynSuccess, e)),
      ab_getParamAlarmSeverity = (\<lambda>i e. ((asynSuccess, 0), e)),
      ab_setParamAlarmSeverity = (\<lambda>i v e. (asynSuccess, e)),
      ab_callParamCallbacks = (\<lambda>e. e), ab_updateTimeStamp = (\<lambda>e. (asynSuccess, e)),
      ab_setTimeStamp = (\<lambda>t e. (asynSuccess, e)),
      ab_getTimeStamp = (\<lambda>e. ((asynSuccess, \<lparr>secPastEpoch = 0, nsec = 0\<rparr>), e)),
      ab_readValue = (\<lambda>t i e. ((asynSuccess, 0), e)),
      ab_writeValue = (\<lambda>t i v e. (asynSuccess, e)),
      ab_doCallbacksArray = (\<lambda>t m n i a e. (asynSuccess, e))\<rparr>"

definition demo_driver :: "unit driver" where
  "demo_driver = constructed () ''PLC1'' ''10.0.0.1'' 851 10 True 1000 100 500 ADS_TIME_BASE_PLC"

end
