(* ===== verification/Ads_Update.thy ===== *)
theory Ads_Update
  imports Ads_Driver
begin

text \<open>
  Passing PLC data to asyn: alarms, time stamps, the update of a parameter from a block of PLC data
  (\<^verbatim>\<open>adsUpdateParameter\<close>) and the array callbacks
  (\<^verbatim>\<open>fireCallbacksForArrayParam\<close>, \<^verbatim>\<open>fireAllCallbacksLock\<close>).  The
  locks around them make each one step.  A parameter is passed in and out together with its index,
  which stands for the pointer that the callback queue keeps.
\<close>

section \<open>Alarms and time stamps\<close>

definition setAlarmParam ::
  "('e, 'z) ads_lib_scheme \<Rightarrow> adsParamInfo \<Rightarrow> int \<Rightarrow> int \<Rightarrow> 'e driver \<Rightarrow> asynStatus \<times> adsParamInfo \<times> 'e driver" where
  "setAlarmParam lib p alarm severity d =
     (case call (ab_getParamAlarmStatus lib (p_paramIndex p)) d of
        ((stat, oldAlarmStatus), d1) \<Rightarrow>
          if stat \<noteq> asynSuccess then (asynError, p, d1)
          else
            case (if oldAlarmStatus \<noteq> alarm
                  then call (ab_setParamAlarmStatus lib (p_paramIndex p) alarm) d1
                  else (asynSuccess, d1)) of
              (stat1, d2) \<Rightarrow>
                if stat1 \<noteq> asynSuccess then (asynError, p, d2)
                else
                  let p1 = (if oldAlarmStatus \<noteq> alarm then p\<lparr>p_alarmStatus := alarm\<rparr> else p)
                  in case call (ab_getParamAlarmSeverity lib (p_paramIndex p1)) d2 of
                       ((stat2, oldAlarmSeverity), d3) \<Rightarrow>
                         if stat2 \<noteq> asynSuccess then (asynError, p1, d3)
                         else if oldAlarmSeverity \<noteq> severity
                         then (case call (ab_setParamAlarmSeverity lib (p_paramIndex p1) severity) d3 of
                                 (stat3, d4) \<Rightarrow>
                                   if stat3 \<noteq> asynSuccess then (asynError, p1, d4)
                                   else (stat3, p1\<lparr>p_alarmSeverity := severity\<rparr>, d4))
                         else (stat2, p1, d3))"

text \<open>The loop of \<^verbatim>\<open>setAlarmPort\<close> over the indices from \<open>i\<close> on.\<close>

fun setAlarmPort_loop ::
  "('e, 'z) ads_lib_scheme \<Rightarrow> nat \<Rightarrow> int \<Rightarrow> int \<Rightarrow> nat list \<Rightarrow> 'e driver \<Rightarrow> asynStatus \<times> 'e driver" where
  "setAlarmPort_loop lib amsPort alarm severity [] d = (asynSuccess, d)"
| "setAlarmPort_loop lib amsPort alarm severity (i # is) d =
     (if p_amsPort (d_params d ! i) = amsPort
      then (case setAlarmParam lib (d_params d ! i) alarm severity d of
              (stat, p, d1) \<Rightarrow>
                let d2 = d1\<lparr>d_params := (d_params d1)[i := p]\<rparr>
                in if stat \<noteq> asynSuccess then (asynError, d2)
                   else setAlarmPort_loop lib amsPort alarm severity is d2)
      else setAlarmPort_loop lib amsPort alarm severity is d)"

definition setAlarmPort ::
  "('e, 'z) ads_lib_scheme \<Rightarrow> nat \<Rightarrow> int \<Rightarrow> int \<Rightarrow> 'e driver \<Rightarrow> asynStatus \<times> 'e driver" where
  "setAlarmPort lib amsPort alarm severity d =
     setAlarmPort_loop lib amsPort alarm severity [0..<d_paramCount d] d"

definition refreshParamTime ::
  "('e, 'z) ads_lib_scheme \<Rightarrow> adsParamInfo \<Rightarrow> 'e driver \<Rightarrow> asynStatus \<times> adsParamInfo \<times> 'e driver" where
  "refreshParamTime lib p d =
     (case windowsToEpicsTimeStamp (of_int (sdk lib ''POSIX_TIME_AT_EPICS_EPOCH''))
             (p_plcTimeStampRaw p) (Some (p_plcTimeStamp p)) of
        (rc, ts) \<Rightarrow>
          let p1 = p\<lparr>p_plcTimeStamp := the ts\<rparr>
          in if rc \<noteq> 0 then (asynError, p1, d)
             else
               case (if p_timeBase p1 = ADS_TIME_BASE_EPICS \<or> p_plcTimeStampRaw p1 = 0
                     then call (ab_updateTimeStamp lib) d
                     else call (ab_setTimeStamp lib (p_plcTimeStamp p1)) d) of
                 (stat, d1) \<Rightarrow>
                   if stat \<noteq> asynSuccess then (asynError, p1, d1)
                   else
                     case call (ab_getTimeStamp lib) d1 of
                       ((stat1, ts1), d2) \<Rightarrow>
                         if stat1 \<noteq> asynSuccess then (asynError, p1, d2)
                         else (asynSuccess, p1\<lparr>p_epicsTimestamp := ts1\<rparr>, d2))"

section \<open>The value of a block of PLC data\<close>

text \<open>
  The integer that a data type reads from its bytes, before any conversion to the type of the
  parameter; \<open>None\<close> for the floating point types and the types without a value.
\<close>

definition plc_int :: "ADSDATATYPEID \<Rightarrow> u8 list \<Rightarrow> int option" where
  "plc_int t bs =
     (if t \<in> {ADST_INT8, ADST_INT16, ADST_INT32, ADST_INT64, ADST_BIT} then Some (le_int bs)
      else if t \<in> {ADST_UINT8, ADST_UINT16, ADST_UINT32, ADST_UINT64} then Some (int (le_nat bs))
      else None)"

text \<open>The conversion to a signed integer of \<open>n\<close> bytes.\<close>

definition wrap_signed :: "nat \<Rightarrow> int \<Rightarrow> int" where
  "wrap_signed n v = le_int (le_bytes_int n v)"

text \<open>
  The value given to \<^verbatim>\<open>setIntegerParam\<close>; \<open>None\<close> where the conversion of a
  floating point value to \<^verbatim>\<open>int\<close> is undefined.
\<close>

definition to_int_param :: "ADSDATATYPEID \<Rightarrow> u8 list \<Rightarrow> int option" where
  "to_int_param t bs =
     (case plc_int t bs of
        Some v \<Rightarrow> Some (wrap_signed 4 v)
      | None \<Rightarrow>
          (case fp_trunc (if t = ADST_REAL32 then f32_decode (le_nat bs) else f64_decode (le_nat bs)) of
             Some v \<Rightarrow> if - (2 ^ 31) \<le> v \<and> v < 2 ^ 31 then Some v else None
           | None \<Rightarrow> None))"

definition to_double_param :: "ADSDATATYPEID \<Rightarrow> u8 list \<Rightarrow> nat" where
  "to_double_param t bs =
     (case plc_int t bs of
        Some v \<Rightarrow> int_to_f64 v
      | None \<Rightarrow> if t = ADST_REAL32 then fp_to_f64 (f32_decode (le_nat bs)) else le_nat bs)"

text \<open>The array type of asyn for which a PLC type is supported.\<close>

definition array_type_of :: "ADSDATATYPEID \<Rightarrow> asynParamType option" where
  "array_type_of t =
     (case t of
        ADST_INT8 \<Rightarrow> Some asynParamInt8Array | ADST_INT16 \<Rightarrow> Some asynParamInt16Array
      | ADST_INT32 \<Rightarrow> Some asynParamInt32Array | ADST_INT64 \<Rightarrow> Some asynParamInt64Array
      | ADST_UINT64 \<Rightarrow> Some asynParamInt64Array | ADST_REAL32 \<Rightarrow> Some asynParamFloat32Array
      | ADST_REAL64 \<Rightarrow> Some asynParamFloat64Array | ADST_BIT \<Rightarrow> Some asynParamInt8Array
      | ADST_STRING \<Rightarrow> Some asynParamInt8Array | _ \<Rightarrow> None)"

text \<open>
  The nested \<^verbatim>\<open>switch\<close> over the PLC type and the asyn type.  \<open>None\<close> is the
  combination that is reported as not supported.
\<close>

definition update_switch ::
  "('e, 'z) ads_lib_scheme \<Rightarrow> nat \<Rightarrow> adsParamInfo \<Rightarrow> u8 list \<Rightarrow> 'e driver \<Rightarrow> (asynStatus \<times> 'e driver) option run" where
  "update_switch lib i p data d =
     (case adst_of (int (p_plcDataType p)) of
        None \<Rightarrow> Done None
      | Some t \<Rightarrow>
          if Some (p_asynType p) = array_type_of t
          then Done (Some (asynSuccess, d\<lparr>d_arrayParams := d_arrayParams d @ [i]\<rparr>))
          else if adst_width t = 0 then Done None
          else if p_asynType p = asynParamInt32
          then run_bind (mem_read data 0 (adst_width t)) (\<lambda>bs.
                 case to_int_param t bs of
                   None \<Rightarrow> Ub
                 | Some v \<Rightarrow> Done (Some (call (ab_setIntegerParam lib (p_paramIndex p) v) d)))
          else if p_asynType p = asynParamFloat64
          then run_bind (mem_read data 0 (adst_width t)) (\<lambda>bs.
                 Done (Some (call (ab_setDoubleParam lib (p_paramIndex p) (to_double_param t bs)) d)))
          else if p_asynType p = asynParamInt64 \<and> t \<in> {ADST_INT64, ADST_UINT64}
          then run_bind (mem_read data 0 8) (\<lambda>bs.
                 Done (Some (call (ab_setInteger64Param lib (p_paramIndex p) (le_int bs)) d)))
          else Done None)"

section \<open>Updating a parameter\<close>

text \<open>
  \<open>data\<close> is the object that the data pointer points to, \<open>None\<close> for a null pointer.
  The argument \<^verbatim>\<open>dataSize\<close> is not used by the code: the copy to the array buffer takes
  \<^verbatim>\<open>lastCallbackSize\<close> bytes.
\<close>

definition copy_array :: "adsParamInfo \<Rightarrow> u8 list \<Rightarrow> u8 list \<Rightarrow> adsParamInfo run" where
  "copy_array p buf data =
     run_bind (mem_read data 0 (p_lastCallbackSize p)) (\<lambda>bs.
     run_bind (mem_write buf 0 bs) (\<lambda>buf'. Done (p\<lparr>p_arrayDataBuffer := Some buf'\<rparr>)))"

definition adsUpdateParameter ::
  "('e, 'z) ads_lib_scheme \<Rightarrow> nat \<Rightarrow> adsParamInfo \<Rightarrow> u8 list option \<Rightarrow> nat \<Rightarrow> 'e driver \<Rightarrow>
     (asynStatus \<times> adsParamInfo \<times> 'e driver) run" where
  "adsUpdateParameter lib i p data dataSize d =
     (case data of
        None \<Rightarrow> Done (asynError, p, d)
      | Some bytes \<Rightarrow>
          (case refreshParamTime lib p d of
             (stat, p1, d1) \<Rightarrow>
               if stat \<noteq> asynSuccess then Done (asynError, p1, d1)
               else if p_plcDataIsArray p1 \<and> p_arrayDataBuffer p1 = None then Done (asynError, p1, d1)
               else
                 run_bind (if p_plcDataIsArray p1
                           then copy_array p1 (the (p_arrayDataBuffer p1)) bytes else Done p1) (\<lambda>p2.
                 run_bind (update_switch lib i p2 bytes d1) (\<lambda>r.
                   case r of
                     None \<Rightarrow> Done (asynError, p2, d1)
                   | Some (ret, d2) \<Rightarrow>
                       if ret \<noteq> asynSuccess then Done (ret, p2, d2)
                       else
                         (case setAlarmParam lib p2 (sdk lib ''NO_ALARM'') (sdk lib ''NO_ALARM'') d2 of
                            (ret1, p3, d3) \<Rightarrow> Done (ret1, p3, d3))))))"

section \<open>Callbacks of arrays\<close>

text \<open>
  The number of elements that is passed to asyn: the number of bytes for every type but the 64-bit
  integers.  Asyn passes that many elements of the buffer to its clients.
\<close>

definition callback_elements :: "ADSDATATYPEID \<Rightarrow> nat \<Rightarrow> nat" where
  "callback_elements t bytes = (if t \<in> {ADST_INT64, ADST_UINT64} then bytes div 8 else bytes)"

definition array_elem_size :: "asynParamType \<Rightarrow> nat" where
  "array_elem_size a =
     (case a of
        asynParamInt8Array \<Rightarrow> 1 | asynParamInt16Array \<Rightarrow> 2 | asynParamInt32Array \<Rightarrow> 4
      | asynParamInt64Array \<Rightarrow> 8 | asynParamFloat32Array \<Rightarrow> 4 | asynParamFloat64Array \<Rightarrow> 8 | _ \<Rightarrow> 0)"

definition fireCallbacksForArrayParam ::
  "('e, 'z) ads_lib_scheme \<Rightarrow> adsParamInfo \<Rightarrow> 'e driver \<Rightarrow> (asynStatus \<times> 'e driver) run" where
  "fireCallbacksForArrayParam lib p d =
     (if \<not> p_plcDataIsArray p then Done (asynSuccess, d)
      else if p_lastCallbackSize p = 0 then Done (asynSuccess, d)
      else
        case adst_of (int (p_plcDataType p)) of
          None \<Rightarrow> Done (asynError, d)
        | Some t \<Rightarrow>
            if Some (p_asynType p) \<noteq> array_type_of t then Done (asynError, d)
            else
              let n = callback_elements t (p_lastCallbackSize p)
              in case p_arrayDataBuffer p of
                   None \<Rightarrow> Ub
                 | Some buf \<Rightarrow>
                     run_bind (mem_read buf 0 (n * array_elem_size (p_asynType p))) (\<lambda>bs.
                       Done (call (ab_doCallbacksArray lib (p_asynType p) bs n (p_paramIndex p)
                                     (p_asynAddr p)) d)))"

text \<open>The loop that empties the queue.\<close>

fun fire_queue ::
  "('e, 'z) ads_lib_scheme \<Rightarrow> nat list \<Rightarrow> 'e driver \<Rightarrow> 'e driver run" where
  "fire_queue lib [] d = Done (d\<lparr>d_arrayParams := []\<rparr>)"
| "fire_queue lib (i # is) d =
     run_bind (fireCallbacksForArrayParam lib (d_params d ! i) d) (\<lambda>(_, d1). fire_queue lib is d1)"

definition fireAllCallbacksLock ::
  "('e, 'z) ads_lib_scheme \<Rightarrow> 'e driver \<Rightarrow> (asynStatus \<times> 'e driver) run" where
  "fireAllCallbacksLock lib d =
     (let d1 = d\<lparr>env := ab_callParamCallbacks lib (env d)\<rparr>
      in run_bind (fire_queue lib (d_arrayParams d1) d1) (\<lambda>d2. Done (asynSuccess, d2)))"

section \<open>What an update may change\<close>

definition alarm_frame :: "adsParamInfo \<Rightarrow> adsParamInfo \<Rightarrow> bool" where
  "alarm_frame p p' \<longleftrightarrow>
     p' = p\<lparr>p_alarmStatus := p_alarmStatus p', p_alarmSeverity := p_alarmSeverity p'\<rparr>"

definition time_frame :: "adsParamInfo \<Rightarrow> adsParamInfo \<Rightarrow> bool" where
  "time_frame p p' \<longleftrightarrow>
     p' = p\<lparr>p_plcTimeStamp := p_plcTimeStamp p', p_epicsTimestamp := p_epicsTimestamp p'\<rparr>"

definition env_frame :: "'e driver \<Rightarrow> 'e driver \<Rightarrow> bool" where
  "env_frame d d' \<longleftrightarrow> d' = d\<lparr>env := env d'\<rparr>"

lemma env_frame_refl [intro, simp]: "env_frame d d"
  by (simp add: env_frame_def)

lemma env_frameE:
  assumes "env_frame d d'"
  obtains e where "d' = d\<lparr>env := e\<rparr>"
  using assms unfolding env_frame_def by blast

lemma env_frame_trans [trans]: "env_frame d d1 \<Longrightarrow> env_frame d1 d2 \<Longrightarrow> env_frame d d2"
  by (elim env_frameE) (simp add: env_frame_def)

lemma env_frame_call [intro]: "call f d = (r, d') \<Longrightarrow> env_frame d d'"
  by (auto simp: env_frame_def dest: call_frame)

lemma env_frameD: "env_frame d d' \<Longrightarrow> d_params d' = d_params d \<and> d_arrayParams d' = d_arrayParams d"
  by (elim env_frameE) simp

lemma setAlarmParam_frame:
  assumes "setAlarmParam lib p alarm severity d = (stat, p', d')"
  shows "alarm_frame p p' \<and> env_frame d d'"
  using assms
  by (auto simp: setAlarmParam_def Let_def alarm_frame_def split: prod.splits if_splits
      dest!: env_frame_call) (meson env_frame_trans)+

lemma refreshParamTime_frame:
  assumes "refreshParamTime lib p d = (stat, p', d')"
  shows "time_frame p p' \<and> env_frame d d'"
  using assms
  by (auto simp: refreshParamTime_def Let_def time_frame_def split: prod.splits if_splits
      dest!: env_frame_call) (meson env_frame_trans)+

lemma update_switch_frame:
  assumes "update_switch lib i p data d = Done (Some (ret, d'))"
  shows "d' = d\<lparr>env := env d', d_arrayParams := d_arrayParams d'\<rparr> \<and>
         d_arrayParams d' \<in> {d_arrayParams d, d_arrayParams d @ [i]}"
proof -
  have c: "call f d = (ret, d') \<Longrightarrow>
      d' = d\<lparr>env := env d', d_arrayParams := d_arrayParams d'\<rparr> \<and>
      d_arrayParams d' \<in> {d_arrayParams d, d_arrayParams d @ [i]}" for f
    by (auto simp: call_def split: prod.splits)
  show ?thesis
    using assms
    by (auto simp: update_switch_def run_bind_Done_iff dest!: c split: option.splits if_splits)
qed

definition update_frame :: "nat \<Rightarrow> adsParamInfo \<times> 'e driver \<Rightarrow> adsParamInfo \<times> 'e driver \<Rightarrow> bool" where
  "update_frame i s s' \<longleftrightarrow>
     fst s' = (fst s)\<lparr>p_plcTimeStamp := p_plcTimeStamp (fst s'),
                     p_epicsTimestamp := p_epicsTimestamp (fst s'),
                     p_arrayDataBuffer := p_arrayDataBuffer (fst s'),
                     p_alarmStatus := p_alarmStatus (fst s'),
                     p_alarmSeverity := p_alarmSeverity (fst s')\<rparr> \<and>
     snd s' = (snd s)\<lparr>env := env (snd s'), d_arrayParams := d_arrayParams (snd s')\<rparr> \<and>
     d_arrayParams (snd s') \<in> {d_arrayParams (snd s), d_arrayParams (snd s) @ [i]} \<and>
     map_option length (p_arrayDataBuffer (fst s')) = map_option length (p_arrayDataBuffer (fst s))"

lemma copy_array_frame:
  assumes "copy_array p buf data = Done p'"
  shows "\<exists>buf'. p' = p\<lparr>p_arrayDataBuffer := Some buf'\<rparr> \<and> length buf' = length buf"
  using assms by (auto simp: copy_array_def run_bind_Done_iff mem_write_length)

lemma update_frame_time:
  assumes "refreshParamTime lib p d = (stat, p1, d1)"
  shows "update_frame i (p, d) (p1, d1)"
proof -
  from refreshParamTime_frame [OF assms] have t: "time_frame p p1" and e: "env_frame d d1" by auto
  from t obtain a b where p1: "p1 = p\<lparr>p_plcTimeStamp := a, p_epicsTimestamp := b\<rparr>"
    unfolding time_frame_def by blast
  from e obtain c where d1: "d1 = d\<lparr>env := c\<rparr>" unfolding env_frame_def by blast
  show ?thesis by (simp add: update_frame_def p1 d1)
qed

lemma update_frame_trans:
  assumes "update_frame i (p, d) (p1, d1)" and "d_arrayParams d1 = d_arrayParams d \<or> d_arrayParams d2 = d_arrayParams d1"
    and "update_frame i (p1, d1) (p2, d2)"
  shows "update_frame i (p, d) (p2, d2)"
proof -
  from assms(1) obtain a b c e f where p1: "p1 = p\<lparr>p_plcTimeStamp := a, p_epicsTimestamp := b,
      p_arrayDataBuffer := c, p_alarmStatus := e, p_alarmSeverity := f\<rparr>"
    unfolding update_frame_def fst_conv by blast
  from assms(1) obtain x y where d1: "d1 = d\<lparr>env := x, d_arrayParams := y\<rparr>"
    unfolding update_frame_def snd_conv by blast
  from assms(3) obtain a' b' c' e' f' where p2: "p2 = p1\<lparr>p_plcTimeStamp := a', p_epicsTimestamp := b',
      p_arrayDataBuffer := c', p_alarmStatus := e', p_alarmSeverity := f'\<rparr>"
    unfolding update_frame_def fst_conv by blast
  from assms(3) obtain x' y' where d2: "d2 = d1\<lparr>env := x', d_arrayParams := y'\<rparr>"
    unfolding update_frame_def snd_conv by blast
  show ?thesis
    using assms by (auto simp: update_frame_def p1 d1 p2 d2)
qed

lemma update_frame_alarm:
  assumes "setAlarmParam lib p alarm severity d = (stat, p1, d1)"
  shows "update_frame i (p, d) (p1, d1) \<and> d_arrayParams d1 = d_arrayParams d"
proof -
  from setAlarmParam_frame [OF assms] have t: "alarm_frame p p1" and e: "env_frame d d1" by auto
  from t obtain a b where p1: "p1 = p\<lparr>p_alarmStatus := a, p_alarmSeverity := b\<rparr>"
    unfolding alarm_frame_def by blast
  from e obtain c where d1: "d1 = d\<lparr>env := c\<rparr>" unfolding env_frame_def by blast
  show ?thesis by (simp add: update_frame_def p1 d1)
qed

lemma update_frame_copy:
  assumes "(if p_plcDataIsArray p then copy_array p (the (p_arrayDataBuffer p)) bytes else Done p) = Done p'"
    and "\<not> (p_plcDataIsArray p \<and> p_arrayDataBuffer p = None)"
  shows "update_frame i (p, d) (p', d)"
  using assms by (auto simp: update_frame_def split: if_splits dest!: copy_array_frame)

lemma update_frame_switch:
  assumes "update_switch lib i p data d = Done (Some (ret, d'))"
  shows "update_frame i (p, d) (p, d')"
  using update_switch_frame [OF assms] by (simp add: update_frame_def)

lemma update_framed:
  assumes "adsUpdateParameter lib i p data dataSize d = Done (stat, p', d')"
  shows "update_frame i (p, d) (p', d')"
proof (cases data)
  case None
  with assms show ?thesis by (simp add: adsUpdateParameter_def update_frame_def)
next
  case (Some bytes)
  obtain st p1 d1 where r: "refreshParamTime lib p d = (st, p1, d1)" by (cases "refreshParamTime lib p d") auto
  note f1 = update_frame_time [OF r, of i]
  have a1: "d_arrayParams d1 = d_arrayParams d"
    using refreshParamTime_frame [OF r] by (auto dest: env_frameD)
  show ?thesis
  proof (cases "st \<noteq> asynSuccess \<or> p_plcDataIsArray p1 \<and> p_arrayDataBuffer p1 = None")
    case True
    then have "adsUpdateParameter lib i p data dataSize d = Done (asynError, p1, d1)"
      using Some r by (simp add: adsUpdateParameter_def)
    with assms f1 show ?thesis by simp
  next
    case False
    with assms Some r obtain p2 sw where
      c: "(if p_plcDataIsArray p1 then copy_array p1 (the (p_arrayDataBuffer p1)) bytes else Done p1) = Done p2"
      and sw: "update_switch lib i p2 bytes d1 = Done sw"
      and fin: "(case sw of None \<Rightarrow> Done (asynError, p2, d1)
          | Some (ret, d2) \<Rightarrow> if ret \<noteq> asynSuccess then Done (ret, p2, d2)
              else (case setAlarmParam lib p2 (sdk lib ''NO_ALARM'') (sdk lib ''NO_ALARM'') d2 of
                      (ret1, p3, d3) \<Rightarrow> Done (ret1, p3, d3))) = Done (stat, p', d')"
      by (auto simp: adsUpdateParameter_def run_bind_Done_iff)
    have f2: "update_frame i (p, d) (p2, d1)"
      using update_frame_trans [OF f1 disjI1 [OF a1] update_frame_copy [OF c]] False by blast
    show ?thesis
    proof (cases sw)
      case None
      with fin f2 show ?thesis by simp
    next
      case (Some rd)
      obtain ret d2 where rd: "rd = (ret, d2)" by (cases rd)
      with Some sw have sw': "update_switch lib i p2 bytes d1 = Done (Some (ret, d2))" by simp
      have f3: "update_frame i (p, d) (p2, d2)"
        by (rule update_frame_trans [OF f2 disjI1 [OF a1] update_frame_switch [OF sw']])
      show ?thesis
      proof (cases "ret = asynSuccess")
        case False
        with fin Some rd f3 show ?thesis by simp
      next
        case True
        with fin Some rd have al: "setAlarmParam lib p2 (sdk lib ''NO_ALARM'') (sdk lib ''NO_ALARM'') d2 = (stat, p', d')"
          by (auto split: prod.splits)
        from update_frame_alarm [OF al, of i] show ?thesis
          by (blast intro: update_frame_trans [OF f3])
      qed
    qed
  qed
qed

section \<open>Properties\<close>

lemma update_outcome:
  assumes "adsUpdateParameter lib i p data n d = Done (st, p', d')"
  obtains a b c e f x y where "p' = p\<lparr>p_plcTimeStamp := a, p_epicsTimestamp := b,
      p_arrayDataBuffer := c, p_alarmStatus := e, p_alarmSeverity := f\<rparr>"
    and "d' = d\<lparr>env := x, d_arrayParams := y\<rparr>"
  using update_framed [OF assms] unfolding update_frame_def fst_conv snd_conv by blast

text \<open>
  C34: whatever asyn answers, an update changes only the time stamps, the content of the array
  buffer and the alarm fields of the parameter, keeps the length of the buffer, and appends the
  parameter at most once to the queue of array callbacks; the rest of the driver keeps its state.
\<close>
theorem update_changes:
  assumes "adsUpdateParameter lib i p data dataSize d = Done (stat, p', d')"
  shows "update_frame i (p, d) (p', d')"
  by (rule update_framed [OF assms])

lemma update_changes_witness:
  "\<exists>p' d'. adsUpdateParameter zero_lib 3
        (new_param\<lparr>p_asynType := asynParamInt16Array, p_plcDataType := 2, p_plcDataIsArray := True,
                   p_lastCallbackSize := 4, p_arrayDataBuffer := Some [0, 0, 0, 0]\<rparr>)
        (Some [1, 0, 2, 0]) 4 demo_driver = Done (asynSuccess, p', d') \<and>
      p_arrayDataBuffer p' = Some [1, 0, 2, 0] \<and> d_arrayParams d' = [3] \<and>
      update_frame 3 (new_param\<lparr>p_asynType := asynParamInt16Array, p_plcDataType := 2, p_plcDataIsArray := True,
                   p_lastCallbackSize := 4, p_arrayDataBuffer := Some [0, 0, 0, 0]\<rparr>, demo_driver) (p', d')"
proof -
  let ?p = "new_param\<lparr>p_asynType := asynParamInt16Array, p_plcDataType := 2, p_plcDataIsArray := True,
                   p_lastCallbackSize := 4, p_arrayDataBuffer := Some [0, 0, 0, 0]\<rparr>"
  have t: "adst_of 2 = Some ADST_INT16" using adst_of_code [of ADST_INT16] by simp
  have "\<exists>p' d'. adsUpdateParameter zero_lib 3 ?p (Some [1, 0, 2, 0]) 4 demo_driver = Done (asynSuccess, p', d') \<and>
      p_arrayDataBuffer p' = Some [1, 0, 2, 0] \<and> d_arrayParams d' = [3]"
    by (simp add: adsUpdateParameter_def refreshParamTime_def windowsToEpicsTimeStamp_def Let_def
        call_def zero_lib_def copy_array_def mem_read_def mem_write_def update_switch_def new_param_def
        t array_type_of_def setAlarmParam_def demo_driver_def constructed_def)
  with update_changes show ?thesis by blast
qed

text \<open>
  C33: an update of a parameter of an integer type stays inside the data block and the array buffer
  if the block holds one element and the announced number of bytes, and the buffer of an array is not
  smaller than that number.
\<close>
theorem update_in_bounds:
  assumes "adst_of (int (p_plcDataType p)) = Some t" and "t \<notin> {ADST_REAL32, ADST_REAL64}"
    and "adst_width t \<le> length bytes" and "p_lastCallbackSize p \<le> length bytes"
    and "\<forall>buf. p_plcDataIsArray p \<and> p_arrayDataBuffer p = Some buf \<longrightarrow> p_lastCallbackSize p \<le> length buf"
  shows "adsUpdateParameter lib i p (Some bytes) dataSize d \<noteq> Ub"
proof -
  obtain st p1 d1 where r: "refreshParamTime lib p d = (st, p1, d1)" by (cases "refreshParamTime lib p d") auto
  then have tf: "time_frame p p1" by (auto dest: refreshParamTime_frame)
  then obtain a b where p1: "p1 = p\<lparr>p_plcTimeStamp := a, p_epicsTimestamp := b\<rparr>"
    unfolding time_frame_def by blast
  have copy: "(if p_plcDataIsArray p1 then copy_array p1 (the (p_arrayDataBuffer p1)) bytes else Done p1) \<noteq> Ub"
    if "\<not> (p_plcDataIsArray p1 \<and> p_arrayDataBuffer p1 = None)"
    using that assms(4,5) by (auto simp: p1 copy_array_def mem_read_def mem_write_def)
  have sw: "update_switch lib i p2 bytes d1 \<noteq> Ub"
    if "p_plcDataType p2 = p_plcDataType p" for p2
  proof -
    have v: "0 < adst_width t \<Longrightarrow> to_int_param t bs = Some (wrap_signed 4 (the (plc_int t bs)))" for bs
      using assms(2) by (cases t) (simp_all add: to_int_param_def plc_int_def)
    have "t \<in> {ADST_INT64, ADST_UINT64} \<Longrightarrow> adst_width t = 8" by auto
    then show ?thesis
      using assms(1,3) that by (auto simp: update_switch_def mem_read_def v)
  qed
  have tyof: "p_plcDataType p2 = p_plcDataType p"
    if "(if p_plcDataIsArray p1 then copy_array p1 (the (p_arrayDataBuffer p1)) bytes else Done p1) = Done p2" for p2
    using that by (auto simp: p1 dest!: copy_array_frame split: if_splits)
  show ?thesis
    using copy sw tyof r
    by (auto simp: adsUpdateParameter_def run_bind_Ub_iff split: option.splits prod.splits)
qed

lemma update_in_bounds_witness:
  "adsUpdateParameter zero_lib 3 (new_param\<lparr>p_plcDataType := 2, p_lastCallbackSize := 2\<rparr>) (Some [1, 0]) 2
     demo_driver \<noteq> Ub"
proof (rule update_in_bounds)
  show "adst_of (int (p_plcDataType (new_param\<lparr>p_plcDataType := 2, p_lastCallbackSize := 2\<rparr>))) = Some ADST_INT16"
    using adst_of_code [of ADST_INT16] by simp
qed (simp_all add: new_param_def)

text \<open>
  An array callback over a buffer that the last notification filled reads beyond the buffer
  exactly for the 16-bit, 32-bit and floating point arrays, because the number of bytes is passed as the
  number of elements.
\<close>
theorem array_callback_overreads:
  assumes "adst_of (int (p_plcDataType p)) = Some t" and "array_type_of t = Some (p_asynType p)"
    and "p_plcDataIsArray p" and "p_arrayDataBuffer p = Some buf"
    and "p_lastCallbackSize p = length buf" and "buf \<noteq> []"
  shows "fireCallbacksForArrayParam lib p d = Ub \<longleftrightarrow>
           t \<in> {ADST_INT16, ADST_INT32, ADST_REAL32, ADST_REAL64}"
proof -
  have n: "fireCallbacksForArrayParam lib p d = Ub \<longleftrightarrow>
      length buf < callback_elements t (length buf) * array_elem_size (p_asynType p)"
    using assms by (auto simp: fireCallbacksForArrayParam_def Let_def run_bind_Ub_iff mem_read_def)
  show ?thesis
    unfolding n using assms(2,6)
    by (cases t) (auto simp: array_type_of_def callback_elements_def array_elem_size_def not_less)
qed

lemma array_callback_overreads_witness:
  "fireCallbacksForArrayParam zero_lib
     (new_param\<lparr>p_plcDataType := 2, p_asynType := asynParamInt16Array, p_plcDataIsArray := True,
                p_arrayDataBuffer := Some [1, 0, 2, 0], p_lastCallbackSize := 4\<rparr>) demo_driver = Ub"
proof (rule array_callback_overreads [of _ ADST_INT16 "[1, 0, 2, 0]", THEN iffD2])
  show "adst_of (int (p_plcDataType (new_param\<lparr>p_plcDataType := 2, p_asynType := asynParamInt16Array,
     p_plcDataIsArray := True, p_arrayDataBuffer := Some [1, 0, 2, 0], p_lastCallbackSize := 4\<rparr>))) = Some ADST_INT16"
    using adst_of_code [of ADST_INT16] by simp
qed (simp_all add: array_type_of_def)

end
