(* ===== verification/Ads_EtherCat.thy ===== *)
theory Ads_EtherCat
  imports Ads_Driver
begin

text \<open>
  AMS Net IDs and the EtherCAT master: \<^verbatim>\<open>adsAmsNetId.h\<close>,
  \<^verbatim>\<open>adsEthercatState.h\<close> and the functions of the driver that find the address of the
  master once (\<^verbatim>\<open>resolveEthercatMasterAmsNetId\<close>) and direct requests for EtherCAT
  states to it.  The discovery is a one-way state machine: unresolved, then available or absent for
  good.
\<close>

section \<open>Parsing an AMS Net ID\<close>

text \<open>
  The conversions of \<^verbatim>\<open>sscanf\<close> with \<^verbatim>\<open>%u.%u. ... %u\<close> and \<open>k\<close>
  numbers: the values that were stored and, when all were, the rest of the text.
\<close>

fun scan_dotted :: "nat \<Rightarrow> string \<Rightarrow> nat list \<times> string option" where
  "scan_dotted 0 s = ([], Some s)"
| "scan_dotted (Suc k) s =
     (case scan_dec s of
        Scan_Ok n r \<Rightarrow>
          let v = nat (strtoul64 n mod 2 ^ 32)
          in if k = 0 then ([v], Some r)
             else (case r of
                     c # r' \<Rightarrow> if c = CHR ''.'' then (case scan_dotted k r' of (vs, t) \<Rightarrow> (v # vs, t))
                               else ([v], None)
                   | [] \<Rightarrow> ([v], None))
      | _ \<Rightarrow> ([], None))"

text \<open>\<^verbatim>\<open>parsed\<close> is 6 when all six numbers were stored and no character follows them.\<close>

definition parseAmsNetId :: "string option \<Rightarrow> AmsNetId option \<Rightarrow> bool \<times> AmsNetId option" where
  "parseAmsNetId text net =
     (case (text, net) of
        (Some s, Some _) \<Rightarrow>
          if s = [] then (False, net)
          else (case scan_dotted 6 s of
                  (bytes, rest) \<Rightarrow>
                    if rest \<noteq> Some [] \<or> \<not> list_all (\<lambda>v. v \<le> 255) bytes then (False, net)
                    else (True, Some (map word_of_nat bytes)))
      | _ \<Rightarrow> (False, net))"

section \<open>EtherCAT state requests\<close>

definition ADSIGRP_ECAT_SLAVE_STATE :: nat where "ADSIGRP_ECAT_SLAVE_STATE = 9"
definition ADS_ECAT_STATE_SIZE_BYTES :: nat where "ADS_ECAT_STATE_SIZE_BYTES = 2"
definition ADS_ECAT_R0_IO_AMS_PORT :: nat where "ADS_ECAT_R0_IO_AMS_PORT = 300"
definition ADS_ECAT_IO_DEVICE_STATE_INDEX_GROUP_BASE :: nat where
  "ADS_ECAT_IO_DEVICE_STATE_INDEX_GROUP_BASE = 0x5000"
definition ADS_ECAT_IO_READ_DEVICE_IDS_OFFSET :: nat where "ADS_ECAT_IO_READ_DEVICE_IDS_OFFSET = 1"
definition ADS_ECAT_IO_READ_DEVICE_COUNT_OFFSET :: nat where
  "ADS_ECAT_IO_READ_DEVICE_COUNT_OFFSET = 2"
definition ADS_ECAT_IO_READ_DEVICE_NET_ID_OFFSET :: nat where
  "ADS_ECAT_IO_READ_DEVICE_NET_ID_OFFSET = 5"

datatype AdsEthercatDeviceState = Init | PreOp | Bootstrap | SafeOp | Op

fun ecat_code :: "AdsEthercatDeviceState \<Rightarrow> int" where
  "ecat_code Init = 1" | "ecat_code PreOp = 2" | "ecat_code Bootstrap = 3"
| "ecat_code SafeOp = 4" | "ecat_code Op = 8"

definition adsIsValidEthercatStateRequest :: "nat \<Rightarrow> nat \<Rightarrow> nat \<Rightarrow> int \<Rightarrow> bool" where
  "adsIsValidEthercatStateRequest grp sz dataType value =
     (if grp \<noteq> ADSIGRP_ECAT_SLAVE_STATE then True
      else if sz \<noteq> ADS_ECAT_STATE_SIZE_BYTES \<or> dataType \<noteq> nat (adst_code ADST_UINT16) then False
      else value \<in> {ecat_code Init, ecat_code PreOp, ecat_code Bootstrap, ecat_code SafeOp, ecat_code Op})"

section \<open>Finding the EtherCAT master\<close>

text \<open>A destination of a read: the bytes that the library stored over its old content.\<close>

definition received :: "'a list \<Rightarrow> 'a list \<Rightarrow> 'a list" where
  "received old bs = take (length old) bs @ drop (length bs) old"

lemma received_length [simp]: "length (received old bs) = length old"
  by (auto simp: received_def)

definition useDerivedMasterId :: "'e driver \<Rightarrow> bool \<times> 'e driver" where
  "useDerivedMasterId d =
     (True, d\<lparr>d_ethercatMasterNetId := (d_remoteNetId d)[4 := 2, 5 := 1],
              d_ethercatMasterAvailable := True,
              d_ethercatMasterAmsNetIdSource := ''derived'',
              d_ethercatMasterNetIdResolved := True\<rparr>)"

definition ecat_absent :: "'e driver \<Rightarrow> bool \<times> 'e driver" where
  "ecat_absent d =
     (False, d\<lparr>d_ethercatMasterNetId := [0, 0, 0, 0, 0, 0],
               d_ethercatMasterAvailable := False,
               d_ethercatMasterAmsNetIdSource := ''none'',
               d_ethercatMasterNetIdResolved := True\<rparr>)"

definition ecat_discovered :: "u8 list \<Rightarrow> 'e driver \<Rightarrow> bool \<times> 'e driver" where
  "ecat_discovered rawNetId d =
     (let missingIpPrefix = list_all (\<lambda>b. b = 0) (take 4 rawNetId);
          raw = (if missingIpPrefix then take 4 (d_remoteNetId d) @ drop 4 rawNetId else rawNetId)
      in (True, d\<lparr>d_ethercatMasterNetId := raw,
                  d_ethercatMasterAvailable := True,
                  d_ethercatMasterAmsNetIdSource := ''discovered'',
                  d_ethercatMasterNetIdResolved := True\<rparr>))"

definition resolveEthercatMasterAmsNetId ::
  "('e, 'z) ads_lib_scheme \<Rightarrow> nat \<Rightarrow> 'e driver \<Rightarrow> bool \<times> 'e driver" where
  "resolveEthercatMasterAmsNetId lib amsClientPort d =
     (if d_ethercatMasterNetIdResolved d then (d_ethercatMasterAvailable d, d)
      else
        let ioRouter = \<lparr>netId = d_remoteNetId d, addr_port = ADS_ECAT_R0_IO_AMS_PORT\<rparr>;
            read = (\<lambda>group offset n. AdsSyncReadReqEx2 lib amsClientPort ioRouter group offset n)
        in case call (read ADS_ECAT_IO_DEVICE_STATE_INDEX_GROUP_BASE
                        ADS_ECAT_IO_READ_DEVICE_COUNT_OFFSET 4) d of
             ((status, bs, bytesRead), d1) \<Rightarrow>
               if status \<noteq> 0 \<or> bytesRead \<noteq> 4 then useDerivedMasterId d1
               else
                 let deviceCount = le_nat (received (replicate 4 0) bs)
                 in if deviceCount = 0 then ecat_absent d1
                    else if deviceCount \<noteq> 1 then useDerivedMasterId d1
                    else
                      case call (read ADS_ECAT_IO_DEVICE_STATE_INDEX_GROUP_BASE
                                   ADS_ECAT_IO_READ_DEVICE_IDS_OFFSET 4) d1 of
                        ((status2, bs2, bytesRead2), d2) \<Rightarrow>
                          if status2 \<noteq> 0 \<or> bytesRead2 \<noteq> 4 then useDerivedMasterId d2
                          else
                            let deviceId = le_nat (drop 2 (received (replicate 4 0) bs2));
                                deviceIndexGroup = ADS_ECAT_IO_DEVICE_STATE_INDEX_GROUP_BASE + deviceId
                            in case call (read deviceIndexGroup
                                            ADS_ECAT_IO_READ_DEVICE_NET_ID_OFFSET 6) d2 of
                                 ((status3, bs3, bytesRead3), d3) \<Rightarrow>
                                   if status3 \<noteq> 0 \<or> bytesRead3 \<noteq> 6 then useDerivedMasterId d3
                                   else ecat_discovered (received (replicate 6 0) bs3) d3)"

definition ethercatMasterIsResolved :: "'e driver \<Rightarrow> bool" where
  "ethercatMasterIsResolved d = d_ethercatMasterNetIdResolved d"

definition ethercatMasterIsAvailable :: "'e driver \<Rightarrow> bool" where
  "ethercatMasterIsAvailable d \<longleftrightarrow> d_ethercatMasterNetIdResolved d \<and> d_ethercatMasterAvailable d"

definition isEthercatStateParam :: "adsParamInfo \<Rightarrow> bool" where
  "isEthercatStateParam p \<longleftrightarrow> p_isAdrCommand p \<and> p_plcAbsAdrGroup p = ADSIGRP_ECAT_SLAVE_STATE"

definition checkEthercatMasterForParam ::
  "('e, 'z) ads_lib_scheme \<Rightarrow> nat \<Rightarrow> adsParamInfo \<Rightarrow> 'e driver \<Rightarrow> bool \<times> 'e driver" where
  "checkEthercatMasterForParam lib amsClientPort p d =
     (if \<not> isEthercatStateParam p then (True, d)
      else
        let d1 = (if ethercatMasterIsResolved d then d
                  else snd (resolveEthercatMasterAmsNetId lib amsClientPort d))
        in (ethercatMasterIsAvailable d1, d1))"

definition adsTargetNetIdForParam :: "'e driver \<Rightarrow> adsParamInfo \<Rightarrow> AmsNetId" where
  "adsTargetNetIdForParam d p =
     (if p_isAdrCommand p \<and> p_plcAbsAdrGroup p = ADSIGRP_ECAT_SLAVE_STATE
      then d_ethercatMasterNetId d else d_remoteNetId d)"

section \<open>Lemmas\<close>

text \<open>What the discovery may change.\<close>

definition ecat_frame :: "'e driver \<Rightarrow> 'e driver \<Rightarrow> bool" where
  "ecat_frame d d' \<longleftrightarrow>
     d' = d\<lparr>env := env d', d_ethercatMasterNetId := d_ethercatMasterNetId d',
            d_ethercatMasterAvailable := d_ethercatMasterAvailable d',
            d_ethercatMasterAmsNetIdSource := d_ethercatMasterAmsNetIdSource d',
            d_ethercatMasterNetIdResolved := d_ethercatMasterNetIdResolved d'\<rparr>"

lemma ecat_frame_refl: "ecat_frame d d"
  by (simp add: ecat_frame_def)

lemma ecat_frameE:
  assumes "ecat_frame d d'"
  obtains e a b c f where "d' = d\<lparr>env := e, d_ethercatMasterNetId := a, d_ethercatMasterAvailable := b,
    d_ethercatMasterAmsNetIdSource := c, d_ethercatMasterNetIdResolved := f\<rparr>"
  using assms unfolding ecat_frame_def by blast

text \<open>The outcome of the discovery: resolved, with a well-formed address, and the answer stored.\<close>

definition ecat_settled :: "'e driver \<Rightarrow> bool \<times> 'e driver \<Rightarrow> bool" where
  "ecat_settled d r \<longleftrightarrow>
     ecat_frame d (snd r) \<and> d_ethercatMasterNetIdResolved (snd r) \<and>
     d_ethercatMasterAvailable (snd r) = fst r \<and>
     (length (d_remoteNetId d) = 6 \<longrightarrow> length (d_ethercatMasterNetId (snd r)) = 6)"

lemma ecat_outcomes:
  assumes "d1 = d\<lparr>env := e\<rparr>"
  shows "ecat_settled d (useDerivedMasterId d1)" and "ecat_settled d (ecat_absent d1)"
    and "length raw = 6 \<Longrightarrow> ecat_settled d (ecat_discovered raw d1)"
  using assms by (auto simp: ecat_settled_def ecat_frame_def useDerivedMasterId_def ecat_absent_def
      ecat_discovered_def Let_def)

lemma resolve_settled:
  assumes "\<not> d_ethercatMasterNetIdResolved d"
  shows "ecat_settled d (resolveEthercatMasterAmsNetId lib amsClientPort d)"
  using assms
  by (simp add: resolveEthercatMasterAmsNetId_def Let_def call_def split: prod.splits)
     (auto intro!: ecat_outcomes)

lemma check_frame:
  "checkEthercatMasterForParam lib amsClientPort p d = (ok, d') \<Longrightarrow> ecat_frame d d'"
  using resolve_settled [of d lib amsClientPort]
  by (auto simp: checkEthercatMasterForParam_def ethercatMasterIsResolved_def ecat_settled_def Let_def
      ecat_frame_refl split: if_splits)

text \<open>Numbers that a dotted text can hold.\<close>

definition dotted :: "nat list \<Rightarrow> string" where
  "dotted vs = (case vs of [] \<Rightarrow> [] | v # vs' \<Rightarrow> show_nat v @ concat (map (\<lambda>w. CHR ''.'' # show_nat w) vs'))"

lemma dotted_Cons:
  "dotted (v # vs) = show_nat v @ (if vs = [] then [] else CHR ''.'' # dotted vs)"
  by (cases vs) (simp_all add: dotted_def)

lemma scan_show_nat:
  assumes "rest = [] \<or> \<not> is_digit (hd rest)"
  shows "scan_dec (show_nat v @ rest) = Scan_Ok (False, v) rest"
  using scan_dec_show_int [OF assms, of "int v"] by (simp add: show_int_def)

lemma scan_dotted_show:
  "vs \<noteq> [] \<Longrightarrow> \<forall>v \<in> set vs. v < 2 ^ 64 \<Longrightarrow>
     scan_dotted (length vs) (dotted vs) = (map (\<lambda>v. v mod 2 ^ 32) vs, Some [])"
proof (induction vs)
  case Nil
  then show ?case by simp
next
  case (Cons v vs)
  let ?rest = "if vs = [] then [] else CHR ''.'' # dotted vs"
  have "?rest = [] \<or> \<not> is_digit (hd ?rest)" by (simp add: is_digit_def)
  then have sc: "scan_dec (dotted (v # vs)) = Scan_Ok (False, v) ?rest"
    by (simp only: dotted_Cons scan_show_nat)
  have v: "\<not> v \<ge> 2 ^ 64" using Cons.prems(2) by (simp add: not_le)
  have n: "nat (strtoul64 (False, v) mod 2 ^ 32) = v mod 2 ^ 32"
    using v by (simp add: strtoul64_def nat_mod_distrib)
  show ?case
  proof (cases "vs = []")
    case True
    with sc n show ?thesis by simp
  next
    case False
    with Cons sc n show ?thesis by simp
  qed
qed

section \<open>Properties\<close>

text \<open>
  C32: a text of six numbers below \<open>2^64\<close> with points between them is accepted exactly when
  every number is at most 255 modulo \<open>2^32\<close>, and then gives these bytes; otherwise the address
  keeps its value.  In particular the text of every AMS Net ID gives it back, and numbers beyond 255 are
  refused unless they wrap to a byte.
\<close>
theorem net_id_parse:
  assumes "length vs = 6" and "\<forall>v \<in> set vs. v < 2 ^ 64"
  shows "parseAmsNetId (Some (dotted vs)) (Some old) =
    (if list_all (\<lambda>v. v mod 2 ^ 32 \<le> 255) vs
     then (True, Some (map (\<lambda>v. word_of_nat (v mod 2 ^ 32)) vs)) else (False, Some old))"
proof -
  have ne: "vs \<noteq> []" using assms(1) by auto
  then have "dotted vs \<noteq> []" by (cases vs) (simp_all add: dotted_Cons)
  moreover have "scan_dotted 6 (dotted vs) = (map (\<lambda>v. v mod 2 ^ 32) vs, Some [])"
    using scan_dotted_show [OF ne assms(2)] by (simp only: assms(1))
  ultimately show ?thesis
    unfolding parseAmsNetId_def
    by (simp only: prod.case option.case if_False simp_thms list.pred_map comp_def map_map if_not_P)
       simp
qed

lemma net_id_parse_witness:
  "parseAmsNetId (Some (dotted [192, 168, 1, 20, 2, 4294967297])) (Some []) =
     (True, Some (map (\<lambda>v. word_of_nat (v mod 2 ^ 32)) [192, 168, 1, 20, 2, 4294967297]))"
  using net_id_parse [of "[192, 168, 1, 20, 2, 4294967297]" "[]"] by simp

text \<open>
  C31: the discovery runs at most once: after it the driver is resolved, the answer is stored, the
  address has six bytes, nothing but the address record and the environment changed, and every later
  call returns the stored answer without talking to the controller.
\<close>
theorem ecat_resolve_once:
  assumes "\<not> d_ethercatMasterNetIdResolved d"
  shows "ecat_settled d (resolveEthercatMasterAmsNetId lib port d) \<and>
    resolveEthercatMasterAmsNetId lib2 port2 (snd (resolveEthercatMasterAmsNetId lib port d)) =
      resolveEthercatMasterAmsNetId lib port d"
  using resolve_settled [OF assms, of lib port]
  by (cases "resolveEthercatMasterAmsNetId lib port d")
     (auto simp: ecat_settled_def resolveEthercatMasterAmsNetId_def)

lemma ecat_resolve_once_witness:
  "ecat_settled demo_driver (resolveEthercatMasterAmsNetId zero_lib 30000 demo_driver)"
proof (rule ecat_resolve_once [THEN conjunct1])
  show "\<not> d_ethercatMasterNetIdResolved demo_driver" by (simp add: demo_driver_def constructed_def)
qed

text \<open>
  A state request to an EtherCAT slave is accepted only with a two-byte unsigned value that is
  the code of one of the five states; requests of every other group are accepted.
\<close>
theorem ecat_request_valid:
  "adsIsValidEthercatStateRequest grp sz ty v \<longleftrightarrow>
     (grp = ADSIGRP_ECAT_SLAVE_STATE \<longrightarrow>
        int ty = adst_code ADST_UINT16 \<and> sz = 2 \<and> v \<in> range ecat_code)"
proof -
  have "range ecat_code = {1, 2, 3, 4, 8}"
  proof (intro equalityI subsetI)
    fix v :: int
    assume "v \<in> {1, 2, 3, 4, 8}"
    then have "v \<in> {ecat_code Init, ecat_code PreOp, ecat_code Bootstrap, ecat_code SafeOp, ecat_code Op}"
      by simp
    then show "v \<in> range ecat_code" by blast
  next
    fix v :: int
    assume "v \<in> range ecat_code"
    then obtain x where "v = ecat_code x" by blast
    then show "v \<in> {1, 2, 3, 4, 8}" by (cases x) simp_all
  qed
  then show ?thesis
    by (auto simp: adsIsValidEthercatStateRequest_def ADS_ECAT_STATE_SIZE_BYTES_def)
qed

lemma ecat_request_valid_witness:
  "adsIsValidEthercatStateRequest ADSIGRP_ECAT_SLAVE_STATE 2 18 (ecat_code Op) \<and>
   \<not> adsIsValidEthercatStateRequest ADSIGRP_ECAT_SLAVE_STATE 4 18 (ecat_code Op)"
  using ecat_request_valid [of ADSIGRP_ECAT_SLAVE_STATE 2 18 "ecat_code Op"]
    ecat_request_valid [of ADSIGRP_ECAT_SLAVE_STATE 4 18 "ecat_code Op"] rangeI [of ecat_code Op] by simp

end
