(* ===== verification/Ads_SymbolIo.thy ===== *)
theory Ads_SymbolIo
  imports Ads_Update Ads_EtherCat
begin

text \<open>
  The requests that the driver sends to a controller: symbol information, symbolic handles,
  notifications, reads and writes of a parameter, states, versions and routes.  All of them are calls of
  AdsLib with the address that the parameter or port gives; the functions here decide which address,
  check the answers and keep the handles of the parameter.
\<close>

definition text_bytes :: "string \<Rightarrow> u8 list" where
  "text_bytes s = map (\<lambda>c. word_of_nat (of_char c)) s"

definition server :: "'e driver \<Rightarrow> nat \<Rightarrow> AmsAddr" where
  "server d port = \<lparr>netId = d_remoteNetId d, addr_port = port\<rparr>"

section \<open>Symbol information and handles\<close>

definition adsGetSymHandleByName ::
  "('e, 'z) ads_lib_scheme \<Rightarrow> nat \<Rightarrow> adsParamInfo \<Rightarrow> 'e driver \<Rightarrow> asynStatus \<times> adsParamInfo \<times> 'e driver" where
  "adsGetSymHandleByName lib amsClientPort p d =
     (case call (AdsSyncReadWriteReqEx2 lib amsClientPort (server d (p_amsPort p))
                   (sdk_u lib ''ADSIGRP_SYM_HNDBYNAME'') 0 4 (text_bytes (p_plcAdrStr p))) d of
        ((handleStatus, bs, _), d1) \<Rightarrow>
          if handleStatus \<noteq> 0 then (asynError, p, d1)
          else (asynSuccess,
                p\<lparr>p_hSymbolicHandle := le_nat (received (replicate 4 0) bs), p_bSymbolicHandleValid := True\<rparr>,
                d1))"

text \<open>
  The raw answer of a symbol request has the six 32-bit members, the three 16-bit lengths and the
  768 bytes of text of \<^verbatim>\<open>adsSymbolEntry\<close>, in front of its three pointers.  A text that is not
  terminated inside these bytes ends with them here; the code would read on.
\<close>

definition symbol_entry_of :: "u8 list \<Rightarrow> adsSymbolEntry" where
  "symbol_entry_of m =
     (let u32at = (\<lambda>i. le_nat (take 4 (drop i m))); u16at = (\<lambda>i. le_nat (take 2 (drop i m)))
      in \<lparr>se_entryLen = u32at 0, se_iGroup = u32at 4, se_iOffset = u32at 8, se_size = u32at 12,
          se_dataType = u32at 16, se_flags = u32at 20, se_nameLength = u16at 24,
          se_typeLength = u16at 26, se_commentLength = u16at 28, se_buffer = take 768 (drop 30 m),
          se_variableName = None, se_symDataType = None, se_symComment = None\<rparr>)"

definition sizeof_adsSymbolEntry :: nat where "sizeof_adsSymbolEntry = 824"

text \<open>
  The result carries the ADS error code and the entry.  The check of the comment's position only
  reports; the pointer to the comment is set in any case.
\<close>

definition adsGetSymInfoByName_entry ::
  "('e, 'z) ads_lib_scheme \<Rightarrow> nat \<Rightarrow> nat \<Rightarrow> string \<Rightarrow> 'e driver \<Rightarrow>
     (asynStatus \<times> int \<times> adsSymbolEntry) \<times> 'e driver" where
  "adsGetSymInfoByName_entry lib amsClientPort amsPort varName d =
     (case call (AdsSyncReadWriteReqEx2 lib amsClientPort (server d amsPort)
                   (sdk_u lib ''ADSIGRP_SYM_INFOBYNAMEEX'') 0 sizeof_adsSymbolEntry
                   (text_bytes varName)) d of
        ((infoStatus, bs, _), d1) \<Rightarrow>
          let info = symbol_entry_of (received (replicate sizeof_adsSymbolEntry 0) bs);
              info1 = info\<lparr>se_variableName := Some (bytes_text (se_buffer info))\<rparr>
          in if infoStatus \<noteq> 0 then ((asynError, infoStatus, info), d1)
             else if se_nameLength info \<ge> 768 - 1 then ((asynError, infoStatus, info1), d1)
             else
               let info2 = info1\<lparr>se_symDataType :=
                     Some (bytes_text (drop (se_nameLength info + 1) (se_buffer info)))\<rparr>;
                   info3 = info2\<lparr>se_symComment :=
                     Some (bytes_text (drop (se_nameLength info + 1 + se_typeLength info + 1)
                             (se_buffer info)))\<rparr>
               in ((asynSuccess, infoStatus, info3), d1))"

definition adsGetSymInfoByName ::
  "('e, 'z) ads_lib_scheme \<Rightarrow> nat \<Rightarrow> adsParamInfo \<Rightarrow> 'e driver \<Rightarrow> asynStatus \<times> adsParamInfo \<times> 'e driver" where
  "adsGetSymInfoByName lib amsClientPort p d =
     (case adsGetSymInfoByName_entry lib amsClientPort (p_amsPort p) (p_plcAdrStr p) d of
        ((stat, _, info), d1) \<Rightarrow>
          if stat \<noteq> asynSuccess then (asynError, p, d1)
          else (asynSuccess,
                p\<lparr>p_plcAbsAdrGroup := se_iGroup info, p_plcAbsAdrOffset := se_iOffset info,
                  p_plcSize := se_size info, p_plcDataType := se_dataType info,
                  p_plcAbsAdrValid := True\<rparr>, d1))"

definition adsReleaseSymbolicHandle ::
  "('e, 'z) ads_lib_scheme \<Rightarrow> nat \<Rightarrow> adsParamInfo \<Rightarrow> bool \<Rightarrow> 'e driver \<Rightarrow> asynStatus \<times> adsParamInfo \<times> 'e driver" where
  "adsReleaseSymbolicHandle lib amsClientPort p blockErrorMsg d =
     (let p1 = p\<lparr>p_bSymbolicHandleValid := False\<rparr>
      in case call (AdsSyncWriteReqEx lib amsClientPort (server d (p_amsPort p1))
                      (sdk_u lib ''ADSIGRP_SYM_RELEASEHND'') 0 (le_bytes 4 (p_hSymbolicHandle p1))) d of
           (releaseStatus, d1) \<Rightarrow>
             (if releaseStatus \<noteq> 0 \<and> \<not> blockErrorMsg then asynError else asynSuccess,
              p1\<lparr>p_hSymbolicHandle := no_handle\<rparr>, d1))"

section \<open>The address of a request\<close>

text \<open>
  The part that the functions for reading, writing and subscribing share: the absolute address of an
  \<^verbatim>\<open>.ADR.\<close> command, or the handle of a symbol, which is asked for when it is missing.
\<close>

definition param_address ::
  "('e, 'z) ads_lib_scheme \<Rightarrow> nat \<Rightarrow> adsParamInfo \<Rightarrow> 'e driver \<Rightarrow> (nat \<times> nat) option \<times> adsParamInfo \<times> 'e driver" where
  "param_address lib amsClientPort p d =
     (if p_isAdrCommand p
      then (if p_plcAbsAdrValid p then (Some (p_plcAbsAdrGroup p, p_plcAbsAdrOffset p), p, d)
            else (None, p, d))
      else
        case (if p_plcAbsAdrValid p then (asynSuccess, p, d)
              else adsGetSymInfoByName lib amsClientPort p d) of
          (statusInfo, p1, d1) \<Rightarrow>
            if statusInfo \<noteq> asynSuccess then (None, p1, d1)
            else
              case (if p_bSymbolicHandleValid p1 then (asynSuccess, p1, d1)
                    else adsGetSymHandleByName lib amsClientPort p1 d1) of
                (statusHandle, p2, d2) \<Rightarrow>
                  if statusHandle \<noteq> asynSuccess then (None, p2, d2)
                  else (Some (sdk_u lib ''ADSIGRP_SYM_VALBYHND'', p_hSymbolicHandle p2), p2, d2))"

section \<open>Notifications\<close>

definition adsAddSymbolsChangedCallback ::
  "('e, 'z) ads_lib_scheme \<Rightarrow> nat \<Rightarrow> amsPortInfo \<Rightarrow> 'e driver \<Rightarrow> asynStatus \<times> amsPortInfo \<times> 'e driver" where
  "adsAddSymbolsChangedCallback lib amsClientPort port d =
     (let attrib = \<lparr>cbLength = 1, nMaxDelay = nat (d_defaultMaxDelayTimeMS d * 10000 mod 2 ^ 32),
                    nCycleTime = nat (d_defaultSampleTimeMS d * 10000 mod 2 ^ 32)\<rparr>
      in case call (AdsSyncAddDeviceNotificationReqEx lib (int amsClientPort) (server d (port_amsPort port))
                      (sdk_u lib ''ADSIGRP_SYM_VERSION'') 0 attrib adsSymbolsChangedCallback_fn
                      (port_amsPort port)) d of
           ((addStatus, hNotify), d1) \<Rightarrow>
             if addStatus \<noteq> 0 then (asynError, port, d1)
             else (asynSuccess,
                   port\<lparr>port_hCallbackNotify := hNotify, port_bCallbackNotifyValid := True,
                        port_refreshNeeded := False\<rparr>, d1))"

definition adsDelSymbolsChangedCallback ::
  "('e, 'z) ads_lib_scheme \<Rightarrow> nat \<Rightarrow> amsPortInfo \<Rightarrow> 'e driver \<Rightarrow> asynStatus \<times> amsPortInfo \<times> 'e driver" where
  "adsDelSymbolsChangedCallback lib amsClientPort port d =
     (case call (AdsSyncDelDeviceNotificationReqEx lib amsClientPort (server d (port_amsPort port))
                   (port_hCallbackNotify port)) d of
        (delStatus, d1) \<Rightarrow>
          (if delStatus \<noteq> 0 then asynError else asynSuccess,
           port\<lparr>port_bCallbackNotifyValid := False, port_hCallbackNotify := no_handle\<rparr>, d1))"

definition adsAddDataCallback ::
  "('e, 'z) ads_lib_scheme \<Rightarrow> nat \<Rightarrow> adsParamInfo \<Rightarrow> 'e driver \<Rightarrow> asynStatus \<times> adsParamInfo \<times> 'e driver" where
  "adsAddDataCallback lib amsClientPort p d =
     (case param_address lib amsClientPort (p\<lparr>p_bCallbackNotifyValid := False\<rparr>) d of
        (None, p1, d1) \<Rightarrow> (asynError, p1, d1)
      | (Some (grp, offset), p1, d1) \<Rightarrow>
          let attrib = \<lparr>cbLength = p_plcSize p1,
                        nMaxDelay = f64_to_u32 (f64_mul (p_maxDelayTimeMS p1) (int_to_f64 10000)),
                        nCycleTime = f64_to_u32 (f64_mul (p_sampleTimeMS p1) (int_to_f64 10000))\<rparr>
          in case call (AdsSyncAddDeviceNotificationReqEx lib (d_adsPort d1) (server d1 (p_amsPort p1))
                          grp offset attrib adsDataCallback_fn (nat (p_paramIndex p1 mod 2 ^ 32))) d1 of
               ((addStatus, hNotify), d2) \<Rightarrow>
                 if addStatus \<noteq> 0 then (asynError, p1, d2)
                 else (asynSuccess,
                       p1\<lparr>p_hCallbackNotify := hNotify, p_bCallbackNotifyValid := True\<rparr>, d2))"

definition adsDelDataCallback ::
  "('e, 'z) ads_lib_scheme \<Rightarrow> nat \<Rightarrow> adsParamInfo \<Rightarrow> 'e driver \<Rightarrow> asynStatus \<times> adsParamInfo \<times> 'e driver" where
  "adsDelDataCallback lib amsClientPort p d =
     (case call (AdsSyncDelDeviceNotificationReqEx lib amsClientPort (server d (p_amsPort p))
                   (p_hCallbackNotify p)) d of
        (delStatus, d1) \<Rightarrow>
          (if delStatus \<noteq> 0 then asynError else asynSuccess,
           p\<lparr>p_bCallbackNotifyValid := False, p_hCallbackNotify := no_handle\<rparr>, d1))"

section \<open>Reading and writing a parameter\<close>

text \<open>
  The number of bytes that the request carries is the size of the PLC variable; the argument
  \<open>bytesToWrite\<close> is not used by the code.
\<close>

definition adsWriteParam ::
  "('e, 'z) ads_lib_scheme \<Rightarrow> nat \<Rightarrow> adsParamInfo \<Rightarrow> u8 list \<Rightarrow> nat \<Rightarrow> 'e driver \<Rightarrow>
     (asynStatus \<times> adsParamInfo \<times> 'e driver) run" where
  "adsWriteParam lib amsClientPort p binaryBuffer bytesToWrite d =
     (if d_stopThreads d then Done (asynError, p, d)
      else case checkEthercatMasterForParam lib amsClientPort p d of
        (available, d1) \<Rightarrow>
          if \<not> available then Done (asynError, p, d1)
          else
            let amsServer = \<lparr>netId = adsTargetNetIdForParam d1 p, addr_port = p_amsPort p\<rparr>
            in case param_address lib amsClientPort p d1 of
                 (None, p1, d2) \<Rightarrow> Done (asynError, p1, d2)
               | (Some (grp, offset), p1, d2) \<Rightarrow>
                   run_bind (mem_read binaryBuffer 0 (p_plcSize p1)) (\<lambda>bs.
                     case call (AdsSyncWriteReqEx lib amsClientPort amsServer grp offset bs) d2 of
                       (writeStatus, d3) \<Rightarrow>
                         if writeStatus \<noteq> 0 then Done (asynError, p1, d3)
                         else Done (asynSuccess, p1, d3)))"

text \<open>
  The result carries the ADS error code.  The read buffer is taken as zero before the request; its
  content is used only when the library reports that it stored all of it.
\<close>

definition adsReadParam ::
  "('e, 'z) ads_lib_scheme \<Rightarrow> nat \<Rightarrow> nat \<Rightarrow> adsParamInfo \<Rightarrow> bool \<Rightarrow> 'e driver \<Rightarrow>
     (asynStatus \<times> int \<times> adsParamInfo \<times> 'e driver) run" where
  "adsReadParam lib amsClientPort i p updateAsynPar d =
     (if d_stopThreads d then Done (asynError, 0, p, d)
      else case checkEthercatMasterForParam lib amsClientPort p d of
        (available, d1) \<Rightarrow>
          if \<not> available then Done (asynError, 0, p, d1)
          else
            let amsServer = \<lparr>netId = adsTargetNetIdForParam d1 p, addr_port = p_amsPort p\<rparr>
            in case param_address lib amsClientPort p d1 of
                 (None, p1, d2) \<Rightarrow> Done (asynError, 0, p1, d2)
               | (Some (grp, offset), p1, d2) \<Rightarrow>
                   (case call (AdsSyncReadReqEx2 lib amsClientPort amsServer grp offset (p_plcSize p1)) d2 of
                      ((error, bs, bytesRead), d3) \<Rightarrow>
                        if error \<noteq> 0 then Done (asynError, error, p1, d3)
                        else if bytesRead \<noteq> p_plcSize p1 then Done (asynError, error, p1, d3)
                        else
                          let p2 = p1\<lparr>p_plcTimeStampRaw := 0, p_firstReadDone := True\<rparr>;
                              data = received (replicate (p_plcSize p1) 0) bs
                          in if updateAsynPar
                             then run_bind (adsUpdateParameter lib i p2 (Some data) bytesRead d3)
                                    (\<lambda>(stat, p3, d4). Done (stat, error, p3, d4))
                             else Done (asynSuccess, error, p2, d3)))"

section \<open>States, versions, routes\<close>

definition adsReadState ::
  "('e, 'z) ads_lib_scheme \<Rightarrow> nat \<Rightarrow> nat \<Rightarrow> 'e driver \<Rightarrow> (asynStatus \<times> nat \<times> int) \<times> 'e driver" where
  "adsReadState lib amsClientPort amsport d =
     (case call (AdsSyncReadStateReqEx lib amsClientPort (server d amsport)) d of
        ((status, adsState), d1) \<Rightarrow>
          ((if status \<noteq> 0 then asynError else asynSuccess, adsState, status), d1))"

definition adsWriteState ::
  "('e, 'z) ads_lib_scheme \<Rightarrow> nat \<Rightarrow> nat \<Rightarrow> nat \<Rightarrow> 'e driver \<Rightarrow> asynStatus \<times> 'e driver" where
  "adsWriteState lib amsClientPort amsport adsState d =
     (case call (AdsSyncWriteControlReqEx lib amsClientPort (server d amsport) adsState 0) d of
        (status, d1) \<Rightarrow> (if status \<noteq> 0 then asynError else asynSuccess, d1))"

definition adsReadVersion ::
  "('e, 'z) ads_lib_scheme \<Rightarrow> nat \<Rightarrow> amsPortInfo \<Rightarrow> 'e driver \<Rightarrow> asynStatus \<times> amsPortInfo \<times> 'e driver" where
  "adsReadVersion lib amsClientPort port d =
     (case call (AdsSyncReadDeviceInfoReqEx lib amsClientPort (server d (port_amsPort port))) d of
        ((status, devName, version), d1) \<Rightarrow>
          if status \<noteq> 0 then (asynError, port, d1)
          else (asynSuccess, port\<lparr>port_version := version, port_devName := take 255 devName\<rparr>, d1))"

definition adsDelRoute :: "('e, 'z) ads_lib_scheme \<Rightarrow> bool \<Rightarrow> 'e driver \<Rightarrow> asynStatus \<times> 'e driver" where
  "adsDelRoute lib force d =
     (let d1 = (if d_routeAdded d \<or> force
                then d\<lparr>d_routeAdded := False, env := AdsDelRoute lib (d_remoteNetId d) (env d)\<rparr>
                else d);
          d2 = (if d_ethercatRouteAdded d1
                then d1\<lparr>d_ethercatRouteAdded := False,
                        env := AdsDelRoute lib (d_ethercatMasterNetId d1) (env d1)\<rparr>
                else d1)
      in (asynSuccess, d2))"

definition adsAddEthercatRoute :: "('e, 'z) ads_lib_scheme \<Rightarrow> 'e driver \<Rightarrow> asynStatus \<times> 'e driver" where
  "adsAddEthercatRoute lib d =
     (if \<not> ethercatMasterIsAvailable d \<or> d_ethercatMasterNetId d = d_remoteNetId d \<or> d_ethercatRouteAdded d
      then (asynSuccess, d)
      else case call (AdsAddRoute lib (d_ethercatMasterNetId d) (d_ipaddr d)) d of
        (addRouteStatus, d1) \<Rightarrow>
          if addRouteStatus = sdk lib ''ADSERR_DEVICE_EXISTS'' then (asynSuccess, d1)
          else if addRouteStatus \<noteq> 0 then (asynError, d1)
          else (asynSuccess, d1\<lparr>d_ethercatRouteAdded := True\<rparr>))"

definition adsAddRoute :: "('e, 'z) ads_lib_scheme \<Rightarrow> 'e driver \<Rightarrow> asynStatus \<times> 'e driver" where
  "adsAddRoute lib d =
     (case call (AdsAddRoute lib (d_remoteNetId d) (d_ipaddr d)) d of
        (addRouteStatus, d1) \<Rightarrow>
          if addRouteStatus \<noteq> 0 then (asynError, d1) else (asynSuccess, d1\<lparr>d_routeAdded := True\<rparr>))"

definition adsConnect :: "('e, 'z) ads_lib_scheme \<Rightarrow> nat \<Rightarrow> 'e driver \<Rightarrow> asynStatus \<times> 'e driver" where
  "adsConnect lib amsClientPort d =
     (let d1 = (if d_routeAdded d then d
                else case adsAddRoute lib d of
                       (stat, d') \<Rightarrow> if stat \<noteq> asynSuccess then snd (adsDelRoute lib True d') else d')
      in case call (AdsSyncGetTimeoutEx lib amsClientPort) d1 of
           (status, d2) \<Rightarrow>
             if status \<noteq> 0 then (asynError, d2)
             else case call (AdsSyncSetTimeoutEx lib amsClientPort (nat (d_adsTimeoutMS d2 mod 2 ^ 32))) d2 of
                    (status1, d3) \<Rightarrow> (if status1 \<noteq> 0 then asynError else asynSuccess, d3))"

definition adsDisconnect :: "('e, 'z) ads_lib_scheme \<Rightarrow> 'e driver \<Rightarrow> asynStatus \<times> 'e driver" where
  "adsDisconnect lib d = (asynSuccess, snd (adsDelRoute lib True d))"

text \<open>A negative index is not refused; the code then forms a pointer in front of the array.\<close>

definition getAdsParamInfo :: "'e driver \<Rightarrow> int \<Rightarrow> adsParamInfo option run" where
  "getAdsParamInfo d index =
     (if index < int (d_paramCount d)
      then (if 0 \<le> index \<and> nat index < length (d_params d) then Done (Some (d_params d ! nat index)) else Ub)
      else Done None)"

section \<open>Addresses\<close>

text \<open>The address of the parameter is known: no request is needed to find it.\<close>

definition known_address :: "adsParamInfo \<Rightarrow> bool" where
  "known_address p \<longleftrightarrow> p_plcAbsAdrValid p \<and> (p_isAdrCommand p \<or> p_bSymbolicHandleValid p)"

definition address_of :: "('e, 'z) ads_lib_scheme \<Rightarrow> adsParamInfo \<Rightarrow> nat \<times> nat" where
  "address_of lib p =
     (if p_isAdrCommand p then (p_plcAbsAdrGroup p, p_plcAbsAdrOffset p)
      else (sdk_u lib ''ADSIGRP_SYM_VALBYHND'', p_hSymbolicHandle p))"

lemma param_address_known:
  "known_address p \<Longrightarrow> param_address lib cp p d = (Some (address_of lib p), p, d)"
  by (auto simp: known_address_def address_of_def param_address_def)

lemma syminfo_success:
  "adsGetSymInfoByName lib cp p d = (asynSuccess, p1, d1) \<Longrightarrow>
     p_plcAbsAdrValid p1 \<and> p_isAdrCommand p1 = p_isAdrCommand p \<and>
     p_bSymbolicHandleValid p1 = p_bSymbolicHandleValid p \<and> p_hSymbolicHandle p1 = p_hSymbolicHandle p \<and>
     p_amsPort p1 = p_amsPort p \<and> p_plcAdrStr p1 = p_plcAdrStr p"
  by (auto simp: adsGetSymInfoByName_def split: prod.splits if_splits)

lemma symhandle_success:
  "adsGetSymHandleByName lib cp p d = (asynSuccess, p1, d1) \<Longrightarrow>
     p_bSymbolicHandleValid p1 \<and> p_isAdrCommand p1 = p_isAdrCommand p \<and>
     p_plcAbsAdrValid p1 = p_plcAbsAdrValid p"
  by (auto simp: adsGetSymHandleByName_def split: prod.splits if_splits)

lemma param_address_Some:
  assumes "param_address lib cp p d = (Some a, p1, d1)"
  shows "known_address p1 \<and> a = address_of lib p1"
  using assms
  by (auto simp: param_address_def known_address_def address_of_def split: prod.splits if_splits
      dest!: syminfo_success symhandle_success)

lemma le_nat_zeros [simp]: "le_nat (replicate n 0) = 0"
  by (induction n) simp_all

lemma received_same [simp]: "length bs = length old \<Longrightarrow> received old bs = bs"
  by (simp add: received_def)

text \<open>
  Finding the address of a parameter is done once: when it succeeded, the parameter carries a valid
  address, and looking it up again, in any later state and from any client port, gives the same address
  and sends no request.
\<close>
theorem address_cached:
  assumes "param_address lib cp p d = (Some a, p1, d1)"
  shows "known_address p1 \<and> (\<forall>cp' d2. param_address lib cp' p1 d2 = (Some a, p1, d2))"
  using param_address_Some [OF assms] by (simp add: param_address_known)

lemma address_cached_witness:
  "let p1 = new_param\<lparr>p_plcAdrStr := ''MAIN.x'', p_plcAbsAdrValid := True, p_bSymbolicHandleValid := True\<rparr>
   in param_address zero_lib 1 p1 demo_driver = (Some (20, 0), p1, demo_driver)"
proof -
  let ?p1 = "new_param\<lparr>p_plcAdrStr := ''MAIN.x'', p_plcAbsAdrValid := True, p_bSymbolicHandleValid := True\<rparr>"
  have "\<exists>d1. param_address zero_lib 30000 (new_param\<lparr>p_plcAdrStr := ''MAIN.x'', p_plcAbsAdrValid := True\<rparr>)
      demo_driver = (Some (20, 0), ?p1, d1)"
    by (simp add: param_address_def adsGetSymHandleByName_def call_def zero_lib_def sdk_u_def new_param_def)
  then show ?thesis using address_cached unfolding Let_def by blast
qed

text \<open>
  C38: a handle that was released is not used again: the next lookup of the parameter's address asks the
  controller for a new handle and uses the one in its answer.
\<close>
theorem released_handle_not_reused:
  assumes "adsReleaseSymbolicHandle lib cp p blockErrorMsg d = (st, p1, d1)"
    and "param_address lib cp p1 d2 = (Some a, p2, d3)" and "\<not> p_isAdrCommand p"
  shows "\<exists>d4 bs n e. AdsSyncReadWriteReqEx2 lib cp (server d4 (p_amsPort p)) (sdk_u lib ''ADSIGRP_SYM_HNDBYNAME'')
      0 4 (text_bytes (p_plcAdrStr p)) (env d4) = ((0, bs, n), e) \<and>
      a = (sdk_u lib ''ADSIGRP_SYM_VALBYHND'', le_nat (received (replicate 4 0) bs))"
proof -
  have p1: "p1 = p\<lparr>p_bSymbolicHandleValid := False, p_hSymbolicHandle := no_handle\<rparr>"
    using assms(1) by (auto simp: adsReleaseSymbolicHandle_def Let_def split: prod.splits)
  obtain q d4 where info: "(if p_plcAbsAdrValid p1 then (asynSuccess, p1, d2)
      else adsGetSymInfoByName lib cp p1 d2) = (asynSuccess, q, d4)"
    and h: "adsGetSymHandleByName lib cp q d4 = (asynSuccess, p2, d3)"
    and a: "a = (sdk_u lib ''ADSIGRP_SYM_VALBYHND'', p_hSymbolicHandle p2)"
  proof -
    have nv: "\<not> p_isAdrCommand p1" "\<not> p_bSymbolicHandleValid p1" using assms(3) by (simp_all add: p1)
    obtain st1 q d4 where info: "(if p_plcAbsAdrValid p1 then (asynSuccess, p1, d2)
        else adsGetSymInfoByName lib cp p1 d2) = (st1, q, d4)"
      by (metis prod_cases3)
    with assms(2) nv have ok: "st1 = asynSuccess" by (auto simp: param_address_def split: if_splits)
    with info nv have "\<not> p_bSymbolicHandleValid q" by (auto split: if_splits dest!: syminfo_success)
    with assms(2) nv info ok show thesis
      by (intro that [of q d4]) (auto simp: param_address_def split: prod.splits if_splits)
  qed
  from info have q: "p_amsPort q = p_amsPort p" "p_plcAdrStr q = p_plcAdrStr p"
    by (auto simp: p1 split: if_splits dest!: syminfo_success)
  from h show ?thesis
    by (simp add: adsGetSymHandleByName_def call_def a q split: prod.splits if_splits) fastforce
qed

lemma released_handle_not_reused_witness:
  "\<exists>d4 bs n e. AdsSyncReadWriteReqEx2 (zero_lib :: unit ads_lib) 1 (server d4 851) (sdk_u (zero_lib :: unit ads_lib)
      ''ADSIGRP_SYM_HNDBYNAME'') 0 4 (text_bytes ''MAIN.x'') (env d4) = ((0, bs, n), e) \<and>
      (20, 0) = (sdk_u (zero_lib :: unit ads_lib) ''ADSIGRP_SYM_VALBYHND'', le_nat (received (replicate 4 0) bs))"
proof -
  let ?p = "new_param\<lparr>p_amsPort := 851, p_plcAdrStr := ''MAIN.x'', p_plcAbsAdrValid := True,
     p_bSymbolicHandleValid := True, p_hSymbolicHandle := 5\<rparr>"
  obtain st p1 d1 where r: "adsReleaseSymbolicHandle zero_lib 1 ?p True demo_driver = (st, p1, d1)"
    by (cases "adsReleaseSymbolicHandle zero_lib 1 ?p True demo_driver") auto
  then have p1: "p1 = ?p\<lparr>p_bSymbolicHandleValid := False, p_hSymbolicHandle := no_handle\<rparr>"
    by (auto simp: adsReleaseSymbolicHandle_def Let_def split: prod.splits)
  have "\<exists>p2 d3. param_address zero_lib 1 p1 demo_driver = (Some (20, 0), p2, d3)"
    by (simp add: p1 param_address_def adsGetSymHandleByName_def call_def zero_lib_def sdk_u_def new_param_def)
  then obtain p2 d3 where "param_address zero_lib 1 p1 demo_driver = (Some (20, 0), p2, d3)" by blast
  from released_handle_not_reused [OF r this]
  show ?thesis unfolding new_param_def by (simp only: adsParamInfo.simps) blast
qed

section \<open>Reads\<close>

lemma param_address_keeps:
  "param_address lib cp p d = (r, p1, d1) \<Longrightarrow> d_ethercatMasterAvailable d1 = d_ethercatMasterAvailable d \<and>
     d_ethercatMasterNetId d1 = d_ethercatMasterNetId d"
  by (auto simp: param_address_def adsGetSymInfoByName_def adsGetSymInfoByName_entry_def
      adsGetSymHandleByName_def call_def Let_def split: prod.splits if_splits)

lemma address_of_read:
  assumes "param_address lib cp p d = (Some (g, off), p1, d1)"
  shows "g = (if p_isAdrCommand p then p_plcAbsAdrGroup p else sdk_u lib ''ADSIGRP_SYM_VALBYHND'') \<and>
    off = (if p_isAdrCommand p then p_plcAbsAdrOffset p else p_hSymbolicHandle p1)"
proof (cases "p_isAdrCommand p")
  case True
  with assms show ?thesis by (auto simp: param_address_def split: if_splits)
next
  case False
  with assms show ?thesis by (auto simp: param_address_def split: prod.splits if_splits)
qed

text \<open>
  C8: a read that reports success was sent while the driver was not stopping, to the AMS port of the
  parameter at the controller, or at the EtherCAT master when the parameter is an EtherCAT state, for the
  group and offset of the parameter's address or for the handle of its symbol.  The request asked for as
  many bytes as the variable has, the answer had the error code 0 and announced exactly as many, and when
  the parameter is to be updated it was updated successfully with the bytes of this answer.  The parameter
  ends with a valid address, marked as read.
\<close>
theorem read_success:
  assumes "adsReadParam lib cp i p upd d = Done (asynSuccess, err, p', d')"
  shows "\<not> d_stopThreads d \<and> err = 0 \<and> known_address p' \<and> p_firstReadDone p' \<and> p_plcTimeStampRaw p' = 0 \<and>
    (isEthercatStateParam p \<longrightarrow> d_ethercatMasterAvailable d') \<and>
    (\<exists>e0 bs e. AdsSyncReadReqEx2 lib cp
         \<lparr>netId = (if isEthercatStateParam p then d_ethercatMasterNetId d' else d_remoteNetId d),
          addr_port = p_amsPort p\<rparr>
         (if p_isAdrCommand p then p_plcAbsAdrGroup p else sdk_u lib ''ADSIGRP_SYM_VALBYHND'')
         (if p_isAdrCommand p then p_plcAbsAdrOffset p else p_hSymbolicHandle p')
         (p_plcSize p') e0 = ((0, bs, p_plcSize p'), e) \<and>
       (upd \<longrightarrow> (\<exists>q d2. env d2 = e \<and> adsUpdateParameter lib i q
          (Some (received (replicate (p_plcSize p') 0) bs)) (p_plcSize p') d2 = Done (asynSuccess, p', d'))))"
proof -
  obtain av d1 where chk: "checkEthercatMasterForParam lib cp p d = (av, d1)" by fastforce
  obtain r p1 d2 where adr: "param_address lib cp p d1 = (r, p1, d2)" by (cases "param_address lib cp p d1") auto
  from assms chk adr have run: "\<not> d_stopThreads d" and av: av
    by (auto simp: adsReadParam_def split: if_splits option.splits)
  from assms chk adr run av obtain g off where r: "r = Some (g, off)"
    by (cases r) (auto simp: adsReadParam_def Let_def)
  note a = address_of_read [OF adr [unfolded r]]
  have known: "known_address p1" using param_address_Some adr r by blast
  obtain error bs n d3 where req: "call (AdsSyncReadReqEx2 lib cp
      \<lparr>netId = adsTargetNetIdForParam d1 p, addr_port = p_amsPort p\<rparr> g off (p_plcSize p1)) d2 = ((error, bs, n), d3)"
    by (metis prod_cases3 prod.exhaust)
  let ?p2 = "p1\<lparr>p_plcTimeStampRaw := 0, p_firstReadDone := True\<rparr>"
  from assms chk adr run av r req have e0: "error = 0" and err: "err = error" and n: "n = p_plcSize p1"
    by (auto simp: adsReadParam_def Let_def run_bind_Done_iff split: if_splits)
  let ?data = "received (replicate (p_plcSize p1) 0) bs"
  from assms chk adr run av r req e0 n have fin: "(if upd
       then run_bind (adsUpdateParameter lib i ?p2 (Some ?data) n d3) (\<lambda>(stat, p3, d4). Done (stat, 0, p3, d4))
       else Done (asynSuccess, 0, ?p2, d3)) = Done (asynSuccess, err, p', d')"
    by (cases upd) (simp_all add: adsReadParam_def Let_def)
  have master: "isEthercatStateParam p \<longrightarrow> d_ethercatMasterAvailable d1"
    using chk av by (auto simp: checkEthercatMasterForParam_def ethercatMasterIsAvailable_def Let_def)
  have net: "d_remoteNetId d1 = d_remoteNetId d"
    by (rule ecat_frameE [OF check_frame [OF chk]]) simp
  obtain e where ask: "AdsSyncReadReqEx2 lib cp \<lparr>netId = adsTargetNetIdForParam d1 p, addr_port = p_amsPort p\<rparr> g off
      (p_plcSize p1) (env d2) = ((0, bs, p_plcSize p1), e)" and d3e: "d3 = d2\<lparr>env := e\<rparr>"
    using req e0 n by (auto simp: call_def split: prod.splits)
  have upd: "upd \<Longrightarrow> adsUpdateParameter lib i ?p2 (Some ?data) (p_plcSize p1) d3 = Done (asynSuccess, p', d')"
    using fin n by (auto simp: run_bind_Done_iff)
  have keeps: "p_plcSize p' = p_plcSize p1 \<and> p_hSymbolicHandle p' = p_hSymbolicHandle p1 \<and> known_address p' \<and> p_firstReadDone p' \<and>
      p_plcTimeStampRaw p' = 0 \<and> d_ethercatMasterAvailable d' = d_ethercatMasterAvailable d3 \<and>
      d_ethercatMasterNetId d' = d_ethercatMasterNetId d3"
  proof (cases upd)
    case True
    show ?thesis by (rule update_outcome [OF upd [OF True]]) (use known in \<open>simp add: known_address_def\<close>)
  next
    case False
    with fin known show ?thesis by (auto simp: known_address_def)
  qed
  have d3: "d_ethercatMasterAvailable d3 = d_ethercatMasterAvailable d1" "d_ethercatMasterNetId d3 = d_ethercatMasterNetId d1"
    using param_address_keeps [OF adr] by (simp_all add: d3e)
  have srv: "adsTargetNetIdForParam d1 p = (if isEthercatStateParam p then d_ethercatMasterNetId d' else d_remoteNetId d)"
    using keeps d3 net by (simp add: adsTargetNetIdForParam_def isEthercatStateParam_def)
  have "AdsSyncReadReqEx2 lib cp
      \<lparr>netId = (if isEthercatStateParam p then d_ethercatMasterNetId d' else d_remoteNetId d), addr_port = p_amsPort p\<rparr>
      (if p_isAdrCommand p then p_plcAbsAdrGroup p else sdk_u lib ''ADSIGRP_SYM_VALBYHND'')
      (if p_isAdrCommand p then p_plcAbsAdrOffset p else p_hSymbolicHandle p')
      (p_plcSize p') (env d2) = ((0, bs, p_plcSize p'), e)"
    using ask a keeps srv by (simp only:)
  moreover have "upd \<longrightarrow> (\<exists>q d2. env d2 = e \<and> adsUpdateParameter lib i q
      (Some (received (replicate (p_plcSize p') 0) bs)) (p_plcSize p') d2 = Done (asynSuccess, p', d'))"
    using upd keeps by (intro impI exI [of _ ?p2] exI [of _ d3] conjI) (simp_all add: d3e)
  moreover have "isEthercatStateParam p \<longrightarrow> d_ethercatMasterAvailable d'" using master keeps d3 by simp
  moreover have "err = 0" using err e0 by simp
  ultimately show ?thesis
    using run keeps by (elim conjE, intro conjI exI [of _ "env d2"] exI [of _ bs] exI [of _ e]) assumption+
qed

lemma read_success_witness:
  "let p = new_param\<lparr>p_plcAdrStr := ''MAIN.x'', p_plcAbsAdrValid := True, p_plcSize := 4\<rparr>
   in \<exists>p' d'. adsReadParam zero_lib 1 0 p False demo_driver = Done (asynSuccess, 0, p', d') \<and>
        known_address p' \<and> p_firstReadDone p'"
proof -
  let ?p = "new_param\<lparr>p_plcAdrStr := ''MAIN.x'', p_plcAbsAdrValid := True, p_plcSize := 4\<rparr>"
  have run: "\<not> d_stopThreads demo_driver" by (simp add: demo_driver_def constructed_def)
  have "\<exists>p' d'. adsReadParam zero_lib 1 0 ?p False demo_driver = Done (asynSuccess, 0, p', d')"
    using run by (simp add: adsReadParam_def checkEthercatMasterForParam_def isEthercatStateParam_def
        param_address_def adsGetSymHandleByName_def call_def zero_lib_def sdk_u_def new_param_def Let_def)
  then obtain p' d' where r: "adsReadParam zero_lib 1 0 ?p False demo_driver = Done (asynSuccess, 0, p', d')"
    by blast
  from read_success [OF this] r show ?thesis unfolding Let_def by blast
qed

end
