(* ===== verification/Ads_Bulk.thy ===== *)
theory Ads_Bulk
  imports Ads_SymbolIo
begin

text \<open>
  Bulk reads: the allocation of parameters to slots of sum-up read requests
  (\<^verbatim>\<open>adsAddToBulkRead\<close>, \<^verbatim>\<open>adsFindBulkTimeStamp\<close>), and
  \<^verbatim>\<open>updateParamInfoWithPLCInfo\<close>, which completes a parameter with what the PLC knows
  about it and subscribes it.  A request holds at most 500 slots for one AMS port, of which the first two
  are reserved for a time stamp; the requests in use are a prefix of the array, which is what the polling
  loop relies on.
\<close>

section \<open>Slots\<close>

text \<open>The index of the first element with a property, or the length of the list.\<close>

definition first_index :: "('a \<Rightarrow> bool) \<Rightarrow> 'a list \<Rightarrow> nat" where
  "first_index P xs = length (takeWhile (\<lambda>x. \<not> P x) xs)"

definition TSHI :: string where "TSHI = ''MAIN.fbSystemTime.timeHiDW''"
definition TSLO :: string where "TSLO = ''MAIN.fbSystemTime.timeLoDW''"

text \<open>The result is the index of the entry.  The array has room for ten AMS ports only.\<close>

definition adsFindBulkTimeStamp ::
  "('e, 'z) ads_lib_scheme \<Rightarrow> nat \<Rightarrow> nat \<Rightarrow> 'e driver \<Rightarrow> (nat \<times> 'e driver) run" where
  "adsFindBulkTimeStamp lib amsClientPort amsPort d =
     (let i = first_index (\<lambda>e. amsPort = ts_amsPort e) (take (d_bulkTScnt d) (d_bulkTS d))
      in if i = d_bulkTScnt d \<and> length (d_bulkTS d) \<le> i then Ub
         else
           let d1 = (if i = d_bulkTScnt d
                     then d\<lparr>d_bulkTScnt := d_bulkTScnt d + 1,
                            d_bulkTS := (d_bulkTS d)[i := (d_bulkTS d ! i)\<lparr>ts_amsPort := amsPort,
                                                            ts_refreshNeeded := True\<rparr>]\<rparr>
                     else d)
           in if \<not> ts_refreshNeeded (d_bulkTS d1 ! i) then Done (i, d1)
              else
                let e = d_bulkTS d1 ! i;
                    req = (\<lambda>name. AdsSyncReadWriteReqEx2 lib amsClientPort (server d1 amsPort)
                             (sdk_u lib ''ADSIGRP_SYM_HNDBYNAME'') 0 4 (text_bytes name))
                in case call (req TSHI) d1 of
                     ((statH, bsH, _), d2) \<Rightarrow>
                       (case call (req TSLO) d2 of
                          ((statL, bsL, _), d3) \<Rightarrow>
                            let e1 = e\<lparr>ts_iHandleH := le_nat (received (le_bytes 4 (ts_iHandleH e)) bsH),
                                       ts_iHandleL := le_nat (received (le_bytes 4 (ts_iHandleL e)) bsL),
                                       ts_refreshNeeded := \<not> (statH = 0 \<and> statL = 0)\<rparr>
                            in Done (i, d3\<lparr>d_bulkTS := (d_bulkTS d3)[i := e1]\<rparr>)))"

text \<open>The first variable of a request: the two slots of the time stamp, of memory if there is none.\<close>

definition open_bulk :: "('e, 'z) ads_lib_scheme \<Rightarrow> nat \<Rightarrow> tsentry \<Rightarrow> BulkReadInfo \<Rightarrow> BulkReadInfo" where
  "open_bulk lib amsPort ts b =
     (let slot = (\<lambda>h. if ts_refreshNeeded ts then \<lparr>s_iGroup = 0x4020, s_iOffset = 0, s_iSize = 4\<rparr>
                      else \<lparr>s_iGroup = sdk_u lib ''ADSIGRP_SYM_VALBYHND'', s_iOffset = h, s_iSize = 4\<rparr>)
      in b\<lparr>b_amsPort := amsPort,
           b_sum := (b_sum b)[0 := slot (ts_iHandleH ts), 1 := slot (ts_iHandleL ts)],
           b_cnt := 2, b_readSize := 16\<rparr>)"

definition set_bulk :: "nat \<Rightarrow> BulkReadInfo \<Rightarrow> 'e driver \<Rightarrow> 'e driver" where
  "set_bulk i b d = d\<lparr>d_bulk := (d_bulk d)[i := b]\<rparr>"

text \<open>An unused request, or one of the port with a free slot.\<close>

definition has_room :: "nat \<Rightarrow> BulkReadInfo \<Rightarrow> bool" where
  "has_room amsPort b \<longleftrightarrow> b_cnt b = 0 \<or> b_cnt b \<noteq> BULKSIZ \<and> b_amsPort b = amsPort"

text \<open>Assigning a slot to a parameter that has none: \<open>None\<close> when there is no room.\<close>

definition assign_slot ::
  "('e, 'z) ads_lib_scheme \<Rightarrow> nat \<Rightarrow> adsParamInfo \<Rightarrow> 'e driver \<Rightarrow> (adsParamInfo option \<times> 'e driver) run" where
  "assign_slot lib amsClientPort p d =
     (let i = first_index (has_room (p_amsPort p)) (d_bulk d)
      in if i = length (d_bulk d) then Done (None, d)
         else
           run_bind (if b_cnt (d_bulk d ! i) = 0
                     then run_bind (adsFindBulkTimeStamp lib amsClientPort (p_amsPort p) d) (\<lambda>(j, d1).
                            Done (set_bulk i (open_bulk lib (p_amsPort p) (d_bulkTS d1 ! j) (d_bulk d1 ! i)) d1))
                     else Done d) (\<lambda>d2.
             let b = d_bulk d2 ! i
             in if length (b_paramID b) \<le> b_cnt b then Ub
                else Done (Some (p\<lparr>p_bulkIndex := int i, p_bulkOffset := int (b_cnt b)\<rparr>),
                           set_bulk i (b\<lparr>b_paramID := (b_paramID b)[b_cnt b := p_paramIndex p],
                                         b_cnt := b_cnt b + 1\<rparr>) d2)))"

text \<open>Filling the slot of a parameter.\<close>

definition fill_slot ::
  "('e, 'z) ads_lib_scheme \<Rightarrow> adsParamInfo \<Rightarrow> 'e driver \<Rightarrow> 'e driver run" where
  "fill_slot lib p d =
     (let entry = (if p_isAdrCommand p
                   then \<lparr>s_iGroup = p_plcAbsAdrGroup p, s_iOffset = p_plcAbsAdrOffset p, s_iSize = p_plcSize p\<rparr>
                   else \<lparr>s_iGroup = sdk_u lib ''ADSIGRP_SYM_VALBYHND'', s_iOffset = p_hSymbolicHandle p,
                         s_iSize = p_plcSize p\<rparr>);
          i = nat (p_bulkIndex p); j = nat (p_bulkOffset p)
      in if length (d_bulk d) \<le> i \<or> p_bulkOffset p < 0 \<or> length (b_sum (d_bulk d ! i)) \<le> j then Ub
         else
           let b = d_bulk d ! i
           in Done (set_bulk i (b\<lparr>b_sum := (b_sum b)[j := entry],
                                  b_readSize := wrap_signed 4 (b_readSize b + int (p_plcSize p) + 4)\<rparr>) d))"

definition adsAddToBulkRead ::
  "('e, 'z) ads_lib_scheme \<Rightarrow> nat \<Rightarrow> adsParamInfo \<Rightarrow> 'e driver \<Rightarrow> (asynStatus \<times> adsParamInfo \<times> 'e driver) run" where
  "adsAddToBulkRead lib amsClientPort p d =
     run_bind (if p_bulkIndex p < 0 then assign_slot lib amsClientPort p d else Done (Some p, d)) (\<lambda>(r, d1).
       case r of
         None \<Rightarrow> Done (asynError, p, d1)
       | Some p1 \<Rightarrow> run_bind (fill_slot lib p1 d1) (\<lambda>d2. Done (asynSuccess, p1, d2)))"

section \<open>Completing a parameter\<close>

text \<open>
  The entry of the symbol dictionary that may be used for a parameter.  An empty dictionary has no
  entry.
\<close>

definition dict_entry :: "adsParamInfo \<Rightarrow> 'e driver \<Rightarrow> AdsSymbolDictEntry option" where
  "dict_entry p d =
     (if p_isAdrCommand p then None
      else
        case d_symbolDict d (map tolower (p_plcAdrStr p)) of
          None \<Rightarrow> None
        | Some e \<Rightarrow>
            if e_resolved e \<and> 0 < e_size e \<and> int (e_adst e) \<noteq> adst_code ADST_VOID then Some e else None)"

definition is_array :: "adsParamInfo \<Rightarrow> bool" where
  "is_array p =
     (case adst_of (int (p_plcDataType p)) of
        Some ADST_VOID \<Rightarrow> False | Some ADST_STRING \<Rightarrow> True | Some ADST_WSTRING \<Rightarrow> True
      | Some ADST_BIGTYPE \<Rightarrow> False | Some ADST_MAXTYPES \<Rightarrow> False
      | _ \<Rightarrow> unat (adsTypeSize (int (p_plcDataType p))) < p_plcSize p)"

text \<open>The buffer of an array: kept when the size is the same; \<open>None\<close> when memory runs out.\<close>

definition alloc_array ::
  "('e, 'z) ads_lib_scheme \<Rightarrow> adsParamInfo \<Rightarrow> 'e driver \<Rightarrow> adsParamInfo option \<times> adsParamInfo" where
  "alloc_array lib p d =
     (let p1 = (if p_plcSize p \<noteq> p_arrayDataBufferSize p then p\<lparr>p_arrayDataBuffer := None\<rparr> else p)
      in if p_arrayDataBuffer p1 \<noteq> None then (Some p1, p1)
         else
           let p2 = p1\<lparr>p_arrayDataBufferSize := p_plcSize p1\<rparr>
           in if mallocOk lib (p_plcSize p1) (env d)
              then (Some (p2\<lparr>p_arrayDataBuffer := Some (replicate (p_plcSize p1) 0)\<rparr>), p2)
              else (None, p2))"

text \<open>Subscription of a parameter that is processed on I/O interrupts.\<close>

definition subscribe ::
  "('e, 'z) ads_lib_scheme \<Rightarrow> nat \<Rightarrow> adsParamInfo \<Rightarrow> 'e driver \<Rightarrow> (asynStatus \<times> adsParamInfo \<times> 'e driver) run" where
  "subscribe lib amsClientPort p d =
     (if \<not> p_isIOIntr p then Done (asynSuccess, p, d)
      else if \<not> p_isBulkRead p \<or> p_plcSize p > 1024 * 1024
      then (case adsDelDataCallback lib amsClientPort p d of
              (_, p1, d1) \<Rightarrow> Done (adsAddDataCallback lib amsClientPort p1 d1))
      else adsAddToBulkRead lib amsClientPort p d)"

definition updateParamInfoWithPLCInfo ::
  "('e, 'z) ads_lib_scheme \<Rightarrow> nat \<Rightarrow> adsParamInfo \<Rightarrow> 'e driver \<Rightarrow> (asynStatus \<times> adsParamInfo \<times> 'e driver) run" where
  "updateParamInfoWithPLCInfo lib amsClientPort p d =
     (if p_dataSource p \<noteq> ADS_DATASOURCE_PLC then Done (asynSuccess, p\<lparr>p_refreshNeeded := False\<rparr>, d)
      else
        let dict = dict_entry p d;
            fromDict = (dict \<noteq> None)
        in case (case dict of
                   Some e \<Rightarrow>
                     (asynSuccess, p\<lparr>p_plcDataType := e_adst e, p_plcSize := e_size e,
                        p_hSymbolicHandle := e_handle e, p_bSymbolicHandleValid := True\<rparr>, d)
                 | None \<Rightarrow>
                     if p_isAdrCommand p then (asynSuccess, p, d)
                     else adsGetSymInfoByName lib amsClientPort p d) of
             (status, p1, d1) \<Rightarrow>
               if status \<noteq> asynSuccess then Done (asynError, p1, d1)
               else
                 let p2 = p1\<lparr>p_plcDataIsArray := is_array p1\<rparr>
                 in case (if is_array p1 then alloc_array lib p2 d1 else (Some p2, p2)) of
                      (None, p3) \<Rightarrow> Done (asynError, p3, d1)
                    | (Some p3, _) \<Rightarrow>
                        case (if p_isAdrCommand p3 \<or> fromDict then (asynSuccess, p3, d1)
                              else case adsReleaseSymbolicHandle lib amsClientPort p3 True d1 of
                                     (_, p', d') \<Rightarrow> adsGetSymHandleByName lib amsClientPort p' d') of
                          (status2, p4, d2) \<Rightarrow>
                            if status2 \<noteq> asynSuccess then Done (asynError, p4, d2)
                            else
                              run_bind (subscribe lib amsClientPort p4 d2) (\<lambda>(status3, p5, d3).
                                if status3 \<noteq> asynSuccess then Done (asynError, p5, d3)
                                else Done (asynSuccess, p5\<lparr>p_refreshNeeded := False\<rparr>, d3)))"

section \<open>Well-formed requests\<close>

lemma first_index_le: "first_index P xs \<le> length xs"
  by (simp add: first_index_def length_takeWhile_le)

lemma first_index_hit: "first_index P xs < length xs \<Longrightarrow> P (xs ! first_index P xs)"
  unfolding first_index_def by (drule nth_length_takeWhile) simp

lemma first_index_before: "j < first_index P xs \<Longrightarrow> \<not> P (xs ! j)"
  unfolding first_index_def by (metis (mono_tags) nth_mem set_takeWhileD takeWhile_nth)

lemma first_index_none: "first_index P xs = length xs \<Longrightarrow> x \<in> set xs \<Longrightarrow> \<not> P x"
  using first_index_before [of _ P xs] by (auto simp: in_set_conv_nth)

definition bulk_ok :: "BulkReadInfo \<Rightarrow> bool" where
  "bulk_ok b \<longleftrightarrow> length (b_sum b) = BULKSIZ \<and> length (b_paramID b) = BULKSIZ \<and>
     (b_cnt b = 0 \<or> 2 < b_cnt b \<and> b_cnt b \<le> BULKSIZ)"

definition bulk_prefix :: "BulkReadInfo list \<Rightarrow> bool" where
  "bulk_prefix bs \<longleftrightarrow> (\<forall>i < length bs. \<forall>j < i. 0 < b_cnt (bs ! i) \<longrightarrow> 0 < b_cnt (bs ! j))"

definition bulk_inv :: "'e driver \<Rightarrow> bool" where
  "bulk_inv d \<longleftrightarrow> length (d_bulk d) = MAXBULK \<and> (\<forall>b \<in> set (d_bulk d). bulk_ok b) \<and>
     bulk_prefix (d_bulk d) \<and> d_bulkTScnt d \<le> length (d_bulkTS d)"

text \<open>The time stamp of the port is known, or the array has room for it.\<close>

definition ts_room :: "nat \<Rightarrow> 'e driver \<Rightarrow> bool" where
  "ts_room amsPort d \<longleftrightarrow> d_bulkTScnt d < length (d_bulkTS d) \<or>
     amsPort \<in> ts_amsPort ` set (take (d_bulkTScnt d) (d_bulkTS d))"

definition slot_of :: "adsParamInfo \<Rightarrow> nat \<times> nat" where
  "slot_of p = (nat (p_bulkIndex p), nat (p_bulkOffset p))"

text \<open>The parameter owns its slot: in use, not reserved, of the request of its port, under its index.\<close>

definition slot_ok :: "'e driver \<Rightarrow> adsParamInfo \<Rightarrow> bool" where
  "slot_ok d p \<longleftrightarrow> (case slot_of p of (i, j) \<Rightarrow>
     0 \<le> p_bulkIndex p \<and> i < length (d_bulk d) \<and> 2 \<le> p_bulkOffset p \<and> j < b_cnt (d_bulk d ! i) \<and>
     b_amsPort (d_bulk d ! i) = p_amsPort p \<and> b_paramID (d_bulk d ! i) ! j = p_paramIndex p)"

lemma find_ts_frame:
  assumes "ts_room amsPort d" and "d_bulkTScnt d \<le> length (d_bulkTS d)"
  obtains j d1 where "adsFindBulkTimeStamp lib cp amsPort d = Done (j, d1)"
    and "d_bulk d1 = d_bulk d" and "d_bulkTScnt d1 \<le> length (d_bulkTS d1)"
proof -
  let ?ts = "take (d_bulkTScnt d) (d_bulkTS d)"
  let ?i = "first_index (\<lambda>e. amsPort = ts_amsPort e) ?ts"
  have le: "?i \<le> d_bulkTScnt d" using first_index_le [of _ ?ts] assms(2) by fastforce
  have ok: "\<not> (?i = d_bulkTScnt d \<and> length (d_bulkTS d) \<le> ?i)"
  proof
    assume full: "?i = d_bulkTScnt d \<and> length (d_bulkTS d) \<le> ?i"
    have "length ?ts = d_bulkTScnt d" using assms(2) by simp
    then have "?i = length ?ts" using full by simp
    with full assms(1) first_index_none [of "\<lambda>e. amsPort = ts_amsPort e" ?ts] show False
      by (auto simp: ts_room_def)
  qed
  have "\<exists>j d1. adsFindBulkTimeStamp lib cp amsPort d = Done (j, d1) \<and> d_bulk d1 = d_bulk d \<and>
      d_bulkTScnt d1 \<le> length (d_bulkTS d1)"
    using ok le assms(2)
    by (auto simp: adsFindBulkTimeStamp_def Let_def call_def split: prod.splits)
  then show thesis using that by blast
qed

lemma ts_full_fails:
  assumes "\<not> ts_room amsPort d" and "d_bulkTScnt d \<le> length (d_bulkTS d)"
  shows "adsFindBulkTimeStamp lib cp amsPort d = Ub"
proof -
  have "first_index (\<lambda>e. amsPort = ts_amsPort e) (d_bulkTS d) = length (d_bulkTS d)"
    using assms(1) unfolding first_index_def by (intro arg_cong [where f = length] takeWhile_eq_all_conv [THEN iffD2])
      (auto simp: ts_room_def not_less)
  then show ?thesis using assms by (simp add: adsFindBulkTimeStamp_def ts_room_def)
qed

lemma bulk_ok_open: "bulk_ok b \<Longrightarrow> length (b_sum (open_bulk lib port ts b)) = BULKSIZ \<and>
    length (b_paramID (open_bulk lib port ts b)) = BULKSIZ \<and> b_cnt (open_bulk lib port ts b) = 2 \<and>
    b_amsPort (open_bulk lib port ts b) = port"
  by (simp add: bulk_ok_def open_bulk_def Let_def)

lemma bulk_prefix_update:
  assumes "bulk_prefix bs" and "\<forall>j < i. 0 < b_cnt (bs ! j)" and "0 < b_cnt b"
  shows "bulk_prefix (bs[i := b])"
  unfolding bulk_prefix_def
proof (intro allI impI)
  fix k j
  assume k: "k < length (bs[i := b])" and j: "j < k" and pos: "0 < b_cnt (bs[i := b] ! k)"
  show "0 < b_cnt (bs[i := b] ! j)"
  proof (cases "j = i")
    case True
    then show ?thesis using k j assms(3) by simp
  next
    case False
    then show ?thesis
      using k j pos assms(1,2) by (cases "k = i") (auto simp: bulk_prefix_def)
  qed
qed

text \<open>A request after the parameter took the slot \<open>off\<close> of it.\<close>

definition extends :: "adsParamInfo \<Rightarrow> nat \<Rightarrow> BulkReadInfo \<Rightarrow> BulkReadInfo \<Rightarrow> bool" where
  "extends p off old b \<longleftrightarrow> b_cnt b = off + 1 \<and> b_amsPort b = p_amsPort p \<and>
     b_paramID b ! off = p_paramIndex p \<and>
     (0 < b_cnt old \<longrightarrow> b_cnt old = off \<and> b_amsPort old = p_amsPort p \<and>
        (\<forall>k < off. b_paramID b ! k = b_paramID old ! k))"

text \<open>The time stamp array has room when a request is opened.\<close>

definition ts_ready :: "adsParamInfo \<Rightarrow> 'e driver \<Rightarrow> bool" where
  "ts_ready p d \<longleftrightarrow> ts_room (p_amsPort p) d \<or>
     (let i = first_index (has_room (p_amsPort p)) (d_bulk d) in i = length (d_bulk d) \<or> 0 < b_cnt (d_bulk d ! i))"

lemma assign_slot_spec:
  assumes inv: "bulk_inv d" and ts: "ts_ready p d"
  obtains (full) "assign_slot lib cp p d = Done (None, d)"
      and "\<forall>b \<in> set (d_bulk d). \<not> has_room (p_amsPort p) b"
    | (slot) p1 d1 i off where "assign_slot lib cp p d = Done (Some p1, d1)"
      and "p1 = p\<lparr>p_bulkIndex := int i, p_bulkOffset := int off\<rparr>" and "bulk_inv d1"
      and "i < length (d_bulk d)" and "2 \<le> off"
      and "\<exists>b. d_bulk d1 = (d_bulk d)[i := b] \<and> extends p off (d_bulk d ! i) b"
proof -
  let ?i = "first_index (has_room (p_amsPort p)) (d_bulk d)"
  show thesis
  proof (cases "?i = length (d_bulk d)")
    case True
    with first_index_none [of "has_room (p_amsPort p)" "d_bulk d"] show thesis
      by (intro full) (auto simp: assign_slot_def)
  next
    case False
    then have i: "?i < length (d_bulk d)" using first_index_le [of _ "d_bulk d"] by (simp add: nat_less_le)
    have room: "has_room (p_amsPort p) (d_bulk d ! ?i)" by (rule first_index_hit [OF i])
    have before: "\<forall>j < ?i. 0 < b_cnt (d_bulk d ! j)"
      using first_index_before [of _ "has_room (p_amsPort p)" "d_bulk d"] by (auto simp: has_room_def)
    have ok: "bulk_ok (d_bulk d ! ?i)" using inv i by (simp add: bulk_inv_def)
    have grow: thesis
      if d2: "(if b_cnt (d_bulk d ! ?i) = 0
            then run_bind (adsFindBulkTimeStamp lib cp (p_amsPort p) d) (\<lambda>(j, d1).
                   Done (set_bulk ?i (open_bulk lib (p_amsPort p) (d_bulkTS d1 ! j) (d_bulk d1 ! ?i)) d1))
            else Done d) = Done d2"
        and b: "d_bulk d2 = (d_bulk d)[?i := b]" "d_bulkTScnt d2 \<le> length (d_bulkTS d2)"
          "length (b_sum b) = BULKSIZ" "length (b_paramID b) = BULKSIZ" "2 \<le> b_cnt b" "b_cnt b < BULKSIZ"
          "b_amsPort b = p_amsPort p"
          "0 < b_cnt (d_bulk d ! ?i) \<Longrightarrow> b = d_bulk d ! ?i"
      for d2 b
    proof -
      have at: "d_bulk d2 ! ?i = b" using b(1) i by simp
      let ?b = "b\<lparr>b_paramID := (b_paramID b)[b_cnt b := p_paramIndex p], b_cnt := b_cnt b + 1\<rparr>"
      have res: "assign_slot lib cp p d =
          Done (Some (p\<lparr>p_bulkIndex := int ?i, p_bulkOffset := int (b_cnt b)\<rparr>), set_bulk ?i ?b d2)"
        using False b(4,6) by (simp only: assign_slot_def Let_def d2 at if_False run_bind.simps) simp
      have bulk: "d_bulk (set_bulk ?i ?b d2) = (d_bulk d)[?i := ?b]"
        by (simp add: set_bulk_def b(1))
      have "bulk_ok ?b" using b(3-6) by (simp add: bulk_ok_def)
      moreover have "bulk_prefix ((d_bulk d)[?i := ?b])"
        using inv before by (intro bulk_prefix_update) (simp_all add: bulk_inv_def)
      ultimately have "bulk_inv (set_bulk ?i ?b d2)"
        using inv b(2) bulk by (auto simp: bulk_inv_def set_bulk_def dest!: set_update_subset_insert [THEN subsetD])
      then show thesis
        using res i b(4-8) bulk by (intro slot [OF res refl]) (auto simp: extends_def)
    qed
    show thesis
    proof (cases "b_cnt (d_bulk d ! ?i) = 0")
      case True
      have "d_bulkTScnt d \<le> length (d_bulkTS d)" using inv by (simp add: bulk_inv_def)
      moreover have "ts_room (p_amsPort p) d" using ts True i by (simp add: ts_ready_def Let_def)
      ultimately obtain j d1 where f: "adsFindBulkTimeStamp lib cp (p_amsPort p) d = Done (j, d1)"
          "d_bulk d1 = d_bulk d" "d_bulkTScnt d1 \<le> length (d_bulkTS d1)"
        using find_ts_frame by metis
      let ?b = "open_bulk lib (p_amsPort p) (d_bulkTS d1 ! j) (d_bulk d1 ! ?i)"
      show thesis
        using True f ok bulk_ok_open [of "d_bulk d1 ! ?i" lib "p_amsPort p" "d_bulkTS d1 ! j"]
        by (intro grow [of "set_bulk ?i ?b d1" ?b]) (simp_all add: set_bulk_def BULKSIZ_def)
    next
      case False
      with room ok inv show thesis
        by (intro grow [of d "d_bulk d ! ?i"]) (auto simp: has_room_def bulk_ok_def bulk_inv_def)
    qed
  qed
qed

text \<open>The request entry of a parameter.\<close>

definition entry_of :: "('e, 'z) ads_lib_scheme \<Rightarrow> adsParamInfo \<Rightarrow> sum_entry" where
  "entry_of lib p =
     (if p_isAdrCommand p
      then \<lparr>s_iGroup = p_plcAbsAdrGroup p, s_iOffset = p_plcAbsAdrOffset p, s_iSize = p_plcSize p\<rparr>
      else \<lparr>s_iGroup = sdk_u lib ''ADSIGRP_SYM_VALBYHND'', s_iOffset = p_hSymbolicHandle p,
            s_iSize = p_plcSize p\<rparr>)"

definition holds_entry :: "('e, 'z) ads_lib_scheme \<Rightarrow> 'e driver \<Rightarrow> adsParamInfo \<Rightarrow> bool" where
  "holds_entry lib d p \<longleftrightarrow> (case slot_of p of (i, j) \<Rightarrow> b_sum (d_bulk d ! i) ! j = entry_of lib p)"

lemma fill_slot_spec:
  assumes inv: "bulk_inv d" and slot: "slot_ok d p"
  obtains d' where "fill_slot lib p d = Done d'" and "bulk_inv d'" and "slot_ok d' p"
    and "holds_entry lib d' p" and "\<forall>q. slot_ok d q \<longrightarrow> slot_ok d' q"
proof -
  let ?i = "nat (p_bulkIndex p)" and ?j = "nat (p_bulkOffset p)"
  let ?b = "d_bulk d ! ?i"
  let ?b' = "?b\<lparr>b_sum := (b_sum ?b)[?j := entry_of lib p],
               b_readSize := wrap_signed 4 (b_readSize ?b + int (p_plcSize p) + 4)\<rparr>"
  let ?d = "set_bulk ?i ?b' d"
  from slot have s: "?i < length (d_bulk d)" "2 \<le> p_bulkOffset p" "?j < b_cnt ?b"
    by (simp_all add: slot_ok_def slot_of_def)
  have ok: "bulk_ok ?b" using inv s(1) by (simp add: bulk_inv_def)
  then have j: "?j < length (b_sum ?b)" using s(3) by (auto simp: bulk_ok_def)
  have e: "(if p_isAdrCommand p
      then \<lparr>s_iGroup = p_plcAbsAdrGroup p, s_iOffset = p_plcAbsAdrOffset p, s_iSize = p_plcSize p\<rparr>
      else \<lparr>s_iGroup = sdk_u lib ''ADSIGRP_SYM_VALBYHND'', s_iOffset = p_hSymbolicHandle p,
            s_iSize = p_plcSize p\<rparr>) = entry_of lib p" by (simp only: entry_of_def)
  have res: "fill_slot lib p d = Done ?d"
    using s j unfolding fill_slot_def Let_def e by simp
  have bulk: "d_bulk ?d = (d_bulk d)[?i := ?b']" by (simp add: set_bulk_def)
  have "bulk_ok ?b'" using ok by (simp add: bulk_ok_def)
  moreover have "bulk_prefix ((d_bulk d)[?i := ?b'])"
  proof (rule bulk_prefix_update)
    show "bulk_prefix (d_bulk d)" using inv by (simp add: bulk_inv_def)
    show "0 < b_cnt ?b'" using s(3) by simp
    then show "\<forall>j < ?i. 0 < b_cnt (d_bulk d ! j)" using inv s(1) by (auto simp: bulk_inv_def bulk_prefix_def)
  qed
  ultimately have "bulk_inv ?d"
    using inv bulk by (auto simp: bulk_inv_def set_bulk_def dest!: set_update_subset_insert [THEN subsetD])
  moreover have keep: "\<forall>q. slot_ok d q \<longrightarrow> slot_ok ?d q"
    using bulk s(1) by (auto simp: slot_ok_def nth_list_update split: prod.splits)
  moreover have "holds_entry lib ?d p"
    using bulk s(1) j by (simp add: holds_entry_def slot_of_def)
  ultimately show thesis using res slot by (intro that [of ?d]) auto
qed

lemma entry_of_slot [simp]:
  "entry_of lib (p\<lparr>p_bulkIndex := x, p_bulkOffset := y\<rparr>) = entry_of lib p"
  by (simp add: entry_of_def)

section \<open>Properties\<close>

text \<open>What adding a parameter gives.\<close>

definition bulk_added :: "('e, 'z) ads_lib_scheme \<Rightarrow> adsParamInfo \<Rightarrow> 'e driver \<Rightarrow> asynStatus \<Rightarrow> adsParamInfo \<Rightarrow> 'e driver \<Rightarrow> bool" where
  "bulk_added lib p d st p' d' \<longleftrightarrow> bulk_inv d' \<and> (\<forall>q. slot_ok d q \<longrightarrow> slot_ok d' q) \<and>
    (st = asynSuccess \<and> slot_ok d' p' \<and> holds_entry lib d' p' \<and> p_amsPort p' = p_amsPort p \<and>
       (p_bulkIndex p < 0 \<longrightarrow> (\<forall>q. slot_ok d q \<longrightarrow> slot_of q \<noteq> slot_of p')) \<and> (0 \<le> p_bulkIndex p \<longrightarrow> p' = p) \<or>
     st = asynError \<and> p' = p \<and> d' = d \<and> (\<forall>b \<in> set (d_bulk d). \<not> has_room (p_amsPort p) b))"

lemma bulk_add_gives:
  assumes "bulk_inv d" and "p_bulkIndex p < 0 \<longrightarrow> ts_ready p d" and "p_bulkIndex p < 0 \<or> slot_ok d p"
  shows "\<exists>st p' d'. adsAddToBulkRead lib cp p d = Done (st, p', d') \<and> bulk_added lib p d st p' d'"
proof (cases "p_bulkIndex p < 0")
  case False
  then have s: "slot_ok d p" using assms(3) by simp
  obtain d' where "fill_slot lib p d = Done d'" "bulk_inv d'" "slot_ok d' p" "holds_entry lib d' p"
      "\<forall>q. slot_ok d q \<longrightarrow> slot_ok d' q"
    by (rule fill_slot_spec [OF assms(1) s])
  with False show ?thesis by (simp add: adsAddToBulkRead_def bulk_added_def)
next
  case True
  show ?thesis
  proof (rule assign_slot_spec [OF assms(1) assms(2) [rule_format, OF True], of lib cp])
    assume "assign_slot lib cp p d = Done (None, d)" "\<forall>b \<in> set (d_bulk d). \<not> has_room (p_amsPort p) b"
    with True assms(1) show ?thesis by (simp add: adsAddToBulkRead_def bulk_added_def)
  next
    fix p1 d1 i off
    assume r: "assign_slot lib cp p d = Done (Some p1, d1)"
      and p1: "p1 = p\<lparr>p_bulkIndex := int i, p_bulkOffset := int off\<rparr>" and inv1: "bulk_inv d1"
      and i: "i < length (d_bulk d)" and off: "2 \<le> off"
      and "\<exists>b. d_bulk d1 = (d_bulk d)[i := b] \<and> extends p off (d_bulk d ! i) b"
    then obtain b where b: "d_bulk d1 = (d_bulk d)[i := b]" and ext: "extends p off (d_bulk d ! i) b"
      by blast
    have s1: "slot_ok d1 p1" using p1 b i off ext by (simp add: slot_ok_def slot_of_def extends_def)
    have keep: "slot_ok d1 q \<and> slot_of q \<noteq> slot_of p1" if q: "slot_ok d q" for q
    proof (cases "fst (slot_of q) = i")
      case True
      with q b p1 i ext show ?thesis
        by (auto simp: slot_ok_def slot_of_def extends_def)
    next
      case False
      with q b p1 show ?thesis by (auto simp: slot_ok_def slot_of_def)
    qed
    obtain d' where f: "fill_slot lib p1 d1 = Done d'" "bulk_inv d'" "slot_ok d' p1" "holds_entry lib d' p1"
        "\<forall>q. slot_ok d1 q \<longrightarrow> slot_ok d' q"
      by (rule fill_slot_spec [OF inv1 s1])
    have "adsAddToBulkRead lib cp p d = Done (asynSuccess, p1, d')"
      using True r f(1) by (simp add: adsAddToBulkRead_def)
    moreover have "\<forall>q. slot_ok d q \<longrightarrow> slot_ok d' q" using f(5) keep by blast
    moreover have "\<forall>q. slot_ok d q \<longrightarrow> slot_of q \<noteq> slot_of p1" using keep by blast
    moreover have "p_amsPort p1 = p_amsPort p" by (simp add: p1)
    ultimately show ?thesis using f(2-4) True by (auto simp: bulk_added_def)
  qed
qed

text \<open>The same for a call that stayed inside the arrays.\<close>

lemma bulk_add_done:
  assumes "adsAddToBulkRead lib cp p d = Done (st, p', d')" and "bulk_inv d" and "p_bulkIndex p < 0 \<or> slot_ok d p"
  shows "bulk_added lib p d st p' d'"
proof (cases "p_bulkIndex p < 0 \<longrightarrow> ts_ready p d")
  case True
  from bulk_add_gives [OF assms(2) True assms(3), of lib cp] assms(1) show ?thesis by auto
next
  case False
  let ?i = "first_index (has_room (p_amsPort p)) (d_bulk d)"
  have i: "?i \<noteq> length (d_bulk d)" "b_cnt (d_bulk d ! ?i) = 0" and full: "\<not> ts_room (p_amsPort p) d"
    using False by (simp_all add: ts_ready_def Let_def)
  have "adsFindBulkTimeStamp lib cp (p_amsPort p) d = Ub"
    using assms(2) ts_full_fails [OF full] by (simp add: bulk_inv_def)
  with i False assms(1) show ?thesis by (simp add: adsAddToBulkRead_def assign_slot_def Let_def)
qed

text \<open>
  C5: adding a parameter to a bulk read never leaves the arrays, provided that the time stamp array has
  an entry or room for the AMS port of the parameter.  It keeps the requests well-formed (a used prefix, at most 500 slots each), keeps
  every slot that a parameter owns, and gives the parameter a slot in a request of its own AMS port that
  nobody owned before (or its old slot), filled with its address.  It fails only when no request has
  room, and then changes nothing.
\<close>
theorem bulk_add:
  assumes "bulk_inv d" and "ts_room (p_amsPort p) d" and "p_bulkIndex p < 0 \<or> slot_ok d p"
  shows "\<exists>st p' d'. adsAddToBulkRead lib cp p d = Done (st, p', d') \<and> bulk_inv d' \<and>
    (\<forall>q. slot_ok d q \<longrightarrow> slot_ok d' q) \<and>
    (st = asynSuccess \<and> slot_ok d' p' \<and> holds_entry lib d' p' \<and> p_amsPort p' = p_amsPort p \<and>
       (p_bulkIndex p < 0 \<longrightarrow> (\<forall>q. slot_ok d q \<longrightarrow> slot_of q \<noteq> slot_of p')) \<or>
     st = asynError \<and> p' = p \<and> d' = d \<and> (\<forall>b \<in> set (d_bulk d). \<not> has_room (p_amsPort p) b))"
proof -
  have "p_bulkIndex p < 0 \<longrightarrow> ts_ready p d" using assms(2) by (simp add: ts_ready_def)
  from bulk_add_gives [OF assms(1) this assms(3)] show ?thesis
    unfolding bulk_added_def by blast
qed

lemma bulk_inv_demo: "bulk_inv demo_driver" "ts_room n demo_driver"
  by (auto simp: bulk_inv_def bulk_prefix_def bulk_ok_def ts_room_def demo_driver_def constructed_def
      new_bulk_def MAXTSENTRY_def)

lemma bulk_add_witness:
  "\<exists>st p' d'. adsAddToBulkRead zero_lib 30000 (new_param\<lparr>p_bulkIndex := - 1, p_amsPort := 851\<rparr>) demo_driver =
      Done (st, p', d') \<and> bulk_inv d'"
  using bulk_add [OF bulk_inv_demo, of "new_param\<lparr>p_bulkIndex := - 1, p_amsPort := 851\<rparr>" zero_lib 30000]
  by auto

text \<open>
  The time stamp array has ten entries and no check: opening the first request of an eleventh
  AMS port writes behind it.
\<close>
theorem bulk_eleventh_port:
  assumes "d_bulkTScnt d = length (d_bulkTS d)" and "p_amsPort p \<notin> ts_amsPort ` set (d_bulkTS d)"
    and "p_bulkIndex p < 0" and "first_index (has_room (p_amsPort p)) (d_bulk d) < length (d_bulk d)"
    and "b_cnt (d_bulk d ! first_index (has_room (p_amsPort p)) (d_bulk d)) = 0"
  shows "adsAddToBulkRead lib cp p d = Ub"
proof -
  let ?ts = "take (d_bulkTScnt d) (d_bulkTS d)"
  have "\<not> first_index (\<lambda>e. p_amsPort p = ts_amsPort e) (d_bulkTS d) < length (d_bulkTS d)"
    using first_index_hit [of "\<lambda>e. p_amsPort p = ts_amsPort e" "d_bulkTS d"] assms(2)
    by (metis image_eqI nth_mem)
  then have "first_index (\<lambda>e. p_amsPort p = ts_amsPort e) ?ts = d_bulkTScnt d"
    using first_index_le [of "\<lambda>e. p_amsPort p = ts_amsPort e" "d_bulkTS d"] assms(1) by simp
  then have "adsFindBulkTimeStamp lib cp (p_amsPort p) d = Ub"
    using assms(1) by (simp add: adsFindBulkTimeStamp_def)
  then show ?thesis using assms(3-5) by (simp add: adsAddToBulkRead_def assign_slot_def Let_def)
qed

lemma bulk_eleventh_port_witness:
  "adsAddToBulkRead zero_lib 30000 (new_param\<lparr>p_bulkIndex := - 1, p_amsPort := 851\<rparr>)
     (demo_driver\<lparr>d_bulkTScnt := MAXTSENTRY\<rparr>) = Ub"
proof (rule bulk_eleventh_port)
  have m: "MAXBULK = Suc 1999" by (simp add: MAXBULK_def)
  have "replicate MAXBULK new_bulk = new_bulk # replicate 1999 new_bulk"
    by (subst m) (rule replicate_Suc)
  then have "d_bulk demo_driver = new_bulk # replicate 1999 new_bulk"
    by (simp add: demo_driver_def constructed_def)
  then have "takeWhile (\<lambda>x. \<not> has_room 851 x) (d_bulk demo_driver) = []"
    by (simp add: new_bulk_def has_room_def)
  then have z: "first_index (has_room 851) (d_bulk demo_driver) = 0" by (simp add: first_index_def)
  show "first_index (has_room (p_amsPort (new_param\<lparr>p_bulkIndex := - 1, p_amsPort := 851\<rparr>)))
      (d_bulk (demo_driver\<lparr>d_bulkTScnt := MAXTSENTRY\<rparr>)) <
    length (d_bulk (demo_driver\<lparr>d_bulkTScnt := MAXTSENTRY\<rparr>))"
    using z by (simp add: demo_driver_def constructed_def MAXBULK_def)
  show "b_cnt (d_bulk (demo_driver\<lparr>d_bulkTScnt := MAXTSENTRY\<rparr>) !
      first_index (has_room (p_amsPort (new_param\<lparr>p_bulkIndex := - 1, p_amsPort := 851\<rparr>)))
        (d_bulk (demo_driver\<lparr>d_bulkTScnt := MAXTSENTRY\<rparr>))) = 0"
    using z by (simp add: demo_driver_def constructed_def MAXBULK_def new_bulk_def)
qed (auto simp: demo_driver_def constructed_def)

end
