(* ===== verification/Ads_ClientPorts.thy ===== *)
theory Ads_ClientPorts
  imports Ads_Driver
begin

text \<open>
  The client ports of the driver's threads: the reference-counted map from threads to AMS client ports
  and the scope guard that every entry point of the driver takes
  (\<^verbatim>\<open>getAdsClientPortNumberForThreadId\<close>,
  \<^verbatim>\<open>addAdsClientPortNumberForThreadId\<close>,
  \<^verbatim>\<open>delAdsClientPortNumberForThreadId\<close>, \<^verbatim>\<open>AdsClientPortGuard\<close>).  Each of
  these functions runs under one mutex, so it is one step here.  The locale
  \<open>scoped_resource\<close> states what a guard must provide for nested scopes to be neutral, and
  \<open>held_resource\<close> what it must provide for only the outermost scope to open and close.
\<close>

definition isInvalidPortNumber :: "int \<Rightarrow> bool" where
  "isInvalidPortNumber clientPortNumber \<longleftrightarrow> clientPortNumber \<le> 0 \<or> clientPortNumber > 65535"

text \<open>\<open>None\<close>: \<^verbatim>\<open>at\<close> throws \<^verbatim>\<open>std::out_of_range\<close>.\<close>

definition getAdsClientPortNumberForThreadId :: "'e driver \<Rightarrow> nat \<Rightarrow> int option" where
  "getAdsClientPortNumberForThreadId d threadId =
     (if d_clientPorts d threadId \<noteq> None then map_option cp_port (d_clientPorts d 0)
      else map_option cp_port (d_clientPorts d threadId))"

definition addAdsClientPortNumberForThreadId ::
  "('e, 'z) ads_lib_scheme \<Rightarrow> nat \<Rightarrow> 'e driver \<Rightarrow> int \<times> 'e driver" where
  "addAdsClientPortNumberForThreadId lib threadId d =
     (case d_clientPorts d threadId of
        Some it \<Rightarrow>
          (cp_port it,
           d\<lparr>d_clientPorts := (d_clientPorts d)(threadId \<mapsto> it\<lparr>cp_liveCount := cp_liveCount it + 1\<rparr>)\<rparr>)
      | None \<Rightarrow>
          (case call (AdsPortOpenEx lib) d of
             (adsClientPort, d1) \<Rightarrow>
               if isInvalidPortNumber adsClientPort then (0, d1)
               else (adsClientPort,
                     d1\<lparr>d_clientPorts := (d_clientPorts d1)(threadId \<mapsto>
                          \<lparr>cp_port = adsClientPort, cp_liveCount = 1\<rparr>)\<rparr>)))"

definition delAdsClientPortNumberForThreadId ::
  "('e, 'z) ads_lib_scheme \<Rightarrow> nat \<Rightarrow> 'e driver \<Rightarrow> asynStatus \<times> 'e driver" where
  "delAdsClientPortNumberForThreadId lib threadId d =
     (case d_clientPorts d threadId of
        None \<Rightarrow> (asynSuccess, d)
      | Some it \<Rightarrow>
          let it1 = it\<lparr>cp_liveCount := cp_liveCount it - 1\<rparr>;
              d1 = d\<lparr>d_clientPorts := (d_clientPorts d)(threadId \<mapsto> it1)\<rparr>
          in if cp_liveCount it1 > 0 then (asynSuccess, d1)
             else (case call (AdsPortCloseEx lib (cp_port it1)) d1 of
                     (result, d2) \<Rightarrow>
                       if result \<noteq> 0 then (asynError, d2)
                       else (asynSuccess, d2\<lparr>d_clientPorts := (d_clientPorts d2)(threadId := None)\<rparr>)))"

text \<open>
  What every entry point does first: take a guard, and fall back to the default client port when no
  port could be opened.  The result is the port as the \<^verbatim>\<open>uint16_t\<close> argument that the
  driver passes on, or \<open>None\<close> when the fallback throws.
\<close>

definition guard_enter ::
  "('e, 'z) ads_lib_scheme \<Rightarrow> nat \<Rightarrow> 'e driver \<Rightarrow> nat option \<times> 'e driver" where
  "guard_enter lib threadId d =
     (case addAdsClientPortNumberForThreadId lib threadId d of
        (p, d1) \<Rightarrow>
          if isInvalidPortNumber p
          then (map_option (\<lambda>q. nat (q mod 2 ^ 16)) (getAdsClientPortNumberForThreadId d1 0), d1)
          else (Some (nat p), d1))"

definition guard_leave :: "('e, 'z) ads_lib_scheme \<Rightarrow> nat \<Rightarrow> 'e driver \<Rightarrow> 'e driver" where
  "guard_leave lib threadId d = snd (delAdsClientPortNumberForThreadId lib threadId d)"

text \<open>An entry point of the driver: its body runs inside a guard.\<close>

definition with_guard ::
  "('e, 'z) ads_lib_scheme \<Rightarrow> nat \<Rightarrow> (nat \<Rightarrow> 'e driver \<Rightarrow> ('r \<times> 'e driver) run) \<Rightarrow> 'e driver \<Rightarrow>
     ('r option \<times> 'e driver) run" where
  "with_guard lib threadId body d =
     (case guard_enter lib threadId d of
        (None, d1) \<Rightarrow> Done (None, guard_leave lib threadId d1)
      | (Some p, d1) \<Rightarrow>
          run_bind (body p d1) (\<lambda>(r, d2). Done (Some r, guard_leave lib threadId d2)))"

section \<open>Nested scopes\<close>

text \<open>The shape of the guards that one thread takes: each scope holds further scopes.\<close>

datatype scope = Scope "scope list"

fun run_scope :: "('s \<Rightarrow> 's) \<Rightarrow> ('s \<Rightarrow> 's) \<Rightarrow> scope \<Rightarrow> 's \<Rightarrow> 's"
  and run_scopes :: "('s \<Rightarrow> 's) \<Rightarrow> ('s \<Rightarrow> 's) \<Rightarrow> scope list \<Rightarrow> 's \<Rightarrow> 's" where
  "run_scope enter leave (Scope bs) s = leave (run_scopes enter leave bs (enter s))"
| "run_scopes enter leave [] s = s"
| "run_scopes enter leave (b # bs) s = run_scopes enter leave bs (run_scope enter leave b s)"

locale scoped_resource =
  fixes enter :: "'t \<Rightarrow> 's \<Rightarrow> 's" and leave :: "'t \<Rightarrow> 's \<Rightarrow> 's"
    and view :: "'s \<Rightarrow> 't \<Rightarrow> 'v" and reliable :: "'s \<Rightarrow> bool"
  assumes neutral: "\<lbrakk>reliable s; view s1 = view (enter t s); reliable s1\<rbrakk> \<Longrightarrow> view (leave t s1) = view s"
    and reliable_enter: "reliable s \<Longrightarrow> reliable (enter t s)"
    and reliable_leave: "reliable s \<Longrightarrow> reliable (leave t s)"
begin

lemma run_neutral:
  "reliable s \<Longrightarrow> reliable (run_scope (enter t) (leave t) b s) \<and> view (run_scope (enter t) (leave t) b s) = view s"
  "reliable s \<Longrightarrow> reliable (run_scopes (enter t) (leave t) bs s) \<and> view (run_scopes (enter t) (leave t) bs s) = view s"
proof (induction "enter t" "leave t" b s and "enter t" "leave t" bs s rule: run_scope_run_scopes.induct)
  case (1 bs s)
  then have "reliable (run_scopes (enter t) (leave t) bs (enter t s))"
    and "view (run_scopes (enter t) (leave t) bs (enter t s)) = view (enter t s)"
    by (auto simp: reliable_enter)
  with 1(2) show ?case by (simp add: neutral reliable_leave)
qed auto

end

text \<open>
  A thread that holds the resource needs nothing of the world for the scopes inside: they leave the trace
  of what was asked of it as it is.
\<close>

locale held_resource = scoped_resource enter leave view reliable
  for enter :: "'t \<Rightarrow> 's \<Rightarrow> 's" and leave :: "'t \<Rightarrow> 's \<Rightarrow> 's" and view :: "'s \<Rightarrow> 't \<Rightarrow> 'v" and reliable :: "'s \<Rightarrow> bool" +
  fixes held :: "'t \<Rightarrow> 's \<Rightarrow> bool" and trace :: "'s \<Rightarrow> 'w"
  assumes held_view: "view s = view s1 \<Longrightarrow> held t s = held t s1"
    and held_enter: "held t s \<Longrightarrow> held t (enter t s)"
    and trace_enter: "held t s \<Longrightarrow> trace (enter t s) = trace s"
    and trace_leave: "\<lbrakk>reliable s; held t s; view s1 = view (enter t s); reliable s1\<rbrakk> \<Longrightarrow> trace (leave t s1) = trace s1"
begin

lemma run_quiet:
  "reliable s \<Longrightarrow> held t s \<Longrightarrow> trace (run_scope (enter t) (leave t) b s) = trace s"
  "reliable s \<Longrightarrow> held t s \<Longrightarrow> trace (run_scopes (enter t) (leave t) bs s) = trace s"
proof (induction "enter t" "leave t" b s and "enter t" "leave t" bs s rule: run_scope_run_scopes.induct)
  case (1 bs s)
  let ?s1 = "run_scopes (enter t) (leave t) bs (enter t s)"
  have "reliable ?s1" "view ?s1 = view (enter t s)"
    using run_neutral(2) [of "enter t s" t bs] 1(2) by (simp_all add: reliable_enter)
  then have "trace (leave t ?s1) = trace ?s1" by (intro trace_leave [OF 1(2,3)]) simp_all
  also have "\<dots> = trace (enter t s)" using 1 by (simp add: reliable_enter held_enter)
  finally show ?case using 1(3) by (simp add: trace_enter)
next
  case (3 b bs s)
  let ?s1 = "run_scope (enter t) (leave t) b s"
  have "reliable ?s1" "view ?s1 = view s" using run_neutral(1) [OF 3(3), of t b] by simp_all
  then have "trace (run_scopes (enter t) (leave t) bs ?s1) = trace ?s1"
    using 3(2) held_view [of ?s1 s t] 3(4) by simp
  then show ?case using 3(1) 3(3,4) by simp
qed simp

end

section \<open>The guard as a scoped resource\<close>

text \<open>
  The state that the interface sees is the library together with the driver.  It is reliable when
  closing a port succeeds and no entry of the map is left over with an exhausted count, which a failed
  close would leave behind.
\<close>

definition close_ok :: "'e ads_lib \<Rightarrow> bool" where
  "close_ok lib \<longleftrightarrow> (\<forall>p e. fst (AdsPortCloseEx lib p e) = 0)"

definition counts_ok :: "'e driver \<Rightarrow> bool" where
  "counts_ok d \<longleftrightarrow> (\<forall>t it. d_clientPorts d t = Some it \<longrightarrow> 0 < cp_liveCount it)"

definition cp_enter :: "nat \<Rightarrow> 'e ads_lib \<times> 'e driver \<Rightarrow> 'e ads_lib \<times> 'e driver" where
  "cp_enter t s = (fst s, snd (addAdsClientPortNumberForThreadId (fst s) t (snd s)))"

definition cp_leave :: "nat \<Rightarrow> 'e ads_lib \<times> 'e driver \<Rightarrow> 'e ads_lib \<times> 'e driver" where
  "cp_leave t s = (fst s, guard_leave (fst s) t (snd s))"

definition cp_view :: "'e ads_lib \<times> 'e driver \<Rightarrow> nat \<Rightarrow> AmsClientPortEntry option" where
  "cp_view s = d_clientPorts (snd s)"

definition cp_reliable :: "'e ads_lib \<times> 'e driver \<Rightarrow> bool" where
  "cp_reliable s \<longleftrightarrow> close_ok (fst s) \<and> counts_ok (snd s)"

lemma add_cases:
  obtains it where "d_clientPorts d t = Some it"
      and "d_clientPorts (snd (addAdsClientPortNumberForThreadId lib t d)) =
             (d_clientPorts d)(t \<mapsto> it\<lparr>cp_liveCount := cp_liveCount it + 1\<rparr>)"
      and "fst (addAdsClientPortNumberForThreadId lib t d) = cp_port it"
  | "d_clientPorts d t = None"
      and "d_clientPorts (snd (addAdsClientPortNumberForThreadId lib t d)) = d_clientPorts d"
      and "fst (addAdsClientPortNumberForThreadId lib t d) = 0"
  | p where "d_clientPorts d t = None" and "\<not> isInvalidPortNumber p"
      and "d_clientPorts (snd (addAdsClientPortNumberForThreadId lib t d)) =
             (d_clientPorts d)(t \<mapsto> \<lparr>cp_port = p, cp_liveCount = 1\<rparr>)"
      and "fst (addAdsClientPortNumberForThreadId lib t d) = p"
proof (cases "d_clientPorts d t")
  case (Some it)
  then show thesis by (intro that(1) [of it]) (simp_all add: addAdsClientPortNumberForThreadId_def)
next
  case None
  obtain p d1 where c: "call (AdsPortOpenEx lib) d = (p, d1)" by fastforce
  then have "d_clientPorts d1 = d_clientPorts d" by (auto simp: call_def split: prod.splits)
  with None c show thesis
    by (cases "isInvalidPortNumber p")
       (auto intro: that(2) that(3) simp: addAdsClientPortNumberForThreadId_def)
qed

lemma leave_map:
  assumes "close_ok lib"
  shows "d_clientPorts (guard_leave lib t d) =
    (case d_clientPorts d t of
       None \<Rightarrow> d_clientPorts d
     | Some it \<Rightarrow> (d_clientPorts d)(t :=
         if cp_liveCount it > 1 then Some (it\<lparr>cp_liveCount := cp_liveCount it - 1\<rparr>) else None))"
  using assms
  by (auto simp: guard_leave_def delAdsClientPortNumberForThreadId_def Let_def call_def close_ok_def
      split: option.splits prod.splits) (metis fst_conv)+

lemma counts_add: "counts_ok d \<Longrightarrow> counts_ok (snd (addAdsClientPortNumberForThreadId lib t d))"
  by (rule add_cases [of d t lib]) (auto simp: counts_ok_def intro: add_pos_pos less_imp_le)

lemma counts_leave: "close_ok lib \<Longrightarrow> counts_ok d \<Longrightarrow> counts_ok (guard_leave lib t d)"
  by (auto simp: counts_ok_def leave_map split: option.splits if_splits)

interpretation client_guard: scoped_resource cp_enter cp_leave cp_view cp_reliable
proof unfold_locales
  fix s s1 :: "'e ads_lib \<times> 'e driver" and t
  assume r: "cp_reliable s" and v: "cp_view s1 = cp_view (cp_enter t s)" and r1: "cp_reliable s1"
  have c: "close_ok (fst s1)" using r1 by (simp add: cp_reliable_def)
  have live: "d_clientPorts (snd s) t = Some it \<Longrightarrow> 0 < cp_liveCount it" for it
    using r by (simp add: cp_reliable_def counts_ok_def)
  show "cp_view (cp_leave t s1) = cp_view s"
    by (rule add_cases [of "snd s" t "fst s"])
       (use v c live in \<open>auto simp: cp_view_def cp_leave_def cp_enter_def leave_map fun_upd_idem\<close>)
next
  fix s :: "'e ads_lib \<times> 'e driver" and t
  assume "cp_reliable s"
  then show "cp_reliable (cp_enter t s)"
    by (simp add: cp_reliable_def cp_enter_def counts_add)
next
  fix s :: "'e ads_lib \<times> 'e driver" and t
  assume "cp_reliable s"
  then show "cp_reliable (cp_leave t s)"
    by (simp add: cp_reliable_def cp_leave_def counts_leave)
qed

lemma scope_lib:
  "fst (run_scope (cp_enter t) (cp_leave t) b s) = fst s" "fst (run_scopes (cp_enter t) (cp_leave t) bs s) = fst s"
  for s :: "'e ads_lib \<times> 'e driver"
  by (induction "cp_enter t :: 'e ads_lib \<times> 'e driver \<Rightarrow> _" "cp_leave t :: 'e ads_lib \<times> 'e driver \<Rightarrow> _" b s
        and "cp_enter t :: 'e ads_lib \<times> 'e driver \<Rightarrow> _" "cp_leave t :: 'e ads_lib \<times> 'e driver \<Rightarrow> _" bs s
      rule: run_scope_run_scopes.induct)
     (simp_all add: cp_enter_def cp_leave_def)

text \<open>What the library was asked is seen in its state.\<close>

definition cp_held :: "nat \<Rightarrow> 'e ads_lib \<times> 'e driver \<Rightarrow> bool" where
  "cp_held t s \<longleftrightarrow> (\<exists>it. d_clientPorts (snd s) t = Some it)"

definition cp_trace :: "'e ads_lib \<times> 'e driver \<Rightarrow> 'e" where
  "cp_trace s = env (snd s)"

lemma leave_inner:
  "d_clientPorts d t = Some it \<Longrightarrow> 1 < cp_liveCount it \<Longrightarrow> env (guard_leave lib t d) = env d"
  by (simp add: guard_leave_def delAdsClientPortNumberForThreadId_def Let_def)

lemma leave_outermost:
  "d_clientPorts d t = Some \<lparr>cp_port = p, cp_liveCount = 1\<rparr> \<Longrightarrow>
     env (guard_leave lib t d) = snd (AdsPortCloseEx lib p (env d))"
  by (cases "AdsPortCloseEx lib p (env d)")
    (simp add: guard_leave_def delAdsClientPortNumberForThreadId_def Let_def call_def)

interpretation client_held: held_resource cp_enter cp_leave cp_view cp_reliable cp_held cp_trace
proof unfold_locales
  fix s s1 :: "'e ads_lib \<times> 'e driver" and t
  show "cp_view s = cp_view s1 \<Longrightarrow> cp_held t s = cp_held t s1" by (simp add: cp_view_def cp_held_def)
  assume h: "cp_held t s"
  then obtain it where it: "d_clientPorts (snd s) t = Some it" by (auto simp: cp_held_def)
  then show "cp_held t (cp_enter t s)" and "cp_trace (cp_enter t s) = cp_trace s"
    by (simp_all add: cp_held_def cp_trace_def cp_enter_def addAdsClientPortNumberForThreadId_def)
  assume r: "cp_reliable s" and v: "cp_view s1 = cp_view (cp_enter t s)"
  have "0 < cp_liveCount it" using r it by (auto simp: cp_reliable_def counts_ok_def)
  moreover have "d_clientPorts (snd s1) t = Some (it\<lparr>cp_liveCount := cp_liveCount it + 1\<rparr>)"
    using v it by (simp add: cp_view_def cp_enter_def addAdsClientPortNumberForThreadId_def)
  ultimately show "cp_trace (cp_leave t s1) = cp_trace s1" by (simp add: cp_trace_def cp_leave_def leave_inner)
qed

section \<open>Properties\<close>

text \<open>
  C6: guards nested in any way by a thread leave the map of client ports, with the entries of all other
  threads, as it was, provided that closing a port succeeds.  A thread that has a port asks nothing of the
  library in its guards: none of them opens another port or closes the one in use.  A thread without a
  port opens one with its outermost guard, and when that port is valid closes it with the same guard, after
  all inner ones, and the library is asked nothing else.
\<close>
theorem client_guards_neutral:
  fixes d :: "'e driver"
  assumes "close_ok lib" and "counts_ok d"
  shows "d_clientPorts (snd (run_scope (cp_enter t) (cp_leave t) b (lib, d))) = d_clientPorts d \<and>
    (t \<in> dom (d_clientPorts d) \<longrightarrow> env (snd (run_scope (cp_enter t) (cp_leave t) b (lib, d))) = env d) \<and>
    (\<forall>p e. t \<notin> dom (d_clientPorts d) \<longrightarrow> AdsPortOpenEx lib (env d) = (p, e) \<longrightarrow> \<not> isInvalidPortNumber p \<longrightarrow>
       env (snd (run_scope (cp_enter t) (cp_leave t) b (lib, d))) = snd (AdsPortCloseEx lib p e))"
proof (intro conjI allI impI)
  have r: "cp_reliable (lib, d)" using assms by (simp add: cp_reliable_def)
  show "d_clientPorts (snd (run_scope (cp_enter t) (cp_leave t) b (lib, d))) = d_clientPorts d"
    using client_guard.run_neutral(1) [OF r, of t b] by (simp add: cp_view_def)
  show "env (snd (run_scope (cp_enter t) (cp_leave t) b (lib, d))) = env d" if "t \<in> dom (d_clientPorts d)"
    using client_held.run_quiet(1) [OF r, of t b] that by (auto simp: cp_held_def cp_trace_def)
  fix p and e :: 'e
  assume t: "t \<notin> dom (d_clientPorts d)" and o: "AdsPortOpenEx lib (env d) = (p, e)" and p: "\<not> isInvalidPortNumber p"
  obtain bs where b: "b = Scope bs" by (cases b)
  define s1 where "s1 = cp_enter t (lib, d)"
  have s1: "env (snd s1) = e" "d_clientPorts (snd s1) t = Some \<lparr>cp_port = p, cp_liveCount = 1\<rparr>" "fst s1 = lib"
    using t o p by (auto simp: s1_def cp_enter_def addAdsClientPortNumberForThreadId_def call_def split: option.split)
  have r1: "cp_reliable s1" unfolding s1_def by (rule client_guard.reliable_enter [OF r])
  define s2 where "s2 = run_scopes (cp_enter t) (cp_leave t) bs s1"
  have "cp_view s2 = cp_view s1" "cp_trace s2 = cp_trace s1"
    unfolding s2_def using client_guard.run_neutral(2) [OF r1, of t bs] client_held.run_quiet(2) [OF r1, of t bs] s1(2)
    by (simp_all add: cp_held_def)
  then have s2: "d_clientPorts (snd s2) t = Some \<lparr>cp_port = p, cp_liveCount = 1\<rparr>" "env (snd s2) = e"
    using s1 by (simp_all add: cp_view_def cp_trace_def)
  have "fst s2 = lib" by (simp add: s2_def scope_lib s1(3))
  then show "env (snd (run_scope (cp_enter t) (cp_leave t) b (lib, d))) = snd (AdsPortCloseEx lib p e)"
    using leave_outermost [OF s2(1), of lib] s2(2) by (simp add: b cp_leave_def flip: s1_def s2_def)
qed

text \<open>A library that counts the ports that it opened and closed, and three nested guards.\<close>

lemma client_guards_neutral_witness:
  "let lib = zero_lib\<lparr>AdsPortOpenEx := \<lambda>e. (30000, (fst e + 1, snd e)), AdsPortCloseEx := \<lambda>p e. (0, (fst e, snd e + 1))\<rparr>;
       d = constructed (0 :: nat, 0 :: nat) [] [] 851 10 True 100 500 1000 ADS_TIME_BASE_EPICS
   in env (snd (run_scope (cp_enter 7) (cp_leave 7) (Scope [Scope [], Scope []]) (lib, d))) = (1, 1)"
proof -
  let ?lib = "zero_lib\<lparr>AdsPortOpenEx := \<lambda>e. (30000, (fst e + 1, snd e)), AdsPortCloseEx := \<lambda>p e. (0, (fst e, snd e + 1))\<rparr>"
  let ?d = "constructed (0 :: nat, 0 :: nat) [] [] 851 10 True 100 500 1000 ADS_TIME_BASE_EPICS"
  have "close_ok ?lib" "counts_ok ?d" "7 \<notin> dom (d_clientPorts ?d)" "env ?d = (0, 0)" "\<not> isInvalidPortNumber 30000"
    by (simp_all add: close_ok_def counts_ok_def constructed_def isInvalidPortNumber_def)
  then show ?thesis
    using client_guards_neutral [of ?lib ?d 7 "Scope [Scope [], Scope []]", THEN conjunct2, THEN conjunct2,
        rule_format, of 30000 "(1, 0)"] by (simp add: close_ok_def del: run_scope.simps run_scopes.simps)
qed

text \<open>
  C37: the port that an entry point works with is a port in use: the one of the calling thread, with
  a positive count, or, when no port could be opened, the default port of thread 0.
\<close>
theorem guard_port_live:
  assumes "guard_enter lib t d = (Some p, d1)" and "counts_ok d"
    and "\<forall>u it. d_clientPorts d u = Some it \<longrightarrow> \<not> isInvalidPortNumber (cp_port it)"
  shows "(\<exists>it. d_clientPorts d1 t = Some it \<and> cp_port it = int p \<and> 0 < cp_liveCount it) \<or>
         (t \<notin> dom (d_clientPorts d1) \<and>
          (\<exists>it. d_clientPorts d1 0 = Some it \<and> p = nat (cp_port it mod 2 ^ 16)))"
proof -
  let ?r = "addAdsClientPortNumberForThreadId lib t d"
  have d1: "d1 = snd ?r" and p: "if isInvalidPortNumber (fst ?r)
      then map_option (\<lambda>q. nat (q mod 2 ^ 16)) (getAdsClientPortNumberForThreadId d1 0) = Some p
      else p = nat (fst ?r)"
    using assms(1) by (auto simp: guard_enter_def split: prod.splits if_splits)
  show ?thesis
  proof (rule add_cases [of d t lib])
    fix it
    assume it: "d_clientPorts d t = Some it" "d_clientPorts (snd ?r) =
             (d_clientPorts d)(t \<mapsto> it\<lparr>cp_liveCount := cp_liveCount it + 1\<rparr>)"
      "fst ?r = cp_port it"
    then have "\<not> isInvalidPortNumber (cp_port it)" "0 < cp_liveCount it"
      using assms(2,3) by (auto simp: counts_ok_def)
    with it p d1 show ?thesis by (auto simp: isInvalidPortNumber_def)
  next
    assume "d_clientPorts d t = None" "d_clientPorts (snd ?r) = d_clientPorts d" "fst ?r = 0"
    with p d1 show ?thesis
      by (auto simp: isInvalidPortNumber_def getAdsClientPortNumberForThreadId_def)
  next
    fix q
    assume "\<not> isInvalidPortNumber q"
      "d_clientPorts (snd ?r) = (d_clientPorts d)(t \<mapsto> \<lparr>cp_port = q, cp_liveCount = 1\<rparr>)"
      "fst ?r = q"
    with p d1 show ?thesis by (auto simp: isInvalidPortNumber_def)
  qed
qed

lemma guard_port_live_witness:
  "\<exists>it. d_clientPorts (snd (guard_enter zero_lib 7 demo_driver)) 7 = Some it \<and> cp_port it = 30000 \<and>
        0 < cp_liveCount it"
proof -
  have "fst (guard_enter zero_lib 7 demo_driver) = Some 30000"
    by (simp add: guard_enter_def addAdsClientPortNumberForThreadId_def call_def zero_lib_def
        demo_driver_def constructed_def isInvalidPortNumber_def)
  then have "guard_enter zero_lib 7 demo_driver = (Some 30000, snd (guard_enter zero_lib 7 demo_driver))"
    by (metis prod.collapse)
  moreover have "counts_ok demo_driver"
    "\<forall>u it. d_clientPorts demo_driver u = Some it \<longrightarrow> \<not> isInvalidPortNumber (cp_port it)"
    by (simp_all add: counts_ok_def demo_driver_def constructed_def)
  moreover have "d_clientPorts (snd (guard_enter zero_lib 7 demo_driver)) 0 = None"
    by (simp add: guard_enter_def addAdsClientPortNumberForThreadId_def call_def zero_lib_def
        demo_driver_def constructed_def isInvalidPortNumber_def)
  ultimately show ?thesis using guard_port_live [of zero_lib 7 demo_driver 30000] by fastforce
qed

text \<open>
  The lookup on its own: a thread with an entry is given the default port instead of its own, and
  one without an entry makes the lookup throw.
\<close>

lemma client_port_lookup:
  "getAdsClientPortNumberForThreadId d t =
     (if t \<in> dom (d_clientPorts d) then map_option cp_port (d_clientPorts d 0) else None)"
  by (auto simp: getAdsClientPortNumberForThreadId_def)

end
