(* ===== verification/Ads_Supervise.thy ===== *)
theory Ads_Supervise
  imports Ads_Bulk Ads_ClientPorts
begin

text \<open>
  Supervision of the connection: the list of AMS ports, invalidation and refresh of parameters,
  connecting, and the round of \<^verbatim>\<open>cyclicThread\<close> that watches the state of every
  port.  A round is one step of a state machine over the driver; the answers of the controllers are those
  of the library.
\<close>

section \<open>The list of AMS ports\<close>

definition new_port :: "('e, 'z) ads_lib_scheme \<Rightarrow> nat \<Rightarrow> amsPortInfo" where
  "new_port lib amsPort =
     \<lparr>port_amsPort = amsPort, port_connectedOld = False, port_connected = False, port_paramsOK = False,
      port_version = (0, 0, 0), port_devName = [],
      port_adsStateOld = sdk lib ''ADSSTATE_MAXSTATES'' + 1,
      port_adsState = sdk lib ''ADSSTATE_MAXSTATES'' + 1, port_paramInfo = None,
      port_hCallbackNotify = 0, port_bCallbackNotifyValid = False, port_refreshNeeded = False\<rparr>"

definition addNewAmsPortToList ::
  "('e, 'z) ads_lib_scheme \<Rightarrow> nat \<Rightarrow> 'e driver \<Rightarrow> asynStatus \<times> 'e driver" where
  "addNewAmsPortToList lib amsPort d =
     (let newAmsPort = \<not> list_ex (\<lambda>port. port_amsPort port = amsPort) (d_amsPortList d)
      in if \<not> newAmsPort then (asynSuccess, d)
         else (asynSuccess, d\<lparr>d_amsPortList := d_amsPortList d @ [new_port lib amsPort]\<rparr>))"

definition getAmsPortObject :: "'e driver \<Rightarrow> nat \<Rightarrow> amsPortInfo option" where
  "getAmsPortObject d amsPort = find (\<lambda>port. port_amsPort port = amsPort) (d_amsPortList d)"

definition isCallbackAllowed_param :: "adsParamInfo \<Rightarrow> bool" where
  "isCallbackAllowed_param p = (\<not> p_refreshNeeded p)"

definition isCallbackAllowed :: "'e driver \<Rightarrow> nat \<Rightarrow> bool" where
  "isCallbackAllowed d amsPort =
     (case find (\<lambda>port. port_amsPort port = amsPort) (d_amsPortList d) of
        Some port \<Rightarrow> port_paramsOK port | None \<Rightarrow> False)"

section \<open>Invalidation and refresh\<close>

definition on_port :: "nat \<Rightarrow> nat \<Rightarrow> bool" where
  "on_port amsPort q \<longleftrightarrow> amsPort = 0 \<or> q = amsPort"

text \<open>The parameters with index 1 to \<^verbatim>\<open>adsParamArrayCount_ - 1\<close> are the registered ones.\<close>

definition map_params :: "(adsParamInfo \<Rightarrow> adsParamInfo) \<Rightarrow> nat \<Rightarrow> adsParamInfo list \<Rightarrow> adsParamInfo list" where
  "map_params f n ps =
     map (\<lambda>(i, p). if 1 \<le> i \<and> i < n then f p else p) (zip [0..<length ps] ps)"

definition invalidate_bulk :: "nat \<Rightarrow> BulkReadInfo list \<Rightarrow> BulkReadInfo list" where
  "invalidate_bulk amsPort bs =
     (let used = takeWhile (\<lambda>b. b_cnt b \<noteq> 0) bs
      in map (\<lambda>b. if on_port amsPort (b_amsPort b) then b\<lparr>b_readSize := 16\<rparr> else b) used @
         drop (length used) bs)"

definition invalidateParams :: "nat \<Rightarrow> 'e driver \<Rightarrow> asynStatus \<times> 'e driver" where
  "invalidateParams amsPort d =
     (asynSuccess,
      d\<lparr>d_bulkOK := False,
        d_params := map_params (\<lambda>p. if on_port amsPort (p_amsPort p) then p\<lparr>p_refreshNeeded := True\<rparr> else p)
          (d_paramCount d) (d_params d),
        d_bulkTS := map (\<lambda>e. if on_port amsPort (ts_amsPort e) then e\<lparr>ts_refreshNeeded := True\<rparr> else e)
          (take (d_bulkTScnt d) (d_bulkTS d)) @ drop (d_bulkTScnt d) (d_bulkTS d),
        d_bulk := invalidate_bulk amsPort (d_bulk d)\<rparr>)"

text \<open>The loop over the parameters: the status of each update is ignored.\<close>

fun refresh_params ::
  "('e, 'z) ads_lib_scheme \<Rightarrow> nat \<Rightarrow> nat \<Rightarrow> nat list \<Rightarrow> 'e driver \<Rightarrow> 'e driver run" where
  "refresh_params lib cp amsPort [] d = Done d"
| "refresh_params lib cp amsPort (i # is) d =
     (let p = d_params d ! i
      in if on_port amsPort (p_amsPort p) \<and> p_refreshNeeded p
         then run_bind (updateParamInfoWithPLCInfo lib cp p d) (\<lambda>(_, p1, d1).
                refresh_params lib cp amsPort is (d1\<lparr>d_params := (d_params d1)[i := p1]\<rparr>))
         else refresh_params lib cp amsPort is d)"

fun refresh_ports ::
  "('e, 'z) ads_lib_scheme \<Rightarrow> nat \<Rightarrow> nat \<Rightarrow> nat list \<Rightarrow> 'e driver \<Rightarrow> 'e driver" where
  "refresh_ports lib cp amsPort [] d = d"
| "refresh_ports lib cp amsPort (k # ks) d =
     (let port = d_amsPortList d ! k
      in if port_amsPort port = amsPort \<and> port_refreshNeeded port
         then
           case (if port_bCallbackNotifyValid port
                 then snd (adsDelSymbolsChangedCallback lib cp port d) else (port, d)) of
             (port1, d1) \<Rightarrow>
               (case adsAddSymbolsChangedCallback lib cp port1 d1 of
                  (_, port2, d2) \<Rightarrow>
                    refresh_ports lib cp amsPort ks (d2\<lparr>d_amsPortList := (d_amsPortList d2)[k := port2]\<rparr>))
         else refresh_ports lib cp amsPort ks d)"

definition refreshParams ::
  "('e, 'z) ads_lib_scheme \<Rightarrow> nat \<Rightarrow> nat \<Rightarrow> 'e driver \<Rightarrow> (asynStatus \<times> 'e driver) run" where
  "refreshParams lib cp amsPort d =
     run_bind (if d_connectedAds d
               then run_bind (refresh_params lib cp amsPort [1..<d_paramCount d] d) (\<lambda>d1.
                      Done (refresh_ports lib cp amsPort [0..<length (d_amsPortList d1)] d1))
               else Done d)
       (\<lambda>d2. Done (asynSuccess, d2\<lparr>d_bulkOK := True\<rparr>))"

text \<open>The callback of the library for a changed symbol version of a port.\<close>

definition adsSymbolsChangedCallback ::
  "('e, 'z) ads_lib_scheme \<Rightarrow> nat \<Rightarrow> nat \<Rightarrow> 'e driver \<Rightarrow> (unit option \<times> 'e driver) run" where
  "adsSymbolsChangedCallback lib self port d0 =
     with_guard lib self (\<lambda>cp d.
       run_bind (refreshParams lib cp port (snd (invalidateParams port d))) (\<lambda>(_, d1). Done ((), d1))) d0"

section \<open>Connecting\<close>

definition connect_body :: "('e, 'z) ads_lib_scheme \<Rightarrow> nat \<Rightarrow> 'e driver \<Rightarrow> asynStatus \<times> 'e driver" where
  "connect_body lib cp d =
     (case adsConnect lib cp d of
        (stat, d1) \<Rightarrow>
          if stat \<noteq> asynSuccess then (asynError, d1)
          else
            case (if ethercatMasterIsAvailable d1 then adsAddEthercatRoute lib d1 else (asynSuccess, d1)) of
              (stat1, d2) \<Rightarrow>
                if stat1 \<noteq> asynSuccess then (asynError, d2)
                else case call (ab_connect lib) d2 of
                       (stat2, d3) \<Rightarrow>
                         if stat2 \<noteq> asynSuccess then (asynError, d3)
                         else (asynSuccess, d3\<lparr>d_connectedAds := True\<rparr>))"

definition connect ::
  "('e, 'z) ads_lib_scheme \<Rightarrow> nat \<Rightarrow> 'e driver \<Rightarrow> (asynStatus option \<times> 'e driver) run" where
  "connect lib self d0 = with_guard lib self (\<lambda>cp d. Done (connect_body lib cp d)) d0"

definition disconnect :: "('e, 'z) ads_lib_scheme \<Rightarrow> 'e driver \<Rightarrow> asynStatus \<times> 'e driver" where
  "disconnect lib d =
     (case call (ab_disconnect lib) d of (stat, d1) \<Rightarrow> (if stat \<noteq> asynSuccess then asynError else asynSuccess, d1))"

section \<open>One round of the cyclic thread\<close>

definition set_port :: "nat \<Rightarrow> amsPortInfo \<Rightarrow> 'e driver \<Rightarrow> 'e driver" where
  "set_port k port d = d\<lparr>d_amsPortList := (d_amsPortList d)[k := port]\<rparr>"

text \<open>The state of one port: read, compared with the last round, refreshed or invalidated.\<close>

definition note_state ::
  "('e, 'z) ads_lib_scheme \<Rightarrow> asynStatus \<Rightarrow> nat \<Rightarrow> amsPortInfo \<Rightarrow> amsPortInfo" where
  "note_state lib stat adsState port =
     (let portConnected = (stat = asynSuccess \<and> int adsState = sdk lib ''ADSSTATE_RUN'')
      in port\<lparr>port_adsStateOld := port_adsState port,
              port_adsState := (if stat = asynSuccess then int adsState else sdk lib ''ADSSTATE_INVALID''),
              port_connectedOld := port_connected port,
              port_connected := portConnected,
              port_paramsOK := portConnected\<rparr>)"

definition port_lost :: "('e, 'z) ads_lib_scheme \<Rightarrow> nat \<Rightarrow> 'e driver \<Rightarrow> 'e driver" where
  "port_lost lib k d =
     (let amsPort = port_amsPort (d_amsPortList d ! k);
          d1 = snd (invalidateParams amsPort d);
          d2 = set_port k ((d_amsPortList d1 ! k)\<lparr>port_refreshNeeded := True\<rparr>) d1
      in snd (setAlarmPort lib amsPort (sdk lib ''COMM_ALARM'') (sdk lib ''INVALID_ALARM'') d2))"

definition cyclic_port ::
  "('e, 'z) ads_lib_scheme \<Rightarrow> nat \<Rightarrow> nat \<Rightarrow> 'e driver \<Rightarrow> (bool \<times> 'e driver) run" where
  "cyclic_port lib cp k d =
     (let amsPort = port_amsPort (d_amsPortList d ! k)
      in case adsReadState lib cp amsPort d of
           ((stat, adsState, _), d1) \<Rightarrow>
             let port = note_state lib stat adsState (d_amsPortList d1 ! k);
                 d2 = set_port k port d1
             in run_bind (if port_connected port \<and> port_refreshNeeded port
                          then run_bind (refreshParams lib cp amsPort d2) (\<lambda>(_, d'). Done d') else Done d2)
                  (\<lambda>d3.
                     let d4 = (if port_connectedOld port \<and> \<not> port_connected port then port_lost lib k d3 else d3);
                         d5 = (if \<not> port_connectedOld port \<and> port_connected port
                               then (case adsReadVersion lib cp (d_amsPortList d4 ! k) d4 of
                                       (_, port', d') \<Rightarrow> set_port k port' d')
                               else d4)
                     in Done (port_connected port, d5)))"

fun cyclic_ports ::
  "('e, 'z) ads_lib_scheme \<Rightarrow> nat \<Rightarrow> nat list \<Rightarrow> bool \<Rightarrow> 'e driver \<Rightarrow> (bool \<times> 'e driver) run" where
  "cyclic_ports lib cp [] one d = Done (one, d)"
| "cyclic_ports lib cp (k # ks) one d =
     run_bind (cyclic_port lib cp k d) (\<lambda>(portConnected, d1). cyclic_ports lib cp ks (one \<or> portConnected) d1)"

text \<open>The parameter that stands for the state of a port is updated when the state changed.\<close>

fun publish_states ::
  "('e, 'z) ads_lib_scheme \<Rightarrow> nat list \<Rightarrow> 'e driver \<Rightarrow> 'e driver run" where
  "publish_states lib [] d = Done d"
| "publish_states lib (k # ks) d =
     (let port = d_amsPortList d ! k
      in case port_paramInfo port of
           None \<Rightarrow> publish_states lib ks d
         | Some i \<Rightarrow>
             if port_adsStateOld port \<noteq> port_adsState port \<and>
                p_dataSource (d_params d ! i) = ADS_DATASOURCE_AMS_STATE
             then run_bind (adsUpdateParameter lib i (d_params d ! i)
                              (Some (le_bytes_int 4 (port_adsState port))) 2 d) (\<lambda>(_, p1, d1).
                    publish_states lib ks (d1\<lparr>d_params := (d_params d1)[i := p1]\<rparr>))
             else publish_states lib ks d)"

datatype cycle_end = Cycle_next | Cycle_break | Cycle_exit

definition count_connection :: "bool \<Rightarrow> int \<Rightarrow> int" where
  "count_connection oneAmsConnectionOK n = (if oneAmsConnectionOK then 0 else n + 1)"

text \<open>The end of a round: giving up, or the attempt to reconnect.\<close>

definition cyclic_finish ::
  "('e, 'z) ads_lib_scheme \<Rightarrow> nat \<Rightarrow> bool \<Rightarrow> 'e driver \<Rightarrow> (cycle_end \<times> 'e driver) run" where
  "cyclic_finish lib self oneAmsConnectionOK d =
     (let d1 = d\<lparr>d_notConnectedCounter := count_connection oneAmsConnectionOK (d_notConnectedCounter d)\<rparr>
      in if d_notConnectedCounter d1 > 1 then Done (Cycle_exit, d1)
         else
           run_bind (if \<not> oneAmsConnectionOK \<and> d_autoConnect d1
                     then (let d2 = d1\<lparr>d_connectedAds := False\<rparr>
                           in if d_notConnectedCounter d2 div 2 mod 2 = 1
                              then run_bind (connect lib self (snd (disconnect lib d2))) (\<lambda>(_, d'). Done d')
                              else Done d2)
                     else Done d1)
             (\<lambda>d3. Done (Cycle_next, d3\<lparr>d_oneAmsConnectionOKold := oneAmsConnectionOK\<rparr>)))"

text \<open>
  One round, after the sleep.  \<open>allow\<close> is the flag that EPICS has started; \<open>cp\<close> is the
  client port of the thread \<open>self\<close>.
\<close>

definition cyclicThread_round ::
  "('e, 'z) ads_lib_scheme \<Rightarrow> nat \<Rightarrow> nat \<Rightarrow> bool \<Rightarrow> 'e driver \<Rightarrow> (cycle_end \<times> 'e driver) run" where
  "cyclicThread_round lib self cp allow d =
     (if d_stopThreads d then Done (Cycle_break, d)
      else if \<not> allow then Done (Cycle_next, d)
      else
        run_bind (cyclic_ports lib cp [0..<length (d_amsPortList d)] False d) (\<lambda>(one, d1).
        run_bind (publish_states lib [0..<length (d_amsPortList d1)] d1) (\<lambda>d2.
          cyclic_finish lib self one d2)))"

end
