(* ===== verification/Ads_Frames.thy ===== *)
theory Ads_Frames
  imports Ads_Supervise
begin

text \<open>
  What the operations of the driver leave alone.  The relation \<open>keep\<close> collects the members that
  only a few operations may change: the connection flags and counters, the client ports, the tables'
  sizes and the AMS ports.  It is a preorder, every request of the library keeps them, and so does
  every operation that is composed of such requests; the facts are in the collection
  \<open>keep_intros\<close>.
\<close>

section \<open>The identity of a parameter\<close>

text \<open>Completing a parameter changes neither its link nor its index.\<close>

definition same_id :: "adsParamInfo \<Rightarrow> adsParamInfo \<Rightarrow> bool" where
  "same_id p p' \<longleftrightarrow> p_drvInfo p' = p_drvInfo p \<and> p_paramIndex p' = p_paramIndex p"

lemma same_id_trans: "same_id p p1 \<Longrightarrow> same_id p1 p2 \<Longrightarrow> same_id p p2"
  by (simp add: same_id_def)

text \<open>Most operations keep its AMS port and its place in the bulk requests, too.\<close>

definition same_slot :: "adsParamInfo \<Rightarrow> adsParamInfo \<Rightarrow> bool" where
  "same_slot p p' \<longleftrightarrow> same_id p p' \<and> p_amsPort p' = p_amsPort p \<and>
     p_bulkIndex p' = p_bulkIndex p \<and> p_bulkOffset p' = p_bulkOffset p"

lemma same_slot_trans: "same_slot p p1 \<Longrightarrow> same_slot p1 p2 \<Longrightarrow> same_slot p p2"
  by (auto simp: same_slot_def intro: same_id_trans)

lemma slot_id: "same_slot p p' \<Longrightarrow> same_id p p'"
  by (simp add: same_slot_def)

lemmas slot_defs = same_slot_def same_id_def

lemma slot_alarm: "setAlarmParam lib p a s d = (st, p', d') \<Longrightarrow> same_slot p p'"
  by (drule setAlarmParam_frame) (auto simp: alarm_frame_def slot_defs elim: ssubst)

lemma slot_update: "adsUpdateParameter lib i p data n d = Done (st, p', d') \<Longrightarrow> same_slot p p'"
  by (erule update_outcome) (simp add: slot_defs)

lemma slot_syminfo: "adsGetSymInfoByName lib cp p d = (st, p', d') \<Longrightarrow> same_slot p p'"
  by (auto simp: adsGetSymInfoByName_def slot_defs split: prod.splits if_splits)

lemma slot_symhandle: "adsGetSymHandleByName lib cp p d = (st, p', d') \<Longrightarrow> same_slot p p'"
  by (auto simp: adsGetSymHandleByName_def slot_defs split: prod.splits if_splits)

lemma slot_release: "adsReleaseSymbolicHandle lib cp p b d = (st, p', d') \<Longrightarrow> same_slot p p'"
  by (auto simp: adsReleaseSymbolicHandle_def Let_def slot_defs split: prod.splits)

lemma slot_address: "param_address lib cp p d = (r, p', d') \<Longrightarrow> same_slot p p'"
  by (auto simp: param_address_def slot_defs split: prod.splits if_splits
      dest!: slot_syminfo slot_symhandle)

lemma slot_add_data: "adsAddDataCallback lib cp p d = (st, p', d') \<Longrightarrow> same_slot p p'"
  by (auto simp: adsAddDataCallback_def Let_def slot_defs split: prod.splits option.splits if_splits
      dest!: slot_address)

lemma slot_del_data: "adsDelDataCallback lib cp p d = (st, p', d') \<Longrightarrow> same_slot p p'"
  by (auto simp: adsDelDataCallback_def slot_defs split: prod.splits)

lemma slot_alloc: "alloc_array lib p d = (r, p') \<Longrightarrow> same_slot p p' \<and> (\<forall>q. r = Some q \<longrightarrow> same_slot p q)"
  by (auto simp: alloc_array_def Let_def slot_defs split: if_splits)

lemmas id_alarm = slot_alarm [THEN slot_id] and id_update = slot_update [THEN slot_id]

text \<open>
  Completing a parameter is a sequence of requests and changes of the parameter that keep its place,
  and of one subscription: a relation that all of these have relates the ends.
\<close>

lemma update_info_rule:
  fixes d :: "'e driver"
  assumes op: "updateParamInfoWithPLCInfo lib cp p d = Done (stat, p', d')"
    and trans: "\<And>p d p1 d1 p2 d2. R p d p1 d1 \<Longrightarrow> R p1 d1 p2 d2 \<Longrightarrow> R p d p2 d2"
    and slot: "\<And>p q d. same_slot p q \<Longrightarrow> R p d q d"
    and info: "\<And>p d st p' d'. adsGetSymInfoByName lib cp p d = (st, p', d') \<Longrightarrow> R p d p' d'"
    and handle: "\<And>p d st p' d'. adsGetSymHandleByName lib cp p d = (st, p', d') \<Longrightarrow> R p d p' d'"
    and release: "\<And>p d st p' d'. adsReleaseSymbolicHandle lib cp p True d = (st, p', d') \<Longrightarrow> R p d p' d'"
    and sub: "\<And>p d st p' d'. subscribe lib cp p d = Done (st, p', d') \<Longrightarrow> R p d p' (d' :: 'e driver)"
  shows "R p d p' d'"
proof (cases "p_dataSource p = ADS_DATASOURCE_PLC")
  case False
  with op show ?thesis by (auto simp: updateParamInfoWithPLCInfo_def slot_defs intro: slot)
next
  case True
  let ?part1 = "case dict_entry p d of
       Some e \<Rightarrow> (asynSuccess, p\<lparr>p_plcDataType := e_adst e, p_plcSize := e_size e,
                         p_hSymbolicHandle := e_handle e, p_bSymbolicHandleValid := True\<rparr>, d)
     | None \<Rightarrow> if p_isAdrCommand p then (asynSuccess, p, d) else adsGetSymInfoByName lib cp p d"
  obtain s1 p1 d1 where 1: "?part1 = (s1, p1, d1)" by (cases ?part1) auto
  then have k1: "R p d p1 d1"
    by (auto simp: slot_defs split: option.splits if_splits intro: slot info)
  let ?p2 = "p1\<lparr>p_plcDataIsArray := is_array p1\<rparr>"
  let ?part2 = "if is_array p1 then alloc_array lib ?p2 d1 else (Some ?p2, ?p2)"
  obtain r p3 where 2: "?part2 = (r, p3)" by (cases ?part2) auto
  have "same_slot p1 ?p2" by (simp add: slot_defs)
  then have k2: "R p d p3 d1" "r = Some q \<Longrightarrow> R p d q d1" for q
    using 2 by (auto split: if_splits dest!: slot_alloc intro!: trans [OF k1] slot intro: same_slot_trans)
  note unfold = updateParamInfoWithPLCInfo_def Let_def
  show ?thesis
  proof (cases "s1 = asynSuccess \<and> r \<noteq> None")
    case False
    then show ?thesis using op True 1 2 k1 k2(1) by (auto simp: unfold split: if_splits)
  next
    case ok: True
    then obtain q where q: "r = Some q" by auto
    let ?part3 = "if p_isAdrCommand q \<or> dict_entry p d \<noteq> None then (asynSuccess, q, d1)
              else case adsReleaseSymbolicHandle lib cp q True d1 of
                     (_, p', d') \<Rightarrow> adsGetSymHandleByName lib cp p' d'"
    obtain s3 p4 d2 where 3: "?part3 = (s3, p4, d2)" by (cases ?part3) auto
    have "R q d1 p4 d2"
      using 3 by (auto simp: slot_defs split: if_splits prod.splits intro: slot trans [OF release handle])
    with k2(2) [OF q] have k3: "R p d p4 d2" by (rule trans)
    have eq: "updateParamInfoWithPLCInfo lib cp p d =
          (if s3 \<noteq> asynSuccess then Done (asynError, p4, d2)
           else run_bind (subscribe lib cp p4 d2) (\<lambda>(status3, p5, d3).
                  if status3 \<noteq> asynSuccess then Done (asynError, p5, d3)
                  else Done (asynSuccess, p5\<lparr>p_refreshNeeded := False\<rparr>, d3)))"
      using True 1 ok 2 q 3 by (simp only: unfold simp_thms if_False case_prod_conv option.case)
    show ?thesis
    proof (cases "s3 = asynSuccess")
      case False
      then show ?thesis using op eq k3 by simp
    next
      case True
      then obtain s4 p5 where s: "subscribe lib cp p4 d2 = Done (s4, p5, d')"
        and p': "p' = p5 \<or> p' = p5\<lparr>p_refreshNeeded := False\<rparr>"
        using op eq by (auto simp: run_bind_Done_iff split: if_splits)
      have "R p d p5 d'" by (rule trans [OF k3 sub [OF s]])
      moreover have "R p5 d' p' d'" using p' by (auto simp: slot_defs intro: slot)
      ultimately show ?thesis by (rule trans)
    qed
  qed
qed

lemma id_add_bulk: "adsAddToBulkRead lib cp p d = Done (st, p', d') \<Longrightarrow> same_id p p'"
  by (auto simp: adsAddToBulkRead_def assign_slot_def Let_def same_id_def run_bind_Done_iff
      split: if_splits option.splits)

lemma id_subscribe: "subscribe lib cp p d = Done (st, p', d') \<Longrightarrow> same_id p p'"
  by (auto simp: subscribe_def split: if_splits prod.splits
      dest!: id_add_bulk slot_del_data slot_add_data intro: same_id_trans slot_id) (auto simp: same_id_def)

lemma id_update_info: "updateParamInfoWithPLCInfo lib cp p d = Done (st, p', d') \<Longrightarrow> same_id p p'"
  by (erule update_info_rule [where R = "\<lambda>p d p' d'. same_id p p'"])
     (auto intro: same_id_trans slot_id slot_syminfo slot_symhandle slot_release id_subscribe)

section \<open>What is kept\<close>

named_theorems keep_intros

definition keep :: "'e driver \<Rightarrow> 'e driver \<Rightarrow> bool" where
  "keep d d' \<longleftrightarrow>
     d_connectedAds d' = d_connectedAds d \<and> d_notConnectedCounter d' = d_notConnectedCounter d \<and>
     d_oneAmsConnectionOKold d' = d_oneAmsConnectionOKold d \<and> d_autoConnect d' = d_autoConnect d \<and>
     d_stopThreads d' = d_stopThreads d \<and> d_clientPorts d' = d_clientPorts d \<and>
     d_paramCount d' = d_paramCount d \<and> length (d_params d') = length (d_params d) \<and>
     map (\<lambda>p. (p_drvInfo p, p_paramIndex p)) (d_params d') = map (\<lambda>p. (p_drvInfo p, p_paramIndex p)) (d_params d) \<and>
     d_createdParamsMap d' = d_createdParamsMap d \<and> d_paramTableSize d' = d_paramTableSize d \<and>
     d_octetAsciiBuffer d' = d_octetAsciiBuffer d \<and> d_datacbqueue d' = d_datacbqueue d \<and>
     map port_amsPort (d_amsPortList d') = map port_amsPort (d_amsPortList d) \<and>
     map port_paramInfo (d_amsPortList d') = map port_paramInfo (d_amsPortList d)"

lemma keep_refl [simp, intro]: "keep d d"
  by (simp add: keep_def)

lemma keep_trans [trans]: "keep d d1 \<Longrightarrow> keep d1 d2 \<Longrightarrow> keep d d2"
  by (simp add: keep_def)

lemma keep_env: "env_frame d d' \<Longrightarrow> keep d d'"
  by (elim env_frameE) (simp add: keep_def)

lemma keep_ecat: "ecat_frame d d' \<Longrightarrow> keep d d'"
  unfolding ecat_frame_def by (erule ssubst) (simp add: keep_def)

lemma keep_updates [simp]:
  "keep d (d\<lparr>d_bulkOK := x\<rparr>)" "keep d (d\<lparr>d_bulk := y\<rparr>)" "keep d (d\<lparr>d_bulkTS := z\<rparr>)"
  "keep d (d\<lparr>d_bulkTScnt := n\<rparr>)"
  "keep d (d\<lparr>d_routeAdded := w\<rparr>)" "keep d (d\<lparr>env := e\<rparr>)"
  by (simp_all add: keep_def)

lemma keep_set_param:
  assumes "same_id (d_params d ! i) p"
  shows "keep d (d\<lparr>d_params := (d_params d)[i := p]\<rparr>)"
proof -
  let ?f = "\<lambda>p. (p_drvInfo p, p_paramIndex p)"
  have "map ?f ((d_params d)[i := p]) = (map ?f (d_params d))[i := ?f p]" by (rule map_update)
  also have "\<dots> = map ?f (d_params d)"
    using assms by (cases "i < length (d_params d)") (auto simp: same_id_def list_update_same_conv list_update_beyond)
  finally show ?thesis by (simp add: keep_def)
qed

text \<open>A parameter that is completed or updated and put back.\<close>

lemma keep_put_back:
  assumes "keep d d1" and "d_params d1 = d_params d" and "same_id (d_params d ! i) p"
  shows "keep d (d1\<lparr>d_params := (d_params d1)[i := p]\<rparr>)"
  using assms(1) keep_set_param [of d1 i p] assms(2,3) by (auto intro: keep_trans)

text \<open>A port keeps its number and its pointer to a parameter.\<close>

definition same_port :: "amsPortInfo \<Rightarrow> amsPortInfo \<Rightarrow> bool" where
  "same_port q port \<longleftrightarrow> port_amsPort port = port_amsPort q \<and> port_paramInfo port = port_paramInfo q"

lemma same_port_refl [simp]: "same_port q q"
  by (simp add: same_port_def)

lemma same_port_trans: "same_port q q1 \<Longrightarrow> same_port q1 q2 \<Longrightarrow> same_port q q2"
  by (simp add: same_port_def)

lemma keep_set_port:
  "same_port (d_amsPortList d ! k) port \<Longrightarrow> keep d (set_port k port d)"
  unfolding same_port_def by (cases "k < length (d_amsPortList d)")
     (auto simp: keep_def set_port_def list_eq_iff_nth_eq nth_list_update)

text \<open>
  The requests of the library keep more: the parameters themselves.
\<close>

definition keep_table :: "'e driver \<Rightarrow> 'e driver \<Rightarrow> bool" where
  "keep_table d d' \<longleftrightarrow> keep d d' \<and> d_params d' = d_params d"

lemma table_keep: "keep_table d d' \<Longrightarrow> keep d d'"
  by (simp add: keep_table_def)

lemma table_refl [simp, intro]: "keep_table d d"
  by (simp add: keep_table_def)

lemma table_trans [trans]: "keep_table d d1 \<Longrightarrow> keep_table d1 d2 \<Longrightarrow> keep_table d d2"
  unfolding keep_table_def by (metis keep_trans)

lemma table_updates [simp]:
  "keep_table d (d\<lparr>d_bulkOK := x\<rparr>)" "keep_table d (d\<lparr>d_bulk := y\<rparr>)" "keep_table d (d\<lparr>d_bulkTS := z\<rparr>)"
  "keep_table d (d\<lparr>d_bulkTScnt := n\<rparr>)" "keep_table d (d\<lparr>d_routeAdded := w\<rparr>)" "keep_table d (d\<lparr>env := e\<rparr>)"
  by (simp_all add: keep_table_def)

lemma table_call: "call f d = (r, d') \<Longrightarrow> keep_table d d'"
  by (auto simp: call_def split: prod.splits)

lemma table_env: "env_frame d d' \<Longrightarrow> keep_table d d'"
  by (elim env_frameE) (simp add: keep_table_def keep_def)

lemma table_alarm: "setAlarmParam lib p a s d = (stat, p', d') \<Longrightarrow> keep_table d d'"
  by (drule setAlarmParam_frame) (simp add: table_env)

lemma table_update:
  "adsUpdateParameter lib i p data n d = Done (stat, p', d') \<Longrightarrow> keep_table d d'"
  by (erule update_outcome) (simp add: keep_table_def keep_def)

section \<open>Requests\<close>

lemma table_syminfo: "adsGetSymInfoByName lib cp p d = (stat, p', d') \<Longrightarrow> keep_table d d'"
  by (auto simp: adsGetSymInfoByName_def adsGetSymInfoByName_entry_def Let_def
      split: prod.splits if_splits dest!: table_call)

lemma table_symhandle: "adsGetSymHandleByName lib cp p d = (stat, p', d') \<Longrightarrow> keep_table d d'"
  by (auto simp: adsGetSymHandleByName_def split: prod.splits if_splits dest!: table_call)

lemma table_release: "adsReleaseSymbolicHandle lib cp p b d = (stat, p', d') \<Longrightarrow> keep_table d d'"
  by (auto simp: adsReleaseSymbolicHandle_def Let_def split: prod.splits if_splits dest!: table_call)

lemma table_address: "param_address lib cp p d = (r, p', d') \<Longrightarrow> keep_table d d'"
  by (auto simp: param_address_def split: prod.splits if_splits dest!: table_syminfo table_symhandle)
     (meson table_trans)+

lemma table_add_data: "adsAddDataCallback lib cp p d = (stat, p', d') \<Longrightarrow> keep_table d d'"
  by (auto simp: adsAddDataCallback_def Let_def split: prod.splits option.splits if_splits
      dest!: table_address table_call) (meson table_trans)+

lemma table_del_data: "adsDelDataCallback lib cp p d = (stat, p', d') \<Longrightarrow> keep_table d d'"
  by (auto simp: adsDelDataCallback_def split: prod.splits dest!: table_call)

lemma table_add_symbols:
  "adsAddSymbolsChangedCallback lib cp port d = (stat, port', d') \<Longrightarrow>
     keep_table d d' \<and> same_port port port'"
  by (auto simp: adsAddSymbolsChangedCallback_def Let_def same_port_def split: prod.splits if_splits dest!: table_call)

lemma table_del_symbols:
  "adsDelSymbolsChangedCallback lib cp port d = (stat, port', d') \<Longrightarrow>
     keep_table d d' \<and> same_port port port'"
  by (auto simp: adsDelSymbolsChangedCallback_def same_port_def split: prod.splits dest!: table_call)

lemma table_version:
  "adsReadVersion lib cp port d = (stat, port', d') \<Longrightarrow>
     keep_table d d' \<and> same_port port port'"
  by (auto simp: adsReadVersion_def same_port_def split: prod.splits if_splits dest!: table_call)

lemma table_state: "adsReadState lib cp n d = (r, d') \<Longrightarrow> keep_table d d'"
  by (auto simp: adsReadState_def split: prod.splits dest!: table_call)

section \<open>Bulk reads and refresh\<close>

lemma table_two_calls:
  assumes "(case call f d of ((sH, bH, x), d2) \<Rightarrow>
      case call g d2 of ((sL, bL, y), d3) \<Rightarrow> Done (r, d3\<lparr>d_bulkTS := u d3 sH bH sL bL\<rparr>)) = Done (j, d')"
  shows "keep_table d d'"
proof -
  obtain sH bH x d2 where 1: "call f d = ((sH, bH, x), d2)" by (metis prod.exhaust)
  obtain sL bL y d3 where 2: "call g d2 = ((sL, bL, y), d3)" by (metis prod.exhaust)
  have "keep_table d3 d'" using assms 1 2 by auto
  with table_call [OF 1] table_call [OF 2] show ?thesis by (meson table_trans)
qed

lemma table_find_ts:
  assumes "adsFindBulkTimeStamp lib cp n d = Done (j, d')"
  shows "keep_table d d'"
proof -
  define i where "i = first_index (\<lambda>e. n = ts_amsPort e) (take (d_bulkTScnt d) (d_bulkTS d))"
  define d1 where "d1 = (if i = d_bulkTScnt d
       then d\<lparr>d_bulkTScnt := d_bulkTScnt d + 1,
              d_bulkTS := (d_bulkTS d)[i := (d_bulkTS d ! i)\<lparr>ts_amsPort := n, ts_refreshNeeded := True\<rparr>]\<rparr>
       else d)"
  have k: "keep_table d d1" by (simp add: d1_def keep_table_def keep_def)
  show ?thesis
  proof (cases "ts_refreshNeeded (d_bulkTS d1 ! i)")
    case False
    with assms k show ?thesis
      unfolding adsFindBulkTimeStamp_def Let_def i_def [symmetric] d1_def [symmetric] by (simp split: if_splits)
  next
    case True
    have inside: "\<not> (i = d_bulkTScnt d \<and> length (d_bulkTS d) \<le> i)"
      using assms unfolding adsFindBulkTimeStamp_def Let_def i_def [symmetric] by auto
    have "keep_table d1 d'"
      using assms unfolding adsFindBulkTimeStamp_def Let_def i_def [symmetric] d1_def [symmetric]
        if_not_P [OF inside] if_not_P [of "\<not> ts_refreshNeeded (d_bulkTS d1 ! i)", OF not_not [THEN iffD2, OF True]]
      by (rule table_two_calls)
    with k show ?thesis by (rule table_trans)
  qed
qed

lemma table_set_bulk [simp]: "keep_table d (set_bulk i b d)"
  by (simp add: set_bulk_def)

lemma table_assign: "assign_slot lib cp p d = Done (r, d') \<Longrightarrow> keep_table d d'"
  by (auto simp: assign_slot_def Let_def run_bind_Done_iff split: if_splits dest!: table_find_ts)
     (meson table_trans table_set_bulk)+

lemma table_fill: "fill_slot lib p d = Done d' \<Longrightarrow> keep_table d d'"
  by (auto simp: fill_slot_def Let_def split: if_splits)

lemma table_add_bulk:
  assumes "adsAddToBulkRead lib cp p d = Done (stat, p', d')"
  shows "keep_table d d'"
proof -
  obtain r d1 where 1: "(if p_bulkIndex p < 0 then assign_slot lib cp p d else Done (Some p, d)) = Done (r, d1)"
    and 2: "(case r of None \<Rightarrow> Done (asynError, p, d1)
      | Some p1 \<Rightarrow> run_bind (fill_slot lib p1 d1) (\<lambda>d2. Done (asynSuccess, p1, d2))) = Done (stat, p', d')"
    using assms unfolding adsAddToBulkRead_def run_bind_Done_iff by auto
  have "keep_table d d1" using 1 by (auto split: if_splits dest: table_assign)
  moreover have "keep_table d1 d'"
    using 2 by (auto simp: run_bind_Done_iff split: option.splits dest: table_fill)
  ultimately show ?thesis by (rule table_trans)
qed

lemma table_subscribe: "subscribe lib cp p d = Done (stat, p', d') \<Longrightarrow> keep_table d d'"
  by (auto simp: subscribe_def split: if_splits prod.splits
      dest!: table_add_bulk table_del_data table_add_data) (meson table_trans)+

text \<open>The two parts of the update in front of the subscription.\<close>

lemma table_info_part:
  assumes "(case dict of
       Some e \<Rightarrow> (asynSuccess, q e, d)
     | None \<Rightarrow> if p_isAdrCommand p then (asynSuccess, p, d) else adsGetSymInfoByName lib cp p d) = (status, p1, d1)"
  shows "keep_table d d1"
  using assms by (auto split: option.splits if_splits dest!: table_syminfo)

lemma table_handle_part:
  assumes "(if b then (asynSuccess, p, d)
       else case adsReleaseSymbolicHandle lib cp p True d of
              (_, p', d') \<Rightarrow> adsGetSymHandleByName lib cp p' d') = (status, p1, d1)"
  shows "keep_table d d1"
  using assms by (auto split: if_splits prod.splits dest!: table_release table_symhandle) (meson table_trans)+

lemma update_info_steps:
  assumes "updateParamInfoWithPLCInfo lib cp p d = Done (stat, p', d')"
  obtains (local) "p_dataSource p \<noteq> ADS_DATASOURCE_PLC" and "stat = asynSuccess"
      and "p' = p\<lparr>p_refreshNeeded := False\<rparr>" and "d' = d"
    | (failed) "stat = asynError" and "keep_table d d'"
    | (subscribed) p4 d2 p5 where "keep_table d d2" and "subscribe lib cp p4 d2 = Done (asynSuccess, p5, d')"
      and "stat = asynSuccess" and "p' = p5\<lparr>p_refreshNeeded := False\<rparr>"
proof (cases "p_dataSource p = ADS_DATASOURCE_PLC")
  case False
  with assms show thesis by (intro local) (simp_all add: updateParamInfoWithPLCInfo_def)
next
  case True
  let ?part1 = "case dict_entry p d of
       Some e \<Rightarrow> (asynSuccess, p\<lparr>p_plcDataType := e_adst e, p_plcSize := e_size e,
                        p_hSymbolicHandle := e_handle e, p_bSymbolicHandleValid := True\<rparr>, d)
     | None \<Rightarrow> if p_isAdrCommand p then (asynSuccess, p, d) else adsGetSymInfoByName lib cp p d"
  obtain status p1 d1 where part1: "?part1 = (status, p1, d1)" by (cases ?part1) auto
  then have k1: "keep_table d d1" by (rule table_info_part)
  note unfold = updateParamInfoWithPLCInfo_def Let_def
  show thesis
  proof (cases "status = asynSuccess")
    case False
    with assms True part1 k1 show thesis by (intro failed) (auto simp: unfold)
  next
    case st: True
    let ?p2 = "p1\<lparr>p_plcDataIsArray := is_array p1\<rparr>"
    let ?part2 = "if is_array p1 then alloc_array lib ?p2 d1 else (Some ?p2, ?p2)"
    obtain r p3 where part2: "?part2 = (r, p3)" by (cases ?part2) auto
    show thesis
    proof (cases r)
      case None
      with assms True part1 st part2 k1 show thesis by (intro failed) (auto simp: unfold)
    next
      case (Some p3')
      let ?part3 = "if p_isAdrCommand p3' \<or> dict_entry p d \<noteq> None then (asynSuccess, p3', d1)
              else case adsReleaseSymbolicHandle lib cp p3' True d1 of
                     (_, p', d') \<Rightarrow> adsGetSymHandleByName lib cp p' d'"
      obtain status2 p4 d2 where part3: "?part3 = (status2, p4, d2)" by (cases ?part3) auto
      then have k2: "keep_table d1 d2" by (rule table_handle_part)
      have eq: "updateParamInfoWithPLCInfo lib cp p d =
          (if status2 \<noteq> asynSuccess then Done (asynError, p4, d2)
           else run_bind (subscribe lib cp p4 d2) (\<lambda>(status3, p5, d3).
                  if status3 \<noteq> asynSuccess then Done (asynError, p5, d3)
                  else Done (asynSuccess, p5\<lparr>p_refreshNeeded := False\<rparr>, d3)))"
        using True part1 st part2 Some part3
        by (simp only: unfold simp_thms if_False case_prod_conv option.case)
      show thesis
      proof (cases "status2 = asynSuccess")
        case False
        with assms eq table_trans [OF k1 k2] show thesis by (intro failed) simp_all
      next
        case True
        with assms eq obtain status3 p5 where sub: "subscribe lib cp p4 d2 = Done (status3, p5, d')"
            "if status3 \<noteq> asynSuccess then stat = asynError
             else stat = asynSuccess \<and> p' = p5\<lparr>p_refreshNeeded := False\<rparr>"
          by (auto simp: run_bind_Done_iff split: if_splits)
        show thesis
        proof (cases "status3 = asynSuccess")
          case False
          with sub table_trans [OF table_trans [OF k1 k2] table_subscribe [OF sub(1)]] show thesis
            by (intro failed) simp_all
        next
          case True
          with sub table_trans [OF k1 k2] show thesis by (intro subscribed) simp_all
        qed
      qed
    qed
  qed
qed

lemma table_update_info:
  "updateParamInfoWithPLCInfo lib cp p d = Done (stat, p', d') \<Longrightarrow> keep_table d d'"
  by (erule update_info_steps) (auto dest: table_subscribe intro: table_trans)

lemmas keep_call [keep_intros] = table_call [THEN table_keep]
  and keep_alarm [keep_intros] = table_alarm [THEN table_keep]
  and keep_update [keep_intros] = table_update [THEN table_keep]
  and keep_syminfo [keep_intros] = table_syminfo [THEN table_keep]
  and keep_symhandle [keep_intros] = table_symhandle [THEN table_keep]
  and keep_release [keep_intros] = table_release [THEN table_keep]
  and keep_address [keep_intros] = table_address [THEN table_keep]
  and keep_add_data [keep_intros] = table_add_data [THEN table_keep]
  and keep_del_data [keep_intros] = table_del_data [THEN table_keep]
  and keep_state [keep_intros] = table_state [THEN table_keep]
  and keep_find_ts [keep_intros] = table_find_ts [THEN table_keep]
  and keep_set_bulk [keep_intros] = table_set_bulk [THEN table_keep]
  and keep_assign [keep_intros] = table_assign [THEN table_keep]
  and keep_fill [keep_intros] = table_fill [THEN table_keep]
  and keep_add_bulk [keep_intros] = table_add_bulk [THEN table_keep]
  and keep_subscribe [keep_intros] = table_subscribe [THEN table_keep]
  and keep_update_info [keep_intros] = table_update_info [THEN table_keep]

lemma keep_add_symbols [keep_intros]:
  "adsAddSymbolsChangedCallback lib cp port d = (stat, port', d') \<Longrightarrow>
     keep d d' \<and> same_port port port'"
  by (auto dest: table_add_symbols table_keep)

lemma keep_del_symbols [keep_intros]:
  "adsDelSymbolsChangedCallback lib cp port d = (stat, port', d') \<Longrightarrow>
     keep d d' \<and> same_port port port'"
  by (auto dest: table_del_symbols table_keep)

lemma keep_version [keep_intros]:
  "adsReadVersion lib cp port d = (stat, port', d') \<Longrightarrow>
     keep d d' \<and> same_port port port'"
  by (auto dest: table_version table_keep)

lemma update_info_clears:
  "updateParamInfoWithPLCInfo lib cp p d = Done (asynSuccess, p', d') \<Longrightarrow> \<not> p_refreshNeeded p'"
  by (erule update_info_steps) auto

section \<open>Supervision\<close>

lemma keep_refresh_params [keep_intros]:
  "refresh_params lib cp n is d = Done d' \<Longrightarrow> keep d d'"
proof (induction "is" arbitrary: d)
  case Nil
  then show ?case by simp
next
  case (Cons i "is")
  show ?case
  proof (cases "on_port n (p_amsPort (d_params d ! i)) \<and> p_refreshNeeded (d_params d ! i)")
    case False
    with Cons show ?thesis by (auto simp: Let_def)
  next
    case True
    with Cons.prems obtain stat p1 d1 where
      u: "updateParamInfoWithPLCInfo lib cp (d_params d ! i) d = Done (stat, p1, d1)"
        "refresh_params lib cp n is (d1\<lparr>d_params := (d_params d1)[i := p1]\<rparr>) = Done d'"
      by (auto simp: Let_def run_bind_Done_iff)
    have "keep d (d1\<lparr>d_params := (d_params d1)[i := p1]\<rparr>)"
      using table_update_info [OF u(1)] id_update_info [OF u(1)] by (intro keep_put_back) (simp_all add: keep_table_def)
    then show ?thesis using Cons.IH [OF u(2)] by (rule keep_trans)
  qed
qed

lemma set_port_def': "d\<lparr>d_amsPortList := (d_amsPortList d)[k := port]\<rparr> = set_port k port d"
  by (simp add: set_port_def)

lemma keep_ports:
  assumes "keep d d'"
  shows "map port_amsPort (d_amsPortList d') = map port_amsPort (d_amsPortList d)"
    and "map port_paramInfo (d_amsPortList d') = map port_paramInfo (d_amsPortList d)"
  using assms by (simp_all add: keep_def)

lemma keep_port_length: "keep d d' \<Longrightarrow> length (d_amsPortList d') = length (d_amsPortList d)"
  by (rule map_eq_imp_length_eq [OF keep_ports(1)])

lemma keep_port_at:
  assumes "keep d d'" and "k < length (d_amsPortList d)"
  shows "same_port (d_amsPortList d ! k) (d_amsPortList d' ! k)"
  using arg_cong [OF keep_ports(1) [OF assms(1)], of "\<lambda>xs. xs ! k"]
    arg_cong [OF keep_ports(2) [OF assms(1)], of "\<lambda>xs. xs ! k"] assms(2) keep_port_length [OF assms(1)]
  by (simp add: same_port_def)

lemma keep_set_port_of:
  assumes "keep d d'" and "same_port (d_amsPortList d ! k) port"
  shows "keep d (set_port k port d')"
proof (cases "k < length (d_amsPortList d)")
  case True
  then have "same_port (d_amsPortList d' ! k) port"
    using assms keep_port_at [of d d' k] by (simp add: same_port_def)
  then show ?thesis using assms(1) by (meson keep_set_port keep_trans)
next
  case False
  then have "keep d' (set_port k port d')"
    using keep_port_length [OF assms(1)] by (simp add: set_port_def keep_def not_less list_update_beyond)
  then show ?thesis using assms(1) by (rule keep_trans [rotated])
qed

lemma keep_refresh_ports: "keep d (refresh_ports lib cp n ks d)"
proof (induction ks arbitrary: d)
  case Nil
  then show ?case by simp
next
  case (Cons k ks)
  let ?port = "d_amsPortList d ! k"
  let ?del = "if port_bCallbackNotifyValid ?port
                 then snd (adsDelSymbolsChangedCallback lib cp ?port d) else (?port, d)"
  obtain port1 d1 where del: "?del = (port1, d1)" by (cases ?del) auto
  obtain st port2 d2 where add: "adsAddSymbolsChangedCallback lib cp port1 d1 = (st, port2, d2)"
    by (cases "adsAddSymbolsChangedCallback lib cp port1 d1") auto
  have k1: "keep d d1 \<and> same_port ?port port1"
    using del by (cases "adsDelSymbolsChangedCallback lib cp ?port d")
      (auto split: if_splits dest!: keep_del_symbols)
  have k2: "keep d1 d2 \<and> same_port port1 port2" by (rule keep_add_symbols [OF add])
  have "keep d (set_port k port2 d2)"
    using k1 k2 by (intro keep_set_port_of) (auto intro: keep_trans same_port_trans)
  with Cons.IH show ?case
    using Cons.IH [of "set_port k port2 d2"] Cons.IH [of d]
    by (auto simp: Let_def del add set_port_def' intro: keep_trans)
qed

lemma keep_refresh:
  assumes "refreshParams lib cp n d = Done (stat, d')"
  shows "keep d d'"
proof (cases "d_connectedAds d")
  case True
  with assms obtain d1 where d1: "refresh_params lib cp n [1..<d_paramCount d] d = Done d1"
      and d': "d' = (refresh_ports lib cp n [0..<length (d_amsPortList d1)] d1)\<lparr>d_bulkOK := True\<rparr>"
    by (auto simp: refreshParams_def run_bind_Done_iff)
  have "keep d d1" by (rule keep_refresh_params [OF d1])
  also have "keep d1 (refresh_ports lib cp n [0..<length (d_amsPortList d1)] d1)"
    by (rule keep_refresh_ports)
  finally show ?thesis unfolding d' by (rule keep_trans) simp
next
  case False
  with assms show ?thesis by (auto simp: refreshParams_def)
qed

lemma map_params_length [simp]: "length (map_params f n ps) = length ps"
  by (simp add: map_params_def)

lemma map_params_ids:
  assumes "\<And>p. same_id p (f p)"
  shows "map (\<lambda>p. (p_drvInfo p, p_paramIndex p)) (map_params f n ps) = map (\<lambda>p. (p_drvInfo p, p_paramIndex p)) ps"
  using assms by (intro nth_equalityI) (auto simp: map_params_def same_id_def)

lemma keep_invalidate: "keep d (snd (invalidateParams n d))"
  unfolding invalidateParams_def by (simp add: keep_def) (rule map_params_ids, simp add: same_id_def)

lemma keep_alarm_port_loop: "setAlarmPort_loop lib n a s is d = (stat, d') \<Longrightarrow> keep d d'"
proof (induction "is" arbitrary: d)
  case Nil
  then show ?case by simp
next
  case (Cons i "is")
  obtain st p d1 where al: "setAlarmParam lib (d_params d ! i) a s d = (st, p, d1)"
    by (cases "setAlarmParam lib (d_params d ! i) a s d") auto
  let ?d2 = "d1\<lparr>d_params := (d_params d1)[i := p]\<rparr>"
  have "keep d ?d2"
    using table_alarm [OF al] id_alarm [OF al] by (intro keep_put_back) (simp_all add: keep_table_def)
  with Cons al show ?case
    by (auto simp: Let_def split: if_splits intro: keep_trans)
qed

lemma keep_alarm_port: "keep d (snd (setAlarmPort lib n a s d))"
  unfolding setAlarmPort_def
  by (cases "setAlarmPort_loop lib n a s [0..<d_paramCount d] d") (simp add: keep_alarm_port_loop)

lemma keep_port_lost: "keep d (port_lost lib k d)"
proof -
  let ?d1 = "snd (invalidateParams (port_amsPort (d_amsPortList d ! k)) d)"
  have "keep d ?d1" by (rule keep_invalidate)
  also have "keep ?d1 (set_port k ((d_amsPortList ?d1 ! k)\<lparr>port_refreshNeeded := True\<rparr>) ?d1)"
    by (rule keep_set_port) (simp add: same_port_def)
  finally show ?thesis
    unfolding port_lost_def Let_def by (rule keep_trans) (rule keep_alarm_port)
qed

lemma keep_cyclic_port:
  assumes "cyclic_port lib cp k d = Done (c, d')"
  shows "keep d d'"
proof -
  obtain stat st e d1 where rd: "adsReadState lib cp (port_amsPort (d_amsPortList d ! k)) d = ((stat, st, e), d1)"
    by (cases "adsReadState lib cp (port_amsPort (d_amsPortList d ! k)) d") auto
  let ?port = "note_state lib stat st (d_amsPortList d1 ! k)"
  let ?d2 = "set_port k ?port d1"
  have "keep d d1" by (rule keep_state [OF rd])
  moreover have "keep d1 ?d2" by (rule keep_set_port) (simp add: note_state_def Let_def same_port_def)
  ultimately have k2: "keep d ?d2" by (rule keep_trans)
  from assms rd obtain d3 where d3: "(if port_connected ?port \<and> port_refreshNeeded ?port
       then run_bind (refreshParams lib cp (port_amsPort (d_amsPortList d ! k)) ?d2) (\<lambda>(_, d'). Done d')
       else Done ?d2) = Done d3"
    and fin: "d' = (let d4 = (if port_connectedOld ?port \<and> \<not> port_connected ?port then port_lost lib k d3 else d3)
         in if \<not> port_connectedOld ?port \<and> port_connected ?port
            then (case adsReadVersion lib cp (d_amsPortList d4 ! k) d4 of (_, port', d') \<Rightarrow> set_port k port' d')
            else d4)"
    by (auto simp: cyclic_port_def Let_def run_bind_Done_iff)
  have k3: "keep ?d2 d3" using d3 by (auto simp: run_bind_Done_iff split: if_splits dest!: keep_refresh)
  let ?d4 = "if port_connectedOld ?port \<and> \<not> port_connected ?port then port_lost lib k d3 else d3"
  have k4: "keep d3 ?d4" by (simp add: keep_port_lost)
  have k5: "keep ?d4 d'"
  proof (cases "\<not> port_connectedOld ?port \<and> port_connected ?port")
    case True
    obtain s p5 d5 where v: "adsReadVersion lib cp (d_amsPortList ?d4 ! k) ?d4 = (s, p5, d5)"
      by (cases "adsReadVersion lib cp (d_amsPortList ?d4 ! k) ?d4") auto
    from keep_version [OF v] have "keep ?d4 (set_port k p5 d5)" by (intro keep_set_port_of) simp_all
    with fin True v show ?thesis by (simp add: Let_def)
  next
    case False
    with fin show ?thesis by (simp add: Let_def)
  qed
  from k2 k3 k4 k5 show ?thesis by (meson keep_trans)
qed

lemma keep_cyclic_ports: "cyclic_ports lib cp ks one d = Done (c, d') \<Longrightarrow> keep d d'"
proof (induction ks arbitrary: one d)
  case Nil
  then show ?case by simp
next
  case (Cons k ks)
  then show ?case by (auto simp: run_bind_Done_iff dest!: keep_cyclic_port intro: keep_trans)
qed

lemma keep_publish: "publish_states lib ks d = Done d' \<Longrightarrow> keep d d'"
proof (induction ks arbitrary: d)
  case Nil
  then show ?case by simp
next
  case (Cons k ks)
  show ?case
  proof (cases "port_paramInfo (d_amsPortList d ! k)")
    case None
    with Cons show ?thesis by (simp add: Let_def)
  next
    case (Some i)
    show ?thesis
    proof (cases "port_adsStateOld (d_amsPortList d ! k) \<noteq> port_adsState (d_amsPortList d ! k) \<and>
        p_dataSource (d_params d ! i) = ADS_DATASOURCE_AMS_STATE")
      case False
      with Cons Some show ?thesis by (auto simp: Let_def)
    next
      case True
      with Cons.prems Some obtain st p1 d1 where
        u: "adsUpdateParameter lib i (d_params d ! i) (Some (le_bytes_int 4 (port_adsState (d_amsPortList d ! k)))) 2 d =
            Done (st, p1, d1)"
          "publish_states lib ks (d1\<lparr>d_params := (d_params d1)[i := p1]\<rparr>) = Done d'"
        by (auto simp: Let_def run_bind_Done_iff)
      have "keep d (d1\<lparr>d_params := (d_params d1)[i := p1]\<rparr>)"
        using table_update [OF u(1)] id_update [OF u(1)] by (intro keep_put_back) (simp_all add: keep_table_def)
      then show ?thesis using Cons.IH [OF u(2)] by (rule keep_trans)
    qed
  qed
qed

end
