(* ===== verification/Ads_Symbols.thy ===== *)
theory Ads_Symbols
  imports Ads_SymbolIo
begin

text \<open>
  The start of the driver learns about all variables at once.  The cache of the loaded database maps a
  link, an asyn port and a \<^verbatim>\<open>drvInfo\<close> string, to its record
  (\<^verbatim>\<open>buildDrvInfoCache\<close>, \<^verbatim>\<open>getRecordInfoFromDrvInfo\<close>); the symbols of all links
  are looked up in SumUp requests of at most 500 parts (\<^verbatim>\<open>resolveSymbolInfo\<close>), and then their
  handles (\<^verbatim>\<open>resolveSymbolHandles\<close>).  The order in which the hash maps of the code are
  traversed is open: it is an argument, a function from a map to the list of its keys.
\<close>

section \<open>The links of the loaded database\<close>

text \<open>
  A record as the database functions show it: a field that exists has a text or none.  The database is
  the list of record types with their records; \<open>None\<close> is a database that is not loaded.
\<close>

record db_record =
  db_name :: string
  db_isAlias :: bool
  db_fields :: "string \<rightharpoonup> string option"

type_synonym database = "(string \<times> db_record list) list option"

text \<open>\<^verbatim>\<open>sscanf(val, "@asyn(%255[^,],%d,%d)%1023s", ...)\<close> when it converts all four parts.\<close>

definition scan_int :: "string \<Rightarrow> string option" where
  "scan_int s = map_option snd (scan_to 32 (scan_dec s))"

definition scan_link :: "string \<Rightarrow> (string \<times> string) option" where
  "scan_link s =
     Option.bind (scan_lit ''@asyn('' s) (\<lambda>s1.
     Option.bind (scan_set 255 (\<lambda>c. c \<noteq> CHR '','') s1) (\<lambda>(port, s2).
     Option.bind (scan_lit '','' s2) (\<lambda>s3.
     Option.bind (scan_int s3) (\<lambda>s4.
     Option.bind (scan_lit '','' s4) (\<lambda>s5.
     Option.bind (scan_int s5) (\<lambda>s6.
     Option.bind (scan_lit '')'' s6) (\<lambda>s7.
     Option.bind (scan_str 1023 s7) (\<lambda>(drvI, s8). Some (port, drvI)))))))))"

text \<open>Port, \<^verbatim>\<open>drvInfo\<close> and text of a link field; all empty if it is no asyn link.\<close>

definition tryLink :: "db_record \<Rightarrow> string \<Rightarrow> string \<times> string \<times> string" where
  "tryLink r field =
     (case db_fields r field of
        Some (Some val) \<Rightarrow>
          (case scan_link val of Some (port, drvI) \<Rightarrow> (port, drvI, val) | None \<Rightarrow> ([], [], []))
      | _ \<Rightarrow> ([], [], []))"

definition cache_link ::
  "string \<times> string \<Rightarrow> RecordInfoCache \<Rightarrow> (string \<times> string \<rightharpoonup> RecordInfoCache) \<Rightarrow>
     (string \<times> string \<rightharpoonup> RecordInfoCache)" where
  "cache_link key e cache = (if fst key = [] \<or> cache key \<noteq> None then cache else cache(key \<mapsto> e))"

definition cache_record ::
  "string \<Rightarrow> db_record \<Rightarrow> (string \<times> string \<rightharpoonup> RecordInfoCache) \<Rightarrow>
     (string \<times> string \<rightharpoonup> RecordInfoCache)" where
  "cache_record rtype r cache =
     (if db_isAlias r then cache
      else
        let dtyp = (case db_fields r ''DTYP'' of Some (Some v) \<Rightarrow> v | _ \<Rightarrow> []);
            atype = (case db_fields r ''DTYP'' of Some (Some v) \<Rightarrow> dtypStringToAsynType (take 255 v)
                     | _ \<Rightarrow> asynParamNotDefined);
            e = \<lparr>rc_recordType = rtype, rc_recordName = db_name r, rc_inp = [], rc_out = [],
                 rc_dtyp = dtyp, rc_asynType = atype\<rparr>
        in case tryLink r ''INP'' of (inpPort, inpDrv, inpStr) \<Rightarrow>
           case tryLink r ''OUT'' of (outPort, outDrv, outStr) \<Rightarrow>
             cache_link (outPort, outDrv) (e\<lparr>rc_out := outStr\<rparr>)
               (cache_link (inpPort, inpDrv) (e\<lparr>rc_inp := inpStr\<rparr>) cache))"

definition buildDrvInfoCache :: "database \<Rightarrow> 'e driver \<Rightarrow> 'e driver" where
  "buildDrvInfoCache pdbbase d =
     (if d_drvInfoCacheBuilt d then d
      else case pdbbase of
        None \<Rightarrow> d
      | Some types \<Rightarrow>
          d\<lparr>d_drvInfoCacheBuilt := True,
            d_drvInfoCache := fold (\<lambda>(rtype, rs). fold (cache_record rtype) rs) types (d_drvInfoCache d)\<rparr>)"

definition text_or_null :: "string \<Rightarrow> string option" where
  "text_or_null s = (if s = [] then None else Some s)"

definition getRecordInfoFromDrvInfo ::
  "database \<Rightarrow> string \<Rightarrow> adsParamInfo \<Rightarrow> 'e driver \<Rightarrow> asynStatus \<times> adsParamInfo \<times> 'e driver" where
  "getRecordInfoFromDrvInfo pdbbase drvInfo p d =
     (let d1 = buildDrvInfoCache pdbbase d
      in case d_drvInfoCache d1 (d_portName d1, drvInfo) of
           None \<Rightarrow> (asynError, p, d1)
         | Some e \<Rightarrow>
             (asynSuccess,
              p\<lparr>p_recordType := text_or_null (rc_recordType e), p_recordName := text_or_null (rc_recordName e),
                p_dtyp := text_or_null (rc_dtyp e), p_inp := text_or_null (rc_inp e),
                p_out := text_or_null (rc_out e), p_asynType := rc_asynType e, p_drvInfo := Some drvInfo\<rparr>, d1))"

section \<open>SumUp requests\<close>

text \<open>The parts of at most \<open>n\<close> elements.\<close>

function chunks :: "nat \<Rightarrow> 'a list \<Rightarrow> 'a list list" where
  "chunks n xs = (if xs = [] \<or> n = 0 then [] else take n xs # chunks n (drop n xs))"
  by pat_completeness auto
termination
  by (relation "measure (\<lambda>(n, xs). length xs)") auto

declare chunks.simps [simp del]

definition CHUNK_SIZE :: nat where "CHUNK_SIZE = 500"

definition sumup_header :: "nat \<Rightarrow> nat \<Rightarrow> string \<Rightarrow> u8 list" where
  "sumup_header iGroup readLen name =
     le_bytes 4 iGroup @ le_bytes 4 0 @ le_bytes 4 readLen @ le_bytes 4 (length name mod 2 ^ 32)"

definition sumup_write :: "nat \<Rightarrow> nat \<Rightarrow> string list \<Rightarrow> u8 list" where
  "sumup_write iGroup readLen names =
     concat (map (sumup_header iGroup readLen) names) @ concat (map text_bytes names)"

definition u32_at :: "u8 list \<Rightarrow> nat \<Rightarrow> nat" where
  "u32_at m off = le_nat (take 4 (drop off m))"

section \<open>The handles of all symbols\<close>

text \<open>
  The loop over the answers of one request: \<open>m\<close> is the read buffer, \<open>n\<close> the number of parts,
  \<open>i\<close> the next part.  The handles are taken from fixed places behind the status words.
\<close>

fun handle_slots ::
  "u8 list \<Rightarrow> nat \<Rightarrow> nat \<Rightarrow> string list \<Rightarrow> (string \<rightharpoonup> AdsSymbolDictEntry) \<Rightarrow> (string \<rightharpoonup> AdsSymbolDictEntry)" where
  "handle_slots m n i [] dict = dict"
| "handle_slots m n i (key # keys) dict =
     (let result = u32_at m (8 * i); handle = u32_at m (8 * n + 4 * i)
      in handle_slots m n (Suc i) keys
           (if result = 0 \<and> handle \<noteq> 0
            then dict(key \<mapsto> (the (dict key))\<lparr>e_handle := handle, e_resolved := True\<rparr>) else dict))"

fun handle_chunks ::
  "('e, 'z) ads_lib_scheme \<Rightarrow> nat \<Rightarrow> string list list \<Rightarrow> 'e driver \<Rightarrow> 'e driver" where
  "handle_chunks lib amsClientPort [] d = d"
| "handle_chunks lib amsClientPort (keys # rest) d =
     (let n = length keys;
          names = map (\<lambda>k. e_symbol (the (d_symbolDict d k))) keys
      in case call (AdsSyncReadWriteReqEx2 lib amsClientPort (server d (d_amsportDefault d))
                      (sdk_u lib ''ADSIGRP_SUMUP_READWRITE'') n (12 * n)
                      (sumup_write (sdk_u lib ''ADSIGRP_SYM_HNDBYNAME'') 4 names)) d of
           ((rc, bs, bytesRead), d1) \<Rightarrow>
             if rc \<noteq> 0 then handle_chunks lib amsClientPort rest d1
             else
               handle_chunks lib amsClientPort rest
                 (d1\<lparr>d_symbolDict := handle_slots (received (replicate (12 * n) 0) bs) n 0 keys
                       (d_symbolDict d1)\<rparr>))"

definition resolveSymbolHandles ::
  "('e, 'z) ads_lib_scheme \<Rightarrow> ((string \<rightharpoonup> AdsSymbolDictEntry) \<Rightarrow> string list) \<Rightarrow> nat \<Rightarrow> 'e driver \<Rightarrow>
     asynStatus \<times> 'e driver" where
  "resolveSymbolHandles lib dict_order amsClientPort d =
     (asynSuccess, handle_chunks lib amsClientPort (chunks CHUNK_SIZE (dict_order (d_symbolDict d))) d)"

section \<open>The information about all symbols\<close>

definition to_lower :: "string \<Rightarrow> string" where
  "to_lower s = map tolower s"

definition symbol_of_link :: "string \<Rightarrow> string option" where
  "symbol_of_link drvI =
     (if strstr drvI ''.ADR.'' \<noteq> None \<or> strstr drvI ''.AMSPORTSTATE.'' \<noteq> None then None
      else
        let sym = (case strrchr drvI CHR ''/'' of Some t \<Rightarrow> tl t | None \<Rightarrow> drvI);
            sym1 = (if sym \<noteq> [] \<and> last sym \<in> {CHR ''?'', CHR ''=''} then butlast sym else sym)
        in if sym1 = [] then None else Some sym1)"

fun unique_lower :: "string set \<Rightarrow> string list \<Rightarrow> string list" where
  "unique_lower seen [] = []"
| "unique_lower seen (s # ss) =
     (if to_lower s \<in> seen then unique_lower seen ss
      else s # unique_lower (insert (to_lower s) seen) ss)"

definition symbols_of_links :: "string \<Rightarrow> (string \<times> string) list \<Rightarrow> string list" where
  "symbols_of_links port keys =
     List.map_filter (\<lambda>(p, drvI). if p \<noteq> port then None else symbol_of_link drvI) keys"

text \<open>An entry of the dictionary as it is before it is filled.\<close>

definition new_dict_entry :: AdsSymbolDictEntry where
  "new_dict_entry = \<lparr>e_symbol = [], e_symbolLower = [], e_datatype = [], e_pvName = [], e_size = 0,
     e_adst = 0, e_handle = 0, e_resolved = False\<rparr>"

text \<open>The type name behind the name; a name that is not terminated inside the entry is read beyond it.\<close>

definition entry_datatype :: "adsSymbolEntry \<Rightarrow> string run" where
  "entry_datatype info =
     (let rest = drop (se_nameLength info + 1) (se_buffer info)
      in if 0 \<in> set rest then Done (bytes_text rest) else Ub)"

text \<open>The entry of a symbol is filled from its information; a new one if there is none.\<close>

definition store_info ::
  "string \<Rightarrow> adsSymbolEntry \<Rightarrow> string \<Rightarrow> (string \<rightharpoonup> AdsSymbolDictEntry) \<Rightarrow> (string \<rightharpoonup> AdsSymbolDictEntry)" where
  "store_info symName info datatype dict =
     (let symLower = to_lower symName;
          e = (case dict symLower of Some e \<Rightarrow> e | None \<Rightarrow> new_dict_entry)
      in dict(symLower \<mapsto> e\<lparr>e_symbol := symName, e_symbolLower := symLower, e_size := se_size info,
           e_adst := se_dataType info, e_datatype := datatype, e_resolved := False\<rparr>))"

text \<open>The loop over the answers of one request; \<open>off\<close> is the place of the next answer.\<close>

fun info_slots ::
  "u8 list \<Rightarrow> nat \<Rightarrow> nat \<Rightarrow> string list \<Rightarrow> (string \<rightharpoonup> AdsSymbolDictEntry) \<Rightarrow>
     (string \<rightharpoonup> AdsSymbolDictEntry) run" where
  "info_slots m i off [] dict = Done dict"
| "info_slots m i off (name # names) dict =
     (let result = u32_at m (8 * i); retLen = u32_at m (8 * i + 4)
      in if result \<noteq> 0 \<or> retLen < 36 then info_slots m (Suc i) (off + retLen) names dict
         else
           run_bind (mem_read m off (min retLen sizeof_adsSymbolEntry)) (\<lambda>bs.
             let info = symbol_entry_of (received (replicate sizeof_adsSymbolEntry 0) bs)
             in run_bind (entry_datatype info) (\<lambda>datatype.
                  info_slots m (Suc i) (off + retLen) names (store_info name info datatype dict))))"

fun info_chunks ::
  "('e, 'z) ads_lib_scheme \<Rightarrow> nat \<Rightarrow> string list list \<Rightarrow> 'e driver \<Rightarrow> (asynStatus \<times> 'e driver) run" where
  "info_chunks lib amsClientPort [] d = Done (asynSuccess, d)"
| "info_chunks lib amsClientPort (names # rest) d =
     (let n = length names; readBytes = n * 8 + n * sizeof_adsSymbolEntry
      in case call (AdsSyncReadWriteReqEx2 lib amsClientPort (server d (d_amsportDefault d))
                      (sdk_u lib ''ADSIGRP_SUMUP_READWRITE'') n readBytes
                      (sumup_write (sdk_u lib ''ADSIGRP_SYM_INFOBYNAMEEX'') sizeof_adsSymbolEntry names)) d of
           ((rc, bs, bytesRead), d1) \<Rightarrow>
             if rc \<noteq> 0 then info_chunks lib amsClientPort rest d1
             else if bytesRead > readBytes then Done (asynError, d1)
             else
               run_bind (info_slots (received (replicate readBytes 0) bs) 0 (8 * n) names (d_symbolDict d1)) (\<lambda>dict.
                 info_chunks lib amsClientPort rest (d1\<lparr>d_symbolDict := dict\<rparr>)))"

definition resolveSymbolInfo ::
  "('e, 'z) ads_lib_scheme \<Rightarrow> database \<Rightarrow>
     ((string \<times> string \<rightharpoonup> RecordInfoCache) \<Rightarrow> (string \<times> string) list) \<Rightarrow> nat \<Rightarrow> 'e driver \<Rightarrow>
     (asynStatus \<times> 'e driver) run" where
  "resolveSymbolInfo lib pdbbase link_order amsClientPort d =
     (let d1 = buildDrvInfoCache pdbbase (d\<lparr>d_symbolDict := Map.empty\<rparr>);
          symbols = symbols_of_links (d_portName d1) (link_order (d_drvInfoCache d1))
      in if symbols = [] then Done (asynSuccess, d1)
         else info_chunks lib amsClientPort (chunks CHUNK_SIZE (unique_lower {} symbols)) d1)"

end
