(* ===== verification/Ads_SymbolDict.thy ===== *)
theory Ads_SymbolDict
  imports Ads_Symbols
begin

text \<open>
  What the SumUp requests of the start achieve.  A controller is described by its answer to every part
  of a request; the theorems follow the answers, whatever number of requests they take, through the
  buffers of the code into the dictionary of symbols.
\<close>

section \<open>The parts of a list\<close>

lemma chunks_concat: "0 < n \<Longrightarrow> concat (chunks n xs) = xs"
  by (induction n xs rule: chunks.induct) (subst chunks.simps, simp)

lemma chunks_sizes: "c \<in> set (chunks n xs) \<Longrightarrow> c \<noteq> [] \<and> length c \<le> n"
  by (induction n xs rule: chunks.induct) (subst (asm) (2) chunks.simps, auto split: if_splits)

section \<open>The answers of a SumUp request\<close>

text \<open>
  The answer of the controller to a request: a result and a length for every part, and then the data
  of the parts one after the other, each of its own length.
\<close>

definition sumup_answer :: "(string \<Rightarrow> nat \<times> u8 list) \<Rightarrow> string list \<Rightarrow> u8 list" where
  "sumup_answer ans names =
     concat (map (\<lambda>s. le_bytes 4 (fst (ans s)) @ le_bytes 4 (length (snd (ans s)))) names) @
     concat (map (\<lambda>s. snd (ans s)) names)"

lemma drop_block:
  "(\<And>x. length (f x) = w) \<Longrightarrow> j < length xs \<Longrightarrow>
     drop (w * j) (concat (map f xs) @ r) = f (xs ! j) @ concat (map f (drop (Suc j) xs)) @ r"
proof (induction xs arbitrary: j)
  case Nil
  then show ?case by simp
next
  case (Cons x xs)
  then show ?case by (cases j) (simp_all add: add.commute)
qed

lemma u32_at_append: "u32_at (le_bytes 4 v @ r) 0 = v mod 2 ^ 32"
  by (simp add: u32_at_def le_nat_le_bytes)

lemma u32_at_drop: "u32_at m (a + b) = u32_at (drop a m) b"
  by (simp add: u32_at_def add.commute)

lemma sumup_status:
  assumes "j < length names"
  shows "u32_at (sumup_answer ans names @ z) (8 * j) = fst (ans (names ! j)) mod 2 ^ 32"
    and "u32_at (sumup_answer ans names @ z) (8 * j + 4) = length (snd (ans (names ! j))) mod 2 ^ 32"
proof -
  let ?f = "\<lambda>s. le_bytes 4 (fst (ans s)) @ le_bytes 4 (length (snd (ans s)))"
  have b: "drop (8 * j) (concat (map ?f names) @ x) = ?f (names ! j) @ concat (map ?f (drop (Suc j) names)) @ x" for x
    by (rule drop_block) (simp_all add: assms)
  obtain r where r: "drop (8 * j) (sumup_answer ans names @ z) = ?f (names ! j) @ r"
    unfolding sumup_answer_def append_assoc [of _ _ z] b by blast
  have "u32_at (sumup_answer ans names @ z) (8 * j + 0) = fst (ans (names ! j)) mod 2 ^ 32"
    unfolding u32_at_drop r by (simp add: u32_at_append)
  then show "u32_at (sumup_answer ans names @ z) (8 * j) = fst (ans (names ! j)) mod 2 ^ 32" by simp
  show "u32_at (sumup_answer ans names @ z) (8 * j + 4) = length (snd (ans (names ! j))) mod 2 ^ 32"
    unfolding u32_at_drop r using u32_at_append by (simp add: u32_at_def)
qed

lemma concat_const_length: "(\<And>x. length (f x) = w) \<Longrightarrow> length (concat (map f xs)) = w * length xs"
  by (induction xs) (simp_all add: add.commute)

lemma sumup_data: "drop (8 * length names) (sumup_answer ans names @ z) = concat (map (\<lambda>s. snd (ans s)) names) @ z"
  by (simp add: sumup_answer_def concat_const_length [of _ 8])

section \<open>The handles\<close>

lemma handle_slots_other: "k \<notin> set keys \<Longrightarrow> handle_slots m n i keys dict k = dict k"
  by (induction m n i keys dict rule: handle_slots.induct) (simp_all add: Let_def)

lemma handle_slots_at:
  "distinct keys \<Longrightarrow> j < length keys \<Longrightarrow>
     handle_slots m n i keys dict (keys ! j) =
       (if u32_at m (8 * (i + j)) = 0 \<and> u32_at m (8 * n + 4 * (i + j)) \<noteq> 0
        then Some ((the (dict (keys ! j)))\<lparr>e_handle := u32_at m (8 * n + 4 * (i + j)), e_resolved := True\<rparr>)
        else dict (keys ! j))"
proof (induction m n i keys dict arbitrary: j rule: handle_slots.induct)
  case (1 m n i dict)
  then show ?case by simp
next
  case (2 m n i key keys dict)
  show ?case
  proof (cases j)
    case 0
    with 2 show ?thesis by (simp add: Let_def handle_slots_other)
  next
    case (Suc k)
    with "2.prems" have k: "keys ! k \<noteq> key" "distinct keys" "k < length keys" by auto
    show ?thesis
      unfolding Suc handle_slots.simps Let_def nth_Cons_Suc "2.IH" [OF refl refl k(2,3)]
      using k(1) by simp
  qed
qed

lemma map_filter_append: "List.map_filter f (xs @ ys) = List.map_filter f xs @ List.map_filter f ys"
  by (simp add: List.map_filter_def)

text \<open>The answer of a controller in which some symbols have handles.\<close>

definition handle_answer :: "(string \<Rightarrow> nat option) \<Rightarrow> nat \<Rightarrow> string \<Rightarrow> nat \<times> u8 list" where
  "handle_answer H err s = (case H s of Some h \<Rightarrow> (0, le_bytes 4 h) | None \<Rightarrow> (err, []))"

lemma found_data:
  "concat (map (\<lambda>s. snd (handle_answer H err s)) names) = concat (map (le_bytes 4) (List.map_filter H names))"
  by (induction names) (auto simp: handle_answer_def map_filter_simps split: option.splits)

lemma u32_in_list:
  assumes "\<forall>v \<in> set vs. v < 2 ^ 32"
  shows "u32_at (concat (map (le_bytes 4) vs) @ replicate r 0) (4 * j) = (if j < length vs then vs ! j else 0)"
proof (cases "j < length vs")
  case True
  then have "vs ! j < 2 ^ 32" using assms by simp
  moreover have "drop (4 * j) (concat (map (le_bytes 4) vs) @ replicate r 0) =
      le_bytes 4 (vs ! j) @ concat (map (le_bytes 4) (drop (Suc j) vs)) @ replicate r 0"
    by (rule drop_block) (simp_all add: True)
  ultimately show ?thesis using True by (simp add: u32_at_def le_nat_le_bytes)
next
  case False
  have z: "le_nat (replicate k 0) = 0" for k by (induction k) simp_all
  have "length (concat (map (le_bytes 4) vs)) = 4 * length vs"
    by (rule concat_const_length) simp
  then have "drop (4 * j) (concat (map (le_bytes 4) vs) @ replicate r 0) = replicate (r - (4 * j - 4 * length vs)) 0"
    using False by simp
  then show ?thesis using False z by (simp add: u32_at_def take_replicate)
qed

lemma map_filter_length: "length (List.map_filter H names) \<le> length names"
  by (induction names) (auto simp: map_filter_simps split: option.splits)

lemma found_nth:
  assumes "distinct names" and "j < length names" and "H (names ! j) = Some h"
    and inj: "\<And>s t k. H s = Some k \<Longrightarrow> H t = Some k \<Longrightarrow> s = t"
  shows "(j < length (List.map_filter H names) \<and> List.map_filter H names ! j = h) \<longleftrightarrow>
    (\<forall>i < j. H (names ! i) \<noteq> None)"
proof -
  let ?f = "List.map_filter H"
  have split: "?f names = ?f (take j names) @ h # ?f (drop (Suc j) names)"
    by (subst id_take_nth_drop [OF assms(2)]) (simp add: map_filter_append map_filter_simps assms(3))
  have d: "distinct (?f xs)" if "distinct xs" for xs
    using that
  proof (induction xs)
    case Nil
    then show ?case by (simp add: map_filter_simps)
  next
    case (Cons x xs)
    then show ?case by (auto simp: map_filter_simps map_filter_def split: option.splits dest: inj)
  qed
  have l: "length (?f (take j names)) = j \<longleftrightarrow> (\<forall>i < j. H (names ! i) \<noteq> None)"
  proof -
    have "length (?f xs) = length xs \<longleftrightarrow> (\<forall>x \<in> set xs. H x \<noteq> None)" for xs
    proof (induction xs)
      case Nil
      then show ?case by (simp add: map_filter_simps)
    next
      case (Cons x xs)
      then show ?case using map_filter_length [of H xs] by (auto simp: map_filter_simps split: option.splits)
    qed
    from this [of "take j names"] show ?thesis using assms(2) by (fastforce simp: in_set_conv_nth)
  qed
  have c: "length (?f (take j names)) \<le> j" using map_filter_length [of H "take j names"] assms(2) by simp
  show ?thesis
  proof (cases "length (?f (take j names)) = j")
    case True
    then show ?thesis using l by (simp add: split nth_append)
  next
    case False
    then have lt: "length (?f (take j names)) < j" using c by simp
    have "?f names ! length (?f (take j names)) = h" by (simp add: split)
    then have "\<not> (j < length (?f names) \<and> ?f names ! j = h)"
      using d [OF assms(1)] lt nth_eq_iff_index_eq by (metis order_less_trans nat_neq_iff)
    then show ?thesis using l False by blast
  qed
qed


text \<open>What a request for the handles of these symbols is answered by such a controller.\<close>

definition handles_answered ::
  "('e, 'z) ads_lib_scheme \<Rightarrow> nat \<Rightarrow> AmsAddr \<Rightarrow> string set \<Rightarrow> (string \<Rightarrow> nat option) \<Rightarrow> nat \<Rightarrow> bool" where
  "handles_answered lib cp a S H err \<longleftrightarrow>
     0 < err \<and> err < 2 ^ 32 \<and> (\<forall>s h. H s = Some h \<longrightarrow> 0 < h \<and> h < 2 ^ 32) \<and>
     (\<forall>s t h. H s = Some h \<longrightarrow> H t = Some h \<longrightarrow> s = t) \<and>
     (\<forall>names e. set names \<subseteq> S \<longrightarrow> length names \<le> CHUNK_SIZE \<longrightarrow>
        (\<exists>k e'. AdsSyncReadWriteReqEx2 lib cp a (sdk_u lib ''ADSIGRP_SUMUP_READWRITE'') (length names)
            (12 * length names) (sumup_write (sdk_u lib ''ADSIGRP_SYM_HNDBYNAME'') 4 names) e =
          ((0, sumup_answer (handle_answer H err) names, k), e')))"

lemma handle_chunks_other:
  "k \<notin> set (concat cs) \<Longrightarrow> d_symbolDict (handle_chunks lib cp cs d) k = d_symbolDict d k"
proof (induction lib cp cs d rule: handle_chunks.induct)
  case (1 lib cp d)
  then show ?case by simp
next
  case (2 lib cp keys rest d)
  then show ?case
    by (auto simp: Let_def handle_slots_other call_def split: prod.splits)
qed

lemma handle_slots_answer:
  assumes "handles_answered lib cp a S H err" and "distinct keys" and "j < length keys"
    and "dict (keys ! j) = Some e" and "names = map (\<lambda>k. e_symbol (the (dict k))) keys"
  shows "handle_slots (received (replicate (12 * length keys) 0) (sumup_answer (handle_answer H err) names))
      (length keys) 0 keys dict (keys ! j) =
    Some (let vs = List.map_filter H names
          in if H (e_symbol e) \<noteq> None \<and> j < length vs then e\<lparr>e_handle := vs ! j, e_resolved := True\<rparr> else e)"
proof -
  let ?vs = "List.map_filter H names" and ?n = "length keys"
  have vs: "\<forall>v \<in> set ?vs. 0 < v \<and> v < 2 ^ 32"
    using assms(1) by (auto simp: handles_answered_def List.map_filter_def)
  have ln: "length names = ?n" by (simp add: assms(5))
  have sz: "length (sumup_answer (handle_answer H err) names) = 8 * ?n + 4 * length ?vs"
    by (simp add: sumup_answer_def found_data concat_const_length [of _ 8] concat_const_length [of _ 4] ln)
  have le: "length ?vs \<le> ?n" using map_filter_length [of H names] assms(5) by simp
  define m where "m = received (replicate (12 * ?n) 0) (sumup_answer (handle_answer H err) names)"
  have m: "m = sumup_answer (handle_answer H err) names @ replicate (4 * ?n - 4 * length ?vs) 0"
    unfolding m_def received_def using sz le by simp
  have nj: "names ! j = e_symbol e" "j < length names" using assms(3-5) by simp_all
  have r: "u32_at m (8 * j) = 0 \<longleftrightarrow> H (e_symbol e) \<noteq> None"
    using sumup_status(1) [OF nj(2)] assms(1) nj(1)
    by (simp add: m handle_answer_def handles_answered_def split: option.splits)
  have "u32_at m (8 * ?n + 4 * j) = u32_at (drop (8 * length names) m) (4 * j)"
    by (simp add: u32_at_drop assms(5))
  also have "\<dots> = (if j < length ?vs then ?vs ! j else 0)"
    unfolding m sumup_data found_data by (rule u32_in_list) (use vs in simp)
  finally have h: "u32_at m (8 * ?n + 4 * j) = (if j < length ?vs then ?vs ! j else 0)" .
  have "j < length ?vs \<Longrightarrow> ?vs ! j \<noteq> 0" using vs nth_mem by (metis less_numeral_extra(3))
  then show ?thesis
    using handle_slots_at [OF assms(2,3), of m ?n 0 dict] r h assms(4)
    by (cases "j < length ?vs") (auto simp: Let_def m_def [symmetric])
qed

lemma handle_chunks_at:
  assumes "handles_answered lib cp (server d (d_amsportDefault d)) S H err"
    and "distinct (concat cs)" and "\<forall>c \<in> set cs. length c \<le> CHUNK_SIZE"
    and "keys \<in> set cs" and "j < length keys" and "d_symbolDict d (keys ! j) = Some e"
    and "\<forall>k \<in> set (concat cs). e_symbol (the (d_symbolDict d k)) \<in> S"
  shows "d_symbolDict (handle_chunks lib cp cs d) (keys ! j) =
    Some (let vs = List.map_filter H (map (\<lambda>k. e_symbol (the (d_symbolDict d k))) keys)
          in if H (e_symbol e) \<noteq> None \<and> j < length vs then e\<lparr>e_handle := vs ! j, e_resolved := True\<rparr> else e)"
  using assms
proof (induction cs arbitrary: d)
  case Nil
  then show ?case by simp
next
  case (Cons c rest)
  let ?names = "map (\<lambda>k. e_symbol (the (d_symbolDict d k))) c"
  have "length ?names \<le> CHUNK_SIZE" "set ?names \<subseteq> S" using Cons.prems(3,7) by auto
  then obtain k e' where a: "AdsSyncReadWriteReqEx2 lib cp (server d (d_amsportDefault d))
      (sdk_u lib ''ADSIGRP_SUMUP_READWRITE'') (length c) (12 * length c)
      (sumup_write (sdk_u lib ''ADSIGRP_SYM_HNDBYNAME'') 4 ?names) (env d) =
      ((0, sumup_answer (handle_answer H err) ?names, k), e')"
    using Cons.prems(1) unfolding handles_answered_def by (metis length_map)
  define d1 where "d1 = d\<lparr>env := e'\<rparr>"
  have call: "call (AdsSyncReadWriteReqEx2 lib cp (server d (d_amsportDefault d))
      (sdk_u lib ''ADSIGRP_SUMUP_READWRITE'') (length c) (12 * length c)
      (sumup_write (sdk_u lib ''ADSIGRP_SYM_HNDBYNAME'') 4 ?names)) d =
      ((0, sumup_answer (handle_answer H err) ?names, k), d1)"
    by (simp add: call_def a d1_def)
  define dict where "dict = handle_slots (received (replicate (12 * length c) 0)
      (sumup_answer (handle_answer H err) ?names)) (length c) 0 c (d_symbolDict d)"
  have step: "handle_chunks lib cp (c # rest) d = handle_chunks lib cp rest (d1\<lparr>d_symbolDict := dict\<rparr>)"
    using call by (simp add: Let_def dict_def d1_def)
  show ?case
  proof (cases "keys = c")
    case True
    then have "keys ! j \<notin> set (concat rest)" using Cons.prems(2,5) by (auto dest: nth_mem)
    then have "d_symbolDict (handle_chunks lib cp (c # rest) d) (keys ! j) = dict (keys ! j)"
      unfolding step by (subst handle_chunks_other) simp_all
    also have "\<dots> = Some (let vs = List.map_filter H (map (\<lambda>k. e_symbol (the (d_symbolDict d k))) keys)
          in if H (e_symbol e) \<noteq> None \<and> j < length vs then e\<lparr>e_handle := vs ! j, e_resolved := True\<rparr> else e)"
      unfolding dict_def True
      by (rule handle_slots_answer [OF Cons.prems(1)]) (use Cons.prems True in auto)
    finally show ?thesis .
  next
    case False
    then have k: "keys \<in> set rest" using Cons.prems(4) by simp
    then have no: "set keys \<inter> set c = {}" using Cons.prems(2) by auto
    have same_rest: "dict x = d_symbolDict d x" if "y \<in> set rest" "x \<in> set y" for x y
    proof -
      have "x \<notin> set c" using that Cons.prems(2) by auto
      then show ?thesis unfolding dict_def by (rule handle_slots_other)
    qed
    then have same: "dict x = d_symbolDict d x" if "x \<in> set keys" for x
      using that k by blast
    have names: "map (\<lambda>k. e_symbol (the (dict k))) keys = map (\<lambda>k. e_symbol (the (d_symbolDict d k))) keys"
      using same by simp
    have same_e: "d_symbolDict (d1\<lparr>d_symbolDict := dict\<rparr>) (keys ! j) = Some e"
      using same Cons.prems(5,6) by simp
    have "d_symbolDict (handle_chunks lib cp rest (d1\<lparr>d_symbolDict := dict\<rparr>)) (keys ! j) =
      Some (let vs = List.map_filter H (map (\<lambda>k. e_symbol (the (d_symbolDict (d1\<lparr>d_symbolDict := dict\<rparr>) k))) keys)
          in if H (e_symbol e) \<noteq> None \<and> j < length vs then e\<lparr>e_handle := vs ! j, e_resolved := True\<rparr> else e)"
      by (rule Cons.IH [OF _ _ _ k Cons.prems(5) same_e])
        (use Cons.prems same_rest in \<open>auto simp: d1_def server_def\<close>)
    then show ?thesis unfolding step by (simp add: names)
  qed
qed


section \<open>The dictionary\<close>

text \<open>
  What an entry of the dictionary is: it is found under its name in lower case, its name is one of
  \<open>S\<close>, and it has a handle exactly if it is marked as resolved.
\<close>

definition entry_ok :: "string set \<Rightarrow> string \<Rightarrow> AdsSymbolDictEntry \<Rightarrow> bool" where
  "entry_ok S k e \<longleftrightarrow> e_symbolLower e = k \<and> to_lower (e_symbol e) = k \<and> e_symbol e \<in> S \<and>
     (e_resolved e \<longleftrightarrow> e_handle e \<noteq> 0)"

definition dict_ok :: "string set \<Rightarrow> (string \<rightharpoonup> AdsSymbolDictEntry) \<Rightarrow> bool" where
  "dict_ok S dict \<longleftrightarrow> (\<forall>k e. dict k = Some e \<longrightarrow> entry_ok S k e)"

definition unresolved :: "(string \<rightharpoonup> AdsSymbolDictEntry) \<Rightarrow> bool" where
  "unresolved dict \<longleftrightarrow> (\<forall>e \<in> ran dict. \<not> e_resolved e \<and> e_handle e = 0)"

lemma store_info_ok:
  "dict_ok S dict \<Longrightarrow> unresolved dict \<Longrightarrow> name \<in> S \<Longrightarrow>
     dict_ok S (store_info name info ty dict) \<and> unresolved (store_info name info ty dict)"
  by (auto simp: store_info_def Let_def dict_ok_def entry_ok_def unresolved_def ran_def new_dict_entry_def
      split: option.splits)

lemma info_slots_ok:
  "info_slots m i off names dict = Done dict' \<Longrightarrow> dict_ok S dict \<Longrightarrow> unresolved dict \<Longrightarrow> set names \<subseteq> S \<Longrightarrow>
     dict_ok S dict' \<and> unresolved dict'"
proof (induction names arbitrary: i off dict)
  case Nil
  then show ?case by simp
next
  case (Cons name names)
  have n: "name \<in> S" "set names \<subseteq> S" using Cons.prems(4) by simp_all
  show ?case
  proof (cases "u32_at m (8 * i) \<noteq> 0 \<or> u32_at m (8 * i + 4) < 36")
    case True
    then have "info_slots m (Suc i) (off + u32_at m (8 * i + 4)) names dict = Done dict'"
      using Cons.prems(1) by (auto simp: Let_def)
    then show ?thesis by (rule Cons.IH [OF _ Cons.prems(2,3) n(2)])
  next
    case False
    then obtain info ty where "info_slots m (Suc i) (off + u32_at m (8 * i + 4)) names (store_info name info ty dict) = Done dict'"
      using Cons.prems(1) by (auto simp: Let_def run_simps)
    then show ?thesis
      by (rule Cons.IH) (use store_info_ok [OF Cons.prems(2,3) n(1)] n(2) in simp_all)
  qed
qed

lemma info_chunks_ok:
  "info_chunks lib cp cs d = Done (st, d') \<Longrightarrow> dict_ok S (d_symbolDict d) \<Longrightarrow> unresolved (d_symbolDict d) \<Longrightarrow>
     set (concat cs) \<subseteq> S \<Longrightarrow> dict_ok S (d_symbolDict d') \<and> unresolved (d_symbolDict d')"
proof (induction cs arbitrary: d)
  case Nil
  then show ?case by simp
next
  case (Cons names rest)
  let ?f = "AdsSyncReadWriteReqEx2 lib cp (server d (d_amsportDefault d)) (sdk_u lib ''ADSIGRP_SUMUP_READWRITE'')
      (length names) (length names * 8 + length names * sizeof_adsSymbolEntry)
      (sumup_write (sdk_u lib ''ADSIGRP_SYM_INFOBYNAMEEX'') sizeof_adsSymbolEntry names)"
  obtain rc bs bytesRead d1 where c: "call ?f d = ((rc, bs, bytesRead), d1)" by (metis prod.exhaust)
  have d1: "d_symbolDict d1 = d_symbolDict d"
    by (subst call_frame [OF c, THEN conjunct1]) simp
  have ns: "set names \<subseteq> S" "set (concat rest) \<subseteq> S" using Cons.prems(4) by simp_all
  have s: "(if rc \<noteq> 0 then info_chunks lib cp rest d1
     else if bytesRead > length names * 8 + length names * sizeof_adsSymbolEntry then Done (asynError, d1)
     else run_bind (info_slots (received (replicate (length names * 8 + length names * sizeof_adsSymbolEntry) 0) bs) 0
         (8 * length names) names (d_symbolDict d1)) (\<lambda>dict. info_chunks lib cp rest (d1\<lparr>d_symbolDict := dict\<rparr>))) =
     Done (st, d')"
    using Cons.prems(1) c by (simp add: Let_def)
  show ?case
  proof (cases "rc = 0 \<and> bytesRead \<le> length names * 8 + length names * sizeof_adsSymbolEntry")
    case True
    then obtain dict where dict: "info_slots (received (replicate (length names * 8 + length names * sizeof_adsSymbolEntry) 0) bs) 0
         (8 * length names) names (d_symbolDict d1) = Done dict"
        "info_chunks lib cp rest (d1\<lparr>d_symbolDict := dict\<rparr>) = Done (st, d')"
      using s by (auto simp: run_simps)
    have "dict_ok S dict \<and> unresolved dict"
      using info_slots_ok [OF dict(1), of S] d1 Cons.prems(2,3) ns(1) by simp
    then show ?thesis using Cons.IH [OF dict(2)] ns(2) by simp
  next
    case False
    then show ?thesis
      using s d1 Cons.IH [of d1] Cons.prems(2,3) ns(2) by (auto split: if_splits)
  qed
qed

lemma handle_slots_ok:
  "dict_ok S dict \<Longrightarrow> set keys \<subseteq> dom dict \<Longrightarrow>
     dict_ok S (handle_slots m n i keys dict) \<and> dom (handle_slots m n i keys dict) = dom dict"
proof (induction m n i keys dict rule: handle_slots.induct)
  case (1 m n i dict)
  then show ?case by simp
next
  case (2 m n i key keys dict)
  define dict1 where "dict1 = (if u32_at m (8 * i) = 0 \<and> u32_at m (8 * n + 4 * i) \<noteq> 0
    then dict(key \<mapsto> (the (dict key))\<lparr>e_handle := u32_at m (8 * n + 4 * i), e_resolved := True\<rparr>) else dict)"
  obtain e where e: "dict key = Some e" using "2.prems"(2) by auto
  have 1: "dict_ok S dict1" "dom dict1 = dom dict"
    using "2.prems"(1) e by (auto simp: dict1_def dict_ok_def entry_ok_def)
  then show ?case
    using "2.IH" [OF refl refl] "2.prems"(2) by (simp add: Let_def dict1_def)
qed

lemma handle_chunks_ok:
  "dict_ok S (d_symbolDict d) \<Longrightarrow> set (concat cs) \<subseteq> dom (d_symbolDict d) \<Longrightarrow>
     dict_ok S (d_symbolDict (handle_chunks lib cp cs d))"
proof (induction cs arbitrary: d)
  case Nil
  then show ?case by simp
next
  case (Cons keys rest)
  let ?names = "map (\<lambda>k. e_symbol (the (d_symbolDict d k))) keys"
  let ?f = "AdsSyncReadWriteReqEx2 lib cp (server d (d_amsportDefault d)) (sdk_u lib ''ADSIGRP_SUMUP_READWRITE'')
      (length keys) (12 * length keys) (sumup_write (sdk_u lib ''ADSIGRP_SYM_HNDBYNAME'') 4 ?names)"
  obtain rc bs bytesRead d1 where c: "call ?f d = ((rc, bs, bytesRead), d1)" by (metis prod.exhaust)
  have d1: "d_symbolDict d1 = d_symbolDict d"
    by (subst call_frame [OF c, THEN conjunct1]) simp
  have h: "dict_ok S (handle_slots m n i keys (d_symbolDict d1)) \<and>
      dom (handle_slots m n i keys (d_symbolDict d1)) = dom (d_symbolDict d)" for m n i
    using handle_slots_ok [of S "d_symbolDict d1" keys m n i] d1 Cons.prems by simp
  show ?case
    using c d1 Cons.IH Cons.prems h by (simp add: Let_def)
qed


section \<open>The information of a controller that answers\<close>

definition info_found :: "(string \<Rightarrow> nat \<times> u8 list) \<Rightarrow> string \<Rightarrow> bool" where
  "info_found ans s \<longleftrightarrow> fst (ans s) = 0 \<and> 36 \<le> length (snd (ans s))"

definition info_of :: "(string \<Rightarrow> nat \<times> u8 list) \<Rightarrow> string \<Rightarrow> adsSymbolEntry" where
  "info_of ans s = symbol_entry_of (received (replicate sizeof_adsSymbolEntry 0) (snd (ans s)))"

definition type_name :: "adsSymbolEntry \<Rightarrow> string" where
  "type_name info = bytes_text (drop (se_nameLength info + 1) (se_buffer info))"

definition info_answered ::
  "('e, 'z) ads_lib_scheme \<Rightarrow> nat \<Rightarrow> AmsAddr \<Rightarrow> string set \<Rightarrow> (string \<Rightarrow> nat \<times> u8 list) \<Rightarrow> bool" where
  "info_answered lib cp a S ans \<longleftrightarrow>
     (\<forall>s. fst (ans s) < 2 ^ 32 \<and> length (snd (ans s)) \<le> sizeof_adsSymbolEntry \<and>
        (info_found ans s \<longrightarrow> 0 \<in> set (drop (se_nameLength (info_of ans s) + 1) (se_buffer (info_of ans s))))) \<and>
     (\<forall>names e. set names \<subseteq> S \<longrightarrow> length names \<le> CHUNK_SIZE \<longrightarrow>
        (\<exists>e'. AdsSyncReadWriteReqEx2 lib cp a (sdk_u lib ''ADSIGRP_SUMUP_READWRITE'') (length names)
            (length names * 8 + length names * sizeof_adsSymbolEntry)
            (sumup_write (sdk_u lib ''ADSIGRP_SYM_INFOBYNAMEEX'') sizeof_adsSymbolEntry names) e =
          ((0, sumup_answer ans names, length (sumup_answer ans names)), e')))"

definition store_found ::
  "(string \<Rightarrow> nat \<times> u8 list) \<Rightarrow> string \<Rightarrow> (string \<rightharpoonup> AdsSymbolDictEntry) \<Rightarrow> (string \<rightharpoonup> AdsSymbolDictEntry)" where
  "store_found ans s dict =
     (if info_found ans s then store_info s (info_of ans s) (type_name (info_of ans s)) dict else dict)"

lemma info_slots_answer:
  assumes "info_answered lib cp a S ans" and "names = pre @ post"
    and "off = 8 * length names + length (concat (map (\<lambda>s. snd (ans s)) pre))"
  shows "info_slots (sumup_answer ans names @ z) (length pre) off post dict = Done (fold (store_found ans) post dict)"
  using assms(2,3)
proof (induction post arbitrary: pre off dict)
  case Nil
  then show ?case by simp
next
  case (Cons s post)
  let ?m = "sumup_answer ans names @ z"
  have j: "length pre < length names" "names ! length pre = s" using Cons.prems(1) by simp_all
  have b: "fst (ans s) < 2 ^ 32" "length (snd (ans s)) \<le> sizeof_adsSymbolEntry"
    "info_found ans s \<Longrightarrow> 0 \<in> set (drop (se_nameLength (info_of ans s) + 1) (se_buffer (info_of ans s)))"
    using assms(1) by (simp_all add: info_answered_def)
  then have "length (snd (ans s)) < 2 ^ 32" by (simp add: sizeof_adsSymbolEntry_def)
  with b(1) have r: "u32_at ?m (8 * length pre) = fst (ans s)" "u32_at ?m (8 * length pre + 4) = length (snd (ans s))"
    using sumup_status [OF j(1), of ans z] j(2) by simp_all
  have "drop off ?m = drop (length (concat (map (\<lambda>s. snd (ans s)) pre))) (drop (8 * length names) ?m)"
    unfolding drop_drop Cons.prems(2) by (simp only: add.commute)
  also have "\<dots> = snd (ans s) @ concat (map (\<lambda>s. snd (ans s)) post) @ z"
    unfolding sumup_data by (simp add: Cons.prems(1))
  finally have d: "drop off ?m = snd (ans s) @ concat (map (\<lambda>s. snd (ans s)) post) @ z" .
  have "length (drop off ?m) \<ge> length (snd (ans s))" unfolding d by simp
  then have "off + length (snd (ans s)) \<le> length ?m \<or> snd (ans s) = []" by (cases "snd (ans s)") auto
  then have rd: "mem_read ?m off (length (snd (ans s))) = Done (snd (ans s))" if "snd (ans s) \<noteq> []"
    using that d by (simp add: mem_read_def)
  have next': "info_slots ?m (Suc (length pre)) (off + length (snd (ans s))) post x = Done (fold (store_found ans) post x)" for x
    using Cons.IH [of "pre @ [s]" "off + length (snd (ans s))" x] Cons.prems by simp
  show ?case
  proof (cases "info_found ans s")
    case True
    then have "snd (ans s) \<noteq> []" and n: "\<not> (fst (ans s) \<noteq> 0 \<or> length (snd (ans s)) < 36)"
      by (auto simp: info_found_def)
    moreover have "entry_datatype (info_of ans s) = Done (type_name (info_of ans s))"
      using b(3) [OF True] by (simp add: entry_datatype_def type_name_def)
    ultimately show ?thesis
      using rd b(2) next' True by (simp add: r Let_def info_of_def [symmetric] store_found_def [of ans s] min_absorb1)
  next
    case False
    then have "fst (ans s) \<noteq> 0 \<or> length (snd (ans s)) < 36" by (auto simp: info_found_def)
    then show ?thesis using next' False by (simp add: r Let_def store_found_def [of ans s])
  qed
qed

lemma sumup_answer_length:
  "(\<And>s. length (snd (ans s)) \<le> k) \<Longrightarrow> length (sumup_answer ans names) \<le> length names * 8 + length names * k"
proof -
  assume k: "\<And>s. length (snd (ans s)) \<le> k"
  have "length (concat (map (\<lambda>s. snd (ans s)) names)) \<le> length names * k"
    using k by (induction names) (simp_all add: add_mono)
  then show ?thesis by (simp add: sumup_answer_def concat_const_length [of _ 8])
qed

lemma info_chunks_answer:
  assumes "info_answered lib cp (server d (d_amsportDefault d)) S ans" and "\<forall>c \<in> set cs. length c \<le> CHUNK_SIZE"
    and "set (concat cs) \<subseteq> S"
  shows "\<exists>d'. info_chunks lib cp cs d = Done (asynSuccess, d') \<and>
    d_symbolDict d' = fold (store_found ans) (concat cs) (d_symbolDict d)"
  using assms
proof (induction cs arbitrary: d)
  case Nil
  then show ?case by simp
next
  case (Cons names rest)
  let ?rb = "length names * 8 + length names * sizeof_adsSymbolEntry"
  obtain e' where "AdsSyncReadWriteReqEx2 lib cp (server d (d_amsportDefault d))
      (sdk_u lib ''ADSIGRP_SUMUP_READWRITE'') (length names) ?rb
      (sumup_write (sdk_u lib ''ADSIGRP_SYM_INFOBYNAMEEX'') sizeof_adsSymbolEntry names) (env d) =
      ((0, sumup_answer ans names, length (sumup_answer ans names)), e')"
    using Cons.prems(1) [unfolded info_answered_def, THEN conjunct2, rule_format, of names "env d"] Cons.prems(2,3)
    by auto
  then have c: "call (AdsSyncReadWriteReqEx2 lib cp (server d (d_amsportDefault d))
      (sdk_u lib ''ADSIGRP_SUMUP_READWRITE'') (length names) ?rb
      (sumup_write (sdk_u lib ''ADSIGRP_SYM_INFOBYNAMEEX'') sizeof_adsSymbolEntry names)) d =
      ((0, sumup_answer ans names, length (sumup_answer ans names)), d\<lparr>env := e'\<rparr>)"
    by (simp add: call_def)
  have l: "length (sumup_answer ans names) \<le> ?rb"
    by (rule sumup_answer_length) (use Cons.prems(1) in \<open>simp add: info_answered_def\<close>)
  have "info_slots (received (replicate ?rb 0) (sumup_answer ans names)) 0 (8 * length names) names (d_symbolDict d) =
      Done (fold (store_found ans) names (d_symbolDict d))"
    using info_slots_answer [OF Cons.prems(1), of names "[]" names "8 * length names"
        "replicate (?rb - length (sumup_answer ans names)) 0" "d_symbolDict d"] l
    by (simp add: received_def)
  moreover have "\<exists>d'. info_chunks lib cp rest (d\<lparr>env := e', d_symbolDict := x\<rparr>) = Done (asynSuccess, d') \<and>
      d_symbolDict d' = fold (store_found ans) (concat rest) x" for x
    using Cons.IH [of "d\<lparr>env := e', d_symbolDict := x\<rparr>"] Cons.prems by (simp add: server_def)
  ultimately show ?case using c l by (simp add: Let_def)
qed

lemma unique_lower_distinct: "distinct (map to_lower (unique_lower seen ss)) \<and> to_lower ` set (unique_lower seen ss) \<inter> seen = {}"
  by (induction seen ss rule: unique_lower.induct) auto

lemma unique_lower_subset: "set (unique_lower seen ss) \<subseteq> set ss"
  by (induction seen ss rule: unique_lower.induct) auto

lemma find_unique_lower:
  "k \<notin> seen \<Longrightarrow> find (\<lambda>s. to_lower s = k) (unique_lower seen ss) = find (\<lambda>s. to_lower s = k) ss"
  by (induction seen ss rule: unique_lower.induct) auto

definition dict_entry_of :: "adsSymbolEntry \<Rightarrow> string \<Rightarrow> AdsSymbolDictEntry" where
  "dict_entry_of info s =
     \<lparr>e_symbol = s, e_symbolLower = to_lower s, e_datatype = type_name info, e_pvName = [],
      e_size = se_size info, e_adst = se_dataType info, e_handle = 0, e_resolved = False\<rparr>"

lemma fold_store_found:
  "distinct (map to_lower names) \<Longrightarrow> \<forall>s \<in> set names. dict (to_lower s) = None \<Longrightarrow>
     fold (store_found ans) names dict k =
       (case find (\<lambda>s. to_lower s = k) names of
          None \<Rightarrow> dict k
        | Some s \<Rightarrow> if info_found ans s then Some (dict_entry_of (info_of ans s) s) else None)"
proof (induction names arbitrary: dict)
  case Nil
  then show ?case by simp
next
  case (Cons s names)
  have "to_lower t \<noteq> to_lower s" if "t \<in> set names" for t
    using Cons.prems(1) that by (auto simp: image_iff)
  then have n: "\<forall>t \<in> set names. store_found ans s dict (to_lower t) = None"
    using Cons.prems(2) by (auto simp: store_found_def store_info_def Let_def)
  have other: "find (\<lambda>s. to_lower s = k) names = None" if "to_lower s = k"
    using Cons.prems(1) that by (auto simp: find_None_iff image_iff)
  have "store_found ans s dict k = (if to_lower s = k then
      (if info_found ans s then Some (dict_entry_of (info_of ans s) s) else None) else dict k)"
    using Cons.prems(2)
    by (auto simp: store_found_def store_info_def Let_def dict_entry_of_def new_dict_entry_def)
  then show ?case
    using Cons.IH [OF _ n] Cons.prems(1) other
    by (cases "to_lower s = k") (auto split: option.split)
qed

section \<open>Properties\<close>

text \<open>The names that the links of the loaded database give for the port of the driver.\<close>

definition link_symbols ::
  "database \<Rightarrow> ((string \<times> string \<rightharpoonup> RecordInfoCache) \<Rightarrow> (string \<times> string) list) \<Rightarrow> 'e driver \<Rightarrow> string list" where
  "link_symbols pdbbase link_order d =
     symbols_of_links (d_portName d) (link_order (d_drvInfoCache (buildDrvInfoCache pdbbase d)))"

lemma resolveSymbolInfo_eq:
  "\<exists>d1. resolveSymbolInfo lib pdbbase link_order cp d =
     (if link_symbols pdbbase link_order d = [] then Done (asynSuccess, d1)
      else info_chunks lib cp (chunks CHUNK_SIZE (unique_lower {} (link_symbols pdbbase link_order d))) d1) \<and>
     d_symbolDict d1 = Map.empty \<and> server d1 (d_amsportDefault d1) = server d (d_amsportDefault d)"
proof -
  define d1 where "d1 = buildDrvInfoCache pdbbase (d\<lparr>d_symbolDict := Map.empty\<rparr>)"
  have "d_portName d1 = d_portName d" "d_drvInfoCache d1 = d_drvInfoCache (buildDrvInfoCache pdbbase d)"
    "d_symbolDict d1 = Map.empty" "server d1 (d_amsportDefault d1) = server d (d_amsportDefault d)"
    by (simp_all add: d1_def buildDrvInfoCache_def server_def split: option.splits)
  then show ?thesis
    unfolding resolveSymbolInfo_def d1_def [symmetric] link_symbols_def Let_def by auto
qed

lemma resolveSymbolInfo_answer:
  assumes "info_answered lib cp (server d (d_amsportDefault d)) (set (link_symbols pdbbase link_order d)) ans"
  shows "\<exists>d'. resolveSymbolInfo lib pdbbase link_order cp d = Done (asynSuccess, d') \<and>
    (\<forall>k. d_symbolDict d' k =
       (case find (\<lambda>s. to_lower s = k) (link_symbols pdbbase link_order d) of
          None \<Rightarrow> None
        | Some s \<Rightarrow> if info_found ans s then Some (dict_entry_of (info_of ans s) s) else None))"
proof -
  let ?syms = "link_symbols pdbbase link_order d"
  let ?cs = "chunks CHUNK_SIZE (unique_lower {} ?syms)"
  obtain d1 where d1: "resolveSymbolInfo lib pdbbase link_order cp d =
      (if ?syms = [] then Done (asynSuccess, d1) else info_chunks lib cp ?cs d1)"
    "d_symbolDict d1 = Map.empty" "server d1 (d_amsportDefault d1) = server d (d_amsportDefault d)"
    using resolveSymbolInfo_eq by blast
  have cs: "\<forall>c \<in> set ?cs. length c \<le> CHUNK_SIZE" "concat ?cs = unique_lower {} ?syms"
    using chunks_sizes by (blast, simp add: chunks_concat CHUNK_SIZE_def)
  obtain d' where d': "info_chunks lib cp ?cs d1 = Done (asynSuccess, d')"
    "d_symbolDict d' = fold (store_found ans) (unique_lower {} ?syms) Map.empty"
    using info_chunks_answer [OF _ cs(1), of lib cp d1 "set ?syms" ans] assms d1(2,3) cs(2)
      unique_lower_subset [of "{}" ?syms] by auto
  have "d_symbolDict d' k =
       (case find (\<lambda>s. to_lower s = k) ?syms of None \<Rightarrow> None
        | Some s \<Rightarrow> if info_found ans s then Some (dict_entry_of (info_of ans s) s) else None)" for k
    unfolding d'(2) using fold_store_found [of "unique_lower {} ?syms" Map.empty ans k]
      unique_lower_distinct [of "{}" ?syms] find_unique_lower [of k "{}" ?syms] by simp
  then show ?thesis using d1(1,2) d'(1) by (cases "?syms = []") auto
qed


text \<open>
  C24: the answers about any number of symbols, in any number of requests and with parts that fail, are
  taken apart correctly: afterwards the dictionary holds exactly the symbols that the controller knows,
  each under its name in lower case, with the size, the type and the type name of its own answer.
\<close>
theorem symbol_info_demux:
  assumes "info_answered lib cp (server d (d_amsportDefault d)) (set (link_symbols pdbbase link_order d)) ans"
  shows "\<exists>d'. resolveSymbolInfo lib pdbbase link_order cp d = Done (asynSuccess, d') \<and>
    (\<forall>k. d_symbolDict d' k =
       (case find (\<lambda>s. to_lower s = k) (link_symbols pdbbase link_order d) of
          None \<Rightarrow> None
        | Some s \<Rightarrow> if info_found ans s then Some (dict_entry_of (info_of ans s) s) else None))"
  using assms by (rule resolveSymbolInfo_answer)

text \<open>
  C26: after the information and the handles of all symbols were asked for, whatever the controller
  answered, every entry of the dictionary is found under its own name in lower case, its name is that of
  a link of the loaded database, and it is marked as resolved exactly if it has a handle.
\<close>
theorem symbol_dict_consistent:
  assumes "resolveSymbolInfo lib pdbbase link_order cp d = Done (st, d1)"
    and "set (dict_order (d_symbolDict d1)) \<subseteq> dom (d_symbolDict d1)"
    and "resolveSymbolHandles lib dict_order cp d1 = (st', d2)" and "d_symbolDict d2 k = Some e"
  shows "e_symbolLower e = k \<and> to_lower (e_symbol e) = k \<and>
    e_symbol e \<in> set (link_symbols pdbbase link_order d) \<and> (e_resolved e \<longleftrightarrow> e_handle e \<noteq> 0)"
proof -
  let ?syms = "link_symbols pdbbase link_order d"
  let ?cs = "chunks CHUNK_SIZE (unique_lower {} ?syms)"
  obtain d0 where d0: "resolveSymbolInfo lib pdbbase link_order cp d =
      (if ?syms = [] then Done (asynSuccess, d0) else info_chunks lib cp ?cs d0)" "d_symbolDict d0 = Map.empty"
    using resolveSymbolInfo_eq by blast
  have cs: "concat ?cs = unique_lower {} ?syms" by (simp add: chunks_concat CHUNK_SIZE_def)
  have e: "dict_ok S Map.empty" "unresolved Map.empty" for S by (simp_all add: dict_ok_def unresolved_def)
  have 1: "dict_ok (set ?syms) (d_symbolDict d1)"
  proof (cases "?syms = []")
    case True
    then show ?thesis using assms(1) d0 e(1) by simp
  next
    case False
    then have "info_chunks lib cp ?cs d0 = Done (st, d1)" using assms(1) d0(1) by simp
    then show ?thesis
      by (rule info_chunks_ok [THEN conjunct1]) (use d0(2) e cs unique_lower_subset in auto)
  qed
  have "set (concat (chunks CHUNK_SIZE (dict_order (d_symbolDict d1)))) \<subseteq> dom (d_symbolDict d1)"
    using assms(2) by (simp add: chunks_concat CHUNK_SIZE_def)
  from handle_chunks_ok [OF 1 this, of lib cp] have "dict_ok (set ?syms) (d_symbolDict d2)"
    using assms(3) by (auto simp: resolveSymbolHandles_def)
  then show ?thesis using assms(4) by (simp add: dict_ok_def entry_ok_def)
qed

text \<open>
  C25: a symbol gets its own handle exactly if the controller knows it and every symbol before it in the
  same request: the handles are taken from fixed places, while the controller packs the data of the
  parts that succeed, so behind the first part that fails every handle belongs to another symbol.
\<close>
theorem symbol_handle_own:
  assumes "handles_answered lib cp (server d (d_amsportDefault d)) S H err"
    and "dict_ok S (d_symbolDict d)" and "unresolved (d_symbolDict d)"
    and "distinct (dict_order (d_symbolDict d))" and "set (dict_order (d_symbolDict d)) = dom (d_symbolDict d)"
    and "keys \<in> set (chunks CHUNK_SIZE (dict_order (d_symbolDict d)))" and "j < length keys"
  shows "\<exists>d' e. resolveSymbolHandles lib dict_order cp d = (asynSuccess, d') \<and>
    d_symbolDict d' (keys ! j) = Some e \<and> to_lower (e_symbol e) = keys ! j \<and>
    (e_resolved e \<and> H (e_symbol e) = Some (e_handle e) \<longleftrightarrow>
      (\<forall>i \<le> j. H (e_symbol (the (d_symbolDict d (keys ! i)))) \<noteq> None))"
proof -
  let ?cs = "chunks CHUNK_SIZE (dict_order (d_symbolDict d))"
  let ?names = "map (\<lambda>k. e_symbol (the (d_symbolDict d k))) keys"
  let ?vs = "List.map_filter H ?names"
  have cs: "concat ?cs = dict_order (d_symbolDict d)" by (simp add: chunks_concat CHUNK_SIZE_def)
  have sz: "\<forall>c \<in> set ?cs. length c \<le> CHUNK_SIZE" using chunks_sizes by blast
  have sub: "set keys \<subseteq> dom (d_symbolDict d)" using assms(5,6) cs by (metis UN_upper set_concat)
  then obtain e where e: "d_symbolDict d (keys ! j) = Some e" using assms(7) nth_mem by blast
  have ok: "to_lower (e_symbol e) = keys ! j" "\<not> e_resolved e"
    using e assms(2,3) by (auto simp: dict_ok_def entry_ok_def unresolved_def ran_def)
  have symS: "\<forall>k \<in> dom (d_symbolDict d). e_symbol (the (d_symbolDict d k)) \<in> S"
    using assms(2) by (auto simp: dict_ok_def entry_ok_def)
  have "distinct keys" using assms(4,6) cs by (metis distinct_concat_iff)
  moreover have "inj_on (\<lambda>k. e_symbol (the (d_symbolDict d k))) (set keys)"
    by (rule inj_on_inverseI [where g = to_lower]) (use sub assms(2) in \<open>auto simp: dict_ok_def entry_ok_def\<close>)
  ultimately have dn: "distinct ?names" by (simp add: distinct_map)
  let ?e = "if H (e_symbol e) \<noteq> None \<and> j < length ?vs then e\<lparr>e_handle := ?vs ! j, e_resolved := True\<rparr> else e"
  have at: "d_symbolDict (handle_chunks lib cp ?cs d) (keys ! j) = Some ?e"
    using handle_chunks_at [OF assms(1) _ sz assms(6,7) e] assms(4,5) cs symS by (simp add: Let_def)
  have nj: "?names ! j = e_symbol e" using assms(7) e by simp
  have inj: "\<And>s t k. H s = Some k \<Longrightarrow> H t = Some k \<Longrightarrow> s = t" using assms(1) by (auto simp: handles_answered_def)
  have "(e_resolved ?e \<and> H (e_symbol ?e) = Some (e_handle ?e)) \<longleftrightarrow> (\<forall>i \<le> j. H (?names ! i) \<noteq> None)"
  proof (cases "H (e_symbol e)")
    case None
    then show ?thesis using ok(2) nj by auto
  next
    case (Some h)
    have "(\<forall>i \<le> j. H (?names ! i) \<noteq> None) \<longleftrightarrow> (\<forall>i < j. H (?names ! i) \<noteq> None)"
      using Some nj by (metis le_less option.distinct(1))
    also have "\<dots> \<longleftrightarrow> j < length ?vs \<and> ?vs ! j = h"
      using found_nth [OF dn, where j = j and H = H and h = h] inj assms(7) Some nj by simp
    finally show ?thesis using Some ok(2) by auto
  qed
  moreover have "(\<forall>i \<le> j. H (?names ! i) \<noteq> None) \<longleftrightarrow>
      (\<forall>i \<le> j. H (e_symbol (the (d_symbolDict d (keys ! i)))) \<noteq> None)"
    using assms(7) by simp
  moreover have "to_lower (e_symbol ?e) = keys ! j" using ok(1) by simp
  ultimately show ?thesis using at unfolding resolveSymbolHandles_def by blast
qed


section \<open>Examples\<close>

text \<open>
  A controller that answers requests about symbols of one letter: it finds the names in the request, and
  tells the two kinds of request by the length of the answer that is asked for.
\<close>

definition letter_names :: "nat \<Rightarrow> u8 list \<Rightarrow> string list" where
  "letter_names n w = map (\<lambda>b. [char_of (unat b)]) (drop (16 * n) w)"

definition letter_lib :: "(string \<Rightarrow> nat \<times> u8 list) \<Rightarrow> (string \<Rightarrow> nat option) \<Rightarrow> unit ads_lib" where
  "letter_lib ans H = zero_lib\<lparr>AdsSyncReadWriteReqEx2 := (\<lambda>c a g n len w e.
     let m = sumup_answer (if len = 12 * n then handle_answer H 1808 else ans) (letter_names n w)
     in ((0, m, length m), e))\<rparr>"

definition letter_image :: "u8 list" where
  "letter_image = le_bytes 4 36 @ le_bytes 4 1 @ le_bytes 4 2 @ le_bytes 4 2 @ le_bytes 4 2 @ le_bytes 4 0 @
     le_bytes 2 1 @ le_bytes 2 3 @ le_bytes 2 0 @ [120, 0, 73, 78, 84, 0]"

definition letter_info :: "string \<Rightarrow> nat \<times> u8 list" where
  "letter_info s = (if s = ''x'' then (0, letter_image) else (1808, []))"

definition letter_handle :: "string \<Rightarrow> nat option" where
  "letter_handle s = (if s = ''y'' then Some 7 else None)"

definition letter_db :: database where
  "letter_db = Some [(''ai'', [
     \<lparr>db_name = ''A'', db_isAlias = False, db_fields = [''INP'' \<mapsto> Some ''@asyn(PLC1,0,1)x?'']\<rparr>,
     \<lparr>db_name = ''B'', db_isAlias = False, db_fields = [''INP'' \<mapsto> Some ''@asyn(PLC1,0,1)POLL_RATE=1/y?'']\<rparr>])]"

definition letter_order :: "(string \<times> string \<rightharpoonup> RecordInfoCache) \<Rightarrow> (string \<times> string) list" where
  "letter_order m = filter (\<lambda>k. m k \<noteq> None) [(''PLC1'', ''x?''), (''PLC1'', ''POLL_RATE=1/y?'')]"

lemma letter_names_request:
  "\<forall>s \<in> set names. length s = 1 \<Longrightarrow> letter_names (length names) (sumup_write g r names) = names"
proof -
  assume "\<forall>s \<in> set names. length s = 1"
  then have "map (\<lambda>b. [char_of (unat b)]) (concat (map text_bytes names)) = names"
    by (induction names) (auto simp: text_bytes_def length_Suc_conv)
  then show ?thesis
    by (simp add: letter_names_def sumup_write_def concat_const_length [of _ 16] sumup_header_def)
qed

lemma letter_links: "scan_link ''@asyn(PLC1,0,1)x?'' = Some (''PLC1'', ''x?'')"
  "scan_link ''@asyn(PLC1,0,1)POLL_RATE=1/y?'' = Some (''PLC1'', ''POLL_RATE=1/y?'')"
  by (simp_all add: scan_link_def scan_lit_def scan_set_def scan_str_def scan_int_def scan_to_def scan_dec_def
      skip_space_def is_space_def is_digit_def Let_def)

lemma letter_symbols: "link_symbols letter_db letter_order demo_driver = [''x'', ''y'']"
proof -
  have p: "d_portName demo_driver = ''PLC1''" "\<not> d_drvInfoCacheBuilt demo_driver" "d_drvInfoCache demo_driver = Map.empty"
    by (simp_all add: demo_driver_def constructed_def)
  have "\<exists>a b. d_drvInfoCache (buildDrvInfoCache letter_db demo_driver) =
      [(''PLC1'', ''x?'') \<mapsto> a, (''PLC1'', ''POLL_RATE=1/y?'') \<mapsto> b]"
    using p by (auto simp: buildDrvInfoCache_def letter_db_def cache_record_def tryLink_def letter_links cache_link_def Let_def)
  then have "letter_order (d_drvInfoCache (buildDrvInfoCache letter_db demo_driver)) =
      [(''PLC1'', ''x?''), (''PLC1'', ''POLL_RATE=1/y?'')]"
    by (auto simp: letter_order_def)
  moreover have "symbol_of_link ''x?'' = Some ''x''" "symbol_of_link ''POLL_RATE=1/y?'' = Some ''y''"
    by code_simp+
  ultimately show ?thesis
    by (simp add: link_symbols_def symbols_of_links_def map_filter_simps p)
qed

lemma letter_entry: "dict_entry_of (info_of letter_info ''x'') ''x'' =
    \<lparr>e_symbol = ''x'', e_symbolLower = ''x'', e_datatype = ''INT'', e_pvName = [],
      e_size = 2, e_adst = 2, e_handle = 0, e_resolved = False\<rparr>"
  by code_simp

lemma letter_info_answered: "info_answered (letter_lib letter_info H) cp a {''x'', ''y''} letter_info"
proof -
  have f: "fst (letter_info s) < 2 ^ 32" "length (snd (letter_info s)) \<le> sizeof_adsSymbolEntry" for s
    by (simp_all add: letter_info_def letter_image_def sizeof_adsSymbolEntry_def)
  have x: "0 \<in> set (drop (se_nameLength (info_of letter_info ''x'') + 1) (se_buffer (info_of letter_info ''x'')))"
    by code_simp
  have z: "0 \<in> set (drop (se_nameLength (info_of letter_info s) + 1) (se_buffer (info_of letter_info s)))"
    if "info_found letter_info s" for s
    using that x by (cases "s = ''x''") (simp_all add: info_found_def letter_info_def)
  have n: "names = [] \<or> length names * 8 + length names * sizeof_adsSymbolEntry \<noteq> 12 * length names" for names :: "string list"
    by (cases names) (simp_all add: sizeof_adsSymbolEntry_def)
  have l: "letter_names (length names) (sumup_write g r names) = names" if "set names \<subseteq> {''x'', ''y''}" for names g r
    by (rule letter_names_request) (use that in auto)
  have "sumup_answer f [] = []" for f by (simp add: sumup_answer_def)
  then show ?thesis
    using f z n l by (fastforce simp: info_answered_def letter_lib_def Let_def)
qed

lemma letter_handles_answered: "handles_answered (letter_lib ans letter_handle) cp a {''x'', ''y''} letter_handle 1808"
proof -
  have l: "letter_names (length names) (sumup_write g r names) = names" if "set names \<subseteq> {''x'', ''y''}" for names g r
    by (rule letter_names_request) (use that in auto)
  then show ?thesis
    by (simp add: handles_answered_def letter_lib_def Let_def letter_handle_def)
qed

lemma symbol_info_demux_witness:
  "\<exists>d'. resolveSymbolInfo (letter_lib letter_info letter_handle) letter_db letter_order 1 demo_driver =
       Done (asynSuccess, d') \<and>
     d_symbolDict d' ''x'' = Some \<lparr>e_symbol = ''x'', e_symbolLower = ''x'', e_datatype = ''INT'', e_pvName = [],
       e_size = 2, e_adst = 2, e_handle = 0, e_resolved = False\<rparr> \<and>
     d_symbolDict d' ''y'' = None"
proof -
  have a: "info_answered (letter_lib letter_info letter_handle) 1 (server demo_driver (d_amsportDefault demo_driver))
      (set (link_symbols letter_db letter_order demo_driver)) letter_info"
    using letter_info_answered by (simp add: letter_symbols)
  have l: "to_lower ''x'' = ''x''" "to_lower ''y'' = ''y''" "info_found letter_info ''x''" "\<not> info_found letter_info ''y''"
    by code_simp+
  show ?thesis
    using symbol_info_demux [OF a] letter_symbols letter_entry l by auto
qed


lemma chunks_small: "xs \<noteq> [] \<Longrightarrow> length xs \<le> n \<Longrightarrow> chunks n xs = [xs]"
  by (cases n; subst chunks.simps) (auto simp: chunks.simps [of _ "[]"])

lemma symbol_dict_consistent_witness:
  "\<exists>d1 d2 e. resolveSymbolInfo (letter_lib letter_info letter_handle) letter_db letter_order 1 demo_driver =
       Done (asynSuccess, d1) \<and>
     resolveSymbolHandles (letter_lib letter_info letter_handle) (\<lambda>_. [''x'']) 1 d1 = (asynSuccess, d2) \<and>
     d_symbolDict d2 ''x'' = Some e \<and> e_symbolLower e = ''x'' \<and> to_lower (e_symbol e) = ''x'' \<and>
     e_symbol e \<in> {''x'', ''y''} \<and> (e_resolved e \<longleftrightarrow> e_handle e \<noteq> 0)"
proof -
  let ?lib = "letter_lib letter_info letter_handle"
  have a: "info_answered ?lib 1 (server demo_driver (d_amsportDefault demo_driver))
      (set (link_symbols letter_db letter_order demo_driver)) letter_info"
    using letter_info_answered by (simp add: letter_symbols)
  have l: "to_lower ''x'' = ''x''" "info_found letter_info ''x''" by code_simp+
  obtain d1 where d1: "resolveSymbolInfo ?lib letter_db letter_order 1 demo_driver = Done (asynSuccess, d1)"
    "d_symbolDict d1 ''x'' = Some (dict_entry_of (info_of letter_info ''x'') ''x'')"
    using resolveSymbolInfo_answer [OF a] letter_symbols l by auto
  obtain d2 where d2: "resolveSymbolHandles ?lib (\<lambda>_. [''x'']) 1 d1 = (asynSuccess, d2)"
    "d2 = handle_chunks ?lib 1 [[''x'']] d1"
    by (simp add: resolveSymbolHandles_def chunks_small CHUNK_SIZE_def)
  obtain e where e: "d_symbolDict d2 ''x'' = Some e"
  proof -
    have "d_symbolDict (handle_chunks ?lib 1 [[''x'']] d1) ([''x''] ! 0) \<noteq> None"
      by (subst handle_chunks_at [OF letter_handles_answered, where e = "dict_entry_of (info_of letter_info ''x'') ''x''"])
        (use d1(2) letter_entry in \<open>simp_all add: CHUNK_SIZE_def\<close>)
    then show thesis using that by (auto simp: d2(2) simp del: handle_chunks.simps)
  qed
  have "e_symbolLower e = ''x'' \<and> to_lower (e_symbol e) = ''x'' \<and>
    e_symbol e \<in> set (link_symbols letter_db letter_order demo_driver) \<and> (e_resolved e \<longleftrightarrow> e_handle e \<noteq> 0)"
    by (rule symbol_dict_consistent [OF d1(1) _ d2(1) e]) (use d1(2) in auto)
  then show ?thesis using d1(1) d2(1) e letter_symbols by auto
qed

lemma symbol_handle_own_witness:
  "\<exists>d' e. resolveSymbolHandles (letter_lib letter_info letter_handle) (\<lambda>_. [''x'', ''y'']) 1
       (demo_driver\<lparr>d_symbolDict := [''x'' \<mapsto> dict_entry_of (info_of letter_info ''x'') ''x'',
          ''y'' \<mapsto> dict_entry_of (info_of letter_info ''y'') ''y'']\<rparr>) = (asynSuccess, d') \<and>
     d_symbolDict d' ''y'' = Some e \<and> to_lower (e_symbol e) = ''y'' \<and>
     \<not> (e_resolved e \<and> letter_handle (e_symbol e) = Some (e_handle e))"
proof -
  let ?d = "demo_driver\<lparr>d_symbolDict := [''x'' \<mapsto> dict_entry_of (info_of letter_info ''x'') ''x'',
          ''y'' \<mapsto> dict_entry_of (info_of letter_info ''y'') ''y'']\<rparr>"
  have l: "to_lower ''x'' = ''x''" "to_lower ''y'' = ''y''" by code_simp+
  have ok: "dict_ok {''x'', ''y''} (d_symbolDict ?d)" "unresolved (d_symbolDict ?d)"
    using l by (auto simp: dict_ok_def entry_ok_def unresolved_def dict_entry_of_def)
  have "\<exists>d' e. resolveSymbolHandles (letter_lib letter_info letter_handle) (\<lambda>_. [''x'', ''y'']) 1 ?d = (asynSuccess, d') \<and>
      d_symbolDict d' ([''x'', ''y''] ! 1) = Some e \<and> to_lower (e_symbol e) = [''x'', ''y''] ! 1 \<and>
      (e_resolved e \<and> letter_handle (e_symbol e) = Some (e_handle e) \<longleftrightarrow>
        (\<forall>i \<le> 1. letter_handle (e_symbol (the (d_symbolDict ?d ([''x'', ''y''] ! i)))) \<noteq> None))"
    by (rule symbol_handle_own [OF letter_handles_answered ok])
      (auto simp: chunks_small CHUNK_SIZE_def)
  moreover have "\<not> (\<forall>i \<le> 1. letter_handle (e_symbol (the (d_symbolDict ?d ([''x'', ''y''] ! i)))) \<noteq> None)"
    by (auto intro!: exI [of _ 0] simp: letter_handle_def dict_entry_of_def)
  ultimately show ?thesis by auto
qed

end
