(* ===== verification/Ads_OctetArgs.thy ===== *)
theory Ads_OctetArgs
  imports Ads_Prelude
begin

text \<open>
  Splitting a command line of the octet interface into arguments and separators
  (\<^verbatim>\<open>octetCreateArgvSepv\<close>).  The result is the count \<open>argc\<close> and the
  arrays \<open>argv\<close> and \<open>sepv\<close> up to index \<open>argc\<close>; index 0 holds the whole
  line.  Exhaustion of the heap is not modelled.
\<close>

text \<open>
  One round of the loop takes the text up to the next separator; the loop ends when nothing follows
  the separator.
\<close>

definition next_begin :: "char \<Rightarrow> string \<Rightarrow> string" where
  "next_begin sep s = (case dropWhile (\<lambda>c. c \<noteq> sep) s of [] \<Rightarrow> [] | _ # t \<Rightarrow> t)"

lemma next_begin_shorter: "next_begin sep s \<noteq> [] \<Longrightarrow> length (next_begin sep s) < length s"
  using length_dropWhile_le [of "\<lambda>c. c \<noteq> sep" s]
  by (cases "dropWhile (\<lambda>c. c \<noteq> sep) s") (simp_all add: next_begin_def)

function argv_loop :: "char \<Rightarrow> string \<Rightarrow> (string \<times> string) list" where
  "argv_loop sep arg_begin =
     (takeWhile (\<lambda>c. c \<noteq> sep) arg_begin,
      if dropWhile (\<lambda>c. c \<noteq> sep) arg_begin = [] then [] else [sep]) #
     (if next_begin sep arg_begin = [] then [] else argv_loop sep (next_begin sep arg_begin))"
  by pat_completeness auto
termination
  by (relation "measure (\<lambda>(sep, s). length s)") (auto intro: next_begin_shorter)

declare argv_loop.simps [simp del]

definition octetCreateArgvSepv :: "string \<Rightarrow> nat \<times> string list \<times> string list" where
  "octetCreateArgvSepv line =
     (if line = [] then (0, [line], [[]])
      else
        let separator = (if strchr line CHR '';'' \<noteq> None then Some CHR '';''
                         else if strchr line CHR '' '' \<noteq> None then Some CHR '' '' else None)
        in case separator of
             Some sep \<Rightarrow>
               let ps = argv_loop sep line
               in (length ps, line # map fst ps, [] # map snd ps)
           | None \<Rightarrow> (1, [line, line], [[], []]))"

text \<open>Both arrays are allocated with this many entries.\<close>

definition argv_calloc_len :: "string \<Rightarrow> nat" where
  "argv_calloc_len line = 2 + length line"

section \<open>The loop loses nothing and splits everywhere\<close>

lemma argv_loop_last:
  assumes "dropWhile (\<lambda>c. c \<noteq> sep) line = []"
  shows "argv_loop sep line = [(line, [])]"
proof -
  have "takeWhile (\<lambda>c. c \<noteq> sep) line = line"
    using takeWhile_dropWhile_id [of "\<lambda>c. c \<noteq> sep" line] by (simp only: assms append_Nil2)
  then show ?thesis
    by (subst argv_loop.simps) (simp only: next_begin_def assms list.case simp_thms if_True if_False)
qed

lemma argv_loop_more:
  assumes "dropWhile (\<lambda>c. c \<noteq> sep) line = d # t"
  shows "argv_loop sep line =
    (takeWhile (\<lambda>c. c \<noteq> sep) line, [sep]) # (if t = [] then [] else argv_loop sep t)"
  by (subst argv_loop.simps) (simp only: next_begin_def assms list.case list.simps if_False)

lemma argv_loop_step:
  assumes "dropWhile (\<lambda>c. c \<noteq> sep) line = d # t"
  shows "line = takeWhile (\<lambda>c. c \<noteq> sep) line @ sep # t" and "length t < length line"
proof -
  have "d = sep" using assms by (metis (mono_tags, lifting) hd_dropWhile list.discI list.sel(1))
  then show "line = takeWhile (\<lambda>c. c \<noteq> sep) line @ sep # t"
    using takeWhile_dropWhile_id [of "\<lambda>c. c \<noteq> sep" line] by (simp only: assms)
  show "length t < length line"
    using length_dropWhile_le [of "\<lambda>c. c \<noteq> sep" line] by (simp only: assms list.size)
qed

lemma argv_loop_rule [case_names last more]:
  assumes last: "\<And>line. dropWhile (\<lambda>c. c \<noteq> sep) line = [] \<Longrightarrow> P line"
    and more: "\<And>line d t. \<lbrakk>dropWhile (\<lambda>c. c \<noteq> sep) line = d # t; t \<noteq> [] \<Longrightarrow> P t\<rbrakk> \<Longrightarrow> P line"
  shows "P line"
proof (induction line rule: measure_induct_rule [of length])
  case (less line)
  show ?case
  proof (cases "dropWhile (\<lambda>c. c \<noteq> sep) line")
    case Nil
    then show ?thesis by (rule last)
  next
    case (Cons d t)
    with less argv_loop_step(2) [OF Cons] show ?thesis by (auto intro: more)
  qed
qed

lemma argv_loop_concat: "concat (map (\<lambda>(a, s). a @ s) (argv_loop sep line)) = line"
proof (induction line rule: argv_loop_rule [of sep])
  case (last line)
  then show ?case by (simp add: argv_loop_last)
next
  case (more line d t)
  have "concat (map (\<lambda>(a, s). a @ s) (argv_loop sep line)) = takeWhile (\<lambda>c. c \<noteq> sep) line @ sep # t"
    using more by (cases "t = []") (simp_all add: argv_loop_more)
  then show ?case using argv_loop_step(1) [OF more(1)] by simp
qed

lemma argv_loop_no_sep: "(a, s) \<in> set (argv_loop sep line) \<Longrightarrow> sep \<notin> set a \<and> s \<in> {[], [sep]}"
proof (induction line rule: argv_loop_rule [of sep])
  case (last line)
  then have "\<forall>c \<in> set line. c \<noteq> sep" by (simp only: dropWhile_eq_Nil_conv)
  with last show ?case by (auto simp: argv_loop_last)
next
  case (more line d t)
  then show ?case by (auto simp: argv_loop_more dest: set_takeWhileD split: if_splits)
qed

lemma argv_loop_length: "line \<noteq> [] \<Longrightarrow> length (argv_loop sep line) \<le> length line"
proof (induction line rule: argv_loop_rule [of sep])
  case (last line)
  then show ?case by (simp add: argv_loop_last Suc_le_eq)
next
  case (more line d t)
  then show ?case using argv_loop_step(2) [OF more(1)] by (auto simp: argv_loop_more)
qed

lemma argv_loop_join:
  assumes "args \<noteq> []" and "\<forall>a \<in> set args. sep \<notin> set a"
  shows "argv_loop sep (concat (map (\<lambda>a. a @ [sep]) args)) = map (\<lambda>a. (a, [sep])) args"
  using assms
proof (induction args)
  case Nil
  then show ?case by simp
next
  case (Cons a args)
  let ?rest = "concat (map (\<lambda>a. a @ [sep]) args)"
  have a: "\<forall>c \<in> set a. c \<noteq> sep" using Cons.prems by auto
  have tw: "takeWhile (\<lambda>c. c \<noteq> sep) (a @ sep # ?rest) = a"
    and dw: "dropWhile (\<lambda>c. c \<noteq> sep) (a @ sep # ?rest) = sep # ?rest"
    using a by (simp_all add: takeWhile_append2 dropWhile_append2)
  show ?case
  proof (cases "args = []")
    case True
    then show ?thesis using tw dw by (simp add: argv_loop_more)
  next
    case False
    then have "?rest \<noteq> []" by (cases args) auto
    moreover have "argv_loop sep ?rest = map (\<lambda>a. (a, [sep])) args"
      using Cons False by simp
    ultimately show ?thesis using tw dw by (simp add: argv_loop_more)
  qed
qed

text \<open>The text that the arguments and separators from index 1 on make up.\<close>

definition argv_text :: "string list \<Rightarrow> string list \<Rightarrow> string" where
  "argv_text argv sepv = concat (map2 (@) (tl argv) (tl sepv))"

lemma argv_text_loop:
  "argv_text (line # map fst (argv_loop sep line)) ([] # map snd (argv_loop sep line)) = line"
proof -
  have "map2 (@) (map fst ps) (map snd ps) = map (\<lambda>(a, s). a @ s) ps" for ps :: "(string \<times> string) list"
    by (induction ps) auto
  then show ?thesis by (simp add: argv_text_def argv_loop_concat)
qed

text \<open>The character at which a line is split: a semicolon when the line has one, else a space.\<close>

definition line_sep :: "string \<Rightarrow> char" where
  "line_sep line = (if CHR '';'' \<in> set line then CHR '';'' else CHR '' '')"

lemma argv_loop_seps:
  "Suc i < length (argv_loop sep line) \<Longrightarrow> snd (argv_loop sep line ! i) = [sep]"
proof (induction line arbitrary: i rule: argv_loop_rule [of sep])
  case (last line)
  then show ?case by (simp add: argv_loop_last)
next
  case (more line d t)
  then show ?case by (cases i) (auto simp: argv_loop_more [OF more(1)] split: if_splits)
qed

lemma argv_split:
  assumes "octetCreateArgvSepv line = (argc, argv, sepv)" and "i < argc"
  shows "line_sep line \<notin> set (argv ! Suc i) \<and> (sepv ! Suc i = [line_sep line] \<or> Suc i = argc \<and> sepv ! Suc i = [])"
proof (cases "line_sep line \<in> set line")
  case False
  then have "strchr line CHR '';'' = None" "strchr line CHR '' '' = None"
    by (auto simp: line_sep_def strchr_None_iff split: if_splits)
  then show ?thesis using assms False by (auto simp: octetCreateArgvSepv_def Let_def split: if_splits)
next
  case True
  let ?ps = "argv_loop (line_sep line) line"
  have "(if strchr line CHR '';'' \<noteq> None then Some CHR '';''
         else if strchr line CHR '' '' \<noteq> None then Some CHR '' '' else None) = Some (line_sep line)"
    using True by (auto simp: line_sep_def strchr_None_iff split: if_splits)
  moreover have "line \<noteq> []" using True by auto
  ultimately have e: "argc = length ?ps" "argv = line # map fst ?ps" "sepv = [] # map snd ?ps"
    using assms(1) by (simp_all add: octetCreateArgvSepv_def Let_def)
  then have at: "argv ! Suc i = fst (?ps ! i)" "sepv ! Suc i = snd (?ps ! i)" using assms(2) by simp_all
  have "(fst (?ps ! i), snd (?ps ! i)) \<in> set ?ps" using assms(2) e(1) by simp
  from argv_loop_no_sep [OF this] show ?thesis
    using assms(2) e(1) argv_loop_seps [of i "line_sep line" line] unfolding at by (cases "Suc i = argc") auto
qed

text \<open>
  C18: splitting a command line loses nothing and splits everywhere: the arguments and separators from
  index 1 to \<open>argc\<close>, put together in order, are the line, both arrays have \<open>argc + 1\<close> entries
  and entry 0 is the line itself; no argument contains the separating character (a semicolon when the line
  has one, else a space), and each is followed by this character, except that the last may end the line.
\<close>
theorem argv_lossless:
  "case octetCreateArgvSepv line of (argc, argv, sepv) \<Rightarrow>
     argv_text argv sepv = line \<and> length argv = argc + 1 \<and> length sepv = argc + 1 \<and> argv ! 0 = line \<and>
     (\<forall>i \<in> {1..argc}. line_sep line \<notin> set (argv ! i) \<and>
        (sepv ! i = [line_sep line] \<or> i = argc \<and> sepv ! i = []))"
proof -
  obtain argc argv sepv where o: "octetCreateArgvSepv line = (argc, argv, sepv)" by (metis prod_cases3)
  have "line_sep line \<notin> set (argv ! i) \<and> (sepv ! i = [line_sep line] \<or> i = argc \<and> sepv ! i = [])"
    if "i \<in> {1..argc}" for i
    using argv_split [OF o, of "i - 1"] that by (cases i) auto
  moreover have "argv_text argv sepv = line" "length argv = argc + 1" "length sepv = argc + 1" "argv ! 0 = line"
    using o argv_text_loop [of line] by (auto simp: octetCreateArgvSepv_def Let_def argv_text_def split: if_splits)
  ultimately show ?thesis by (simp add: o)
qed

lemma argv_lossless_witness:
  "octetCreateArgvSepv ''a?;b c'' = (2, [''a?;b c'', ''a?'', ''b c''], [[], '';'', []]) \<and>
   CHR '';'' \<notin> set ([''a?;b c'', ''a?'', ''b c''] ! 2)"
proof -
  have l: "argv_loop CHR '';'' ''a?;b c'' = [(''a?'', '';''), (''b c'', [])]" "strchr ''a?;b c'' CHR '';'' \<noteq> None"
    by code_simp+
  then have e: "octetCreateArgvSepv ''a?;b c'' = (2, [''a?;b c'', ''a?'', ''b c''], [[], '';'', []])"
    by (simp add: octetCreateArgvSepv_def)
  have "line_sep ''a?;b c'' = CHR '';''" by (simp add: line_sep_def)
  then have "\<forall>i \<in> {1..2}. CHR '';'' \<notin> set ([''a?;b c'', ''a?'', ''b c''] ! i)"
    using argv_lossless [of "''a?;b c''"] e by simp
  then have "CHR '';'' \<notin> set ([''a?;b c'', ''a?'', ''b c''] ! 2)" by (rule bspec) simp
  with e show ?thesis by blast
qed

text \<open>
  The number of arguments stays below the number of entries that the two arrays are allocated
  with, so the stores into them are in bounds.
\<close>
theorem argv_in_bounds: "fst (octetCreateArgvSepv line) < argv_calloc_len line"
  using argv_loop_length [of line "CHR '';''"] argv_loop_length [of line "CHR '' ''"]
  by (auto simp: octetCreateArgvSepv_def argv_calloc_len_def Let_def)

text \<open>
  Commands without a semicolon, each followed by one, are recovered by the splitting, one
  argument per command with the semicolon as its separator, in order.
\<close>
theorem argv_roundtrip:
  assumes "cmds \<noteq> []" and "\<forall>c \<in> set cmds. CHR '';'' \<notin> set c"
  shows "octetCreateArgvSepv (concat (map (\<lambda>c. c @ '';'') cmds)) =
    (length cmds, concat (map (\<lambda>c. c @ '';'') cmds) # cmds, [] # map (\<lambda>_. '';'') cmds)"
proof -
  let ?line = "concat (map (\<lambda>c. c @ '';'') cmds)"
  obtain c cs where "cmds = c # cs" using assms(1) by (cases cmds) auto
  then have "CHR '';'' \<in> set ?line" and ne: "?line \<noteq> []" by auto
  then have "strchr ?line CHR '';'' \<noteq> None" by (simp add: strchr_None_iff)
  moreover have "argv_loop CHR '';'' ?line = map (\<lambda>a. (a, '';'')) cmds"
    using argv_loop_join [OF assms] .
  ultimately show ?thesis
    using ne by (simp add: octetCreateArgvSepv_def Let_def comp_def)
qed

lemma argv_roundtrip_witness:
  "octetCreateArgvSepv ''a?;b=1;'' = (2, [''a?;b=1;'', ''a?'', ''b=1''], [[], '';'', '';''])"
  using argv_roundtrip [of "[''a?'', ''b=1'']"] by simp

end
