(* ===== verification/Ads_Octet.thy ===== *)
theory Ads_Octet
  imports Ads_SymbolIo Ads_ClientPorts Ads_OctetArgs
begin

text \<open>
  The command interpreter of the octet interface: \<^verbatim>\<open>writeOctet\<close> takes a line of commands,
  \<^verbatim>\<open>octetCmdHandleInputLine\<close> executes them one by one, each with the text it prints in the
  output buffer of the driver, and \<^verbatim>\<open>readOctet\<close> hands the text out.  A command reads or
  writes a variable by name (\<^verbatim>\<open>name?\<close>, \<^verbatim>\<open>name=value\<close>) or by address
  (\<^verbatim>\<open>.ADR.\<close>).  The variable name of the code, an array of 255 characters, and the scanning of
  the options are modelled with their failures.  The scanning of floating point texts is the argument
  \<open>scan_real\<close>, as in the conversions.
\<close>

definition ADS_ADR_COMMAND_PREFIX :: string where "ADS_ADR_COMMAND_PREFIX = ''.ADR.''"
definition ADS_OPTION_ADSPORT :: string where "ADS_OPTION_ADSPORT = ''ADSPORT''"
definition ADS_OCTET_FEATURES_COMMAND :: string where "ADS_OCTET_FEATURES_COMMAND = ''.THIS.sFeatures?''"
definition ADS_COM_ERROR_OCTET_ADSPORT_OPTION_FAIL :: int where
  "ADS_COM_ERROR_OCTET_ADSPORT_OPTION_FAIL = 1007"

section \<open>Scanning of options and addresses\<close>

definition is_hex :: "char \<Rightarrow> bool" where
  "is_hex c \<longleftrightarrow> is_digit c \<or> (97 \<le> (of_char c :: nat) \<and> (of_char c :: nat) \<le> 102) \<or>
     (65 \<le> (of_char c :: nat) \<and> (of_char c :: nat) \<le> 70)"

definition hex_val :: "char \<Rightarrow> nat" where
  "hex_val c = (if is_digit c then digit_val c
     else if 97 \<le> (of_char c :: nat) then of_char c - 87 else of_char c - 55)"

definition hex_value :: "string \<Rightarrow> nat" where
  "hex_value s = foldl (\<lambda>a c. 16 * a + hex_val c) 0 s"

text \<open>The directive \<^verbatim>\<open>%x\<close>, with the optional prefix \<^verbatim>\<open>0x\<close>.\<close>

definition scan_hex :: "string \<Rightarrow> (bool \<times> nat) scan" where
  "scan_hex s =
     (let t = skip_space s in
      if t = [] then Scan_Eof
      else let (neg, u) = scan_sign t;
               v = (if is_prefix ''0x'' u \<or> is_prefix ''0X'' u then drop 2 u else u);
               ds = takeWhile is_hex v
           in if ds = [] then Scan_Fail else Scan_Ok (neg, hex_value ds) (dropWhile is_hex v))"

text \<open>
  \<^verbatim>\<open>sscanf(arg, ".ADR.16#%x,16#%x,%u,%u=", ...)\<close> when it converts all four numbers; the
  sign behind the last one does not count.
\<close>

definition scan_adr :: "string \<Rightarrow> (nat \<times> nat \<times> nat \<times> nat) option" where
  "scan_adr s =
     Option.bind (scan_lit ''.ADR.16#'' s) (\<lambda>s1.
     Option.bind (scan_to 32 (scan_hex s1)) (\<lambda>(g, s2).
     Option.bind (scan_lit '',16#'' s2) (\<lambda>s3.
     Option.bind (scan_to 32 (scan_hex s3)) (\<lambda>(off, s4).
     Option.bind (scan_lit '','' s4) (\<lambda>s5.
     Option.bind (scan_to 32 (scan_dec s5)) (\<lambda>(len, s6).
     Option.bind (scan_lit '','' s6) (\<lambda>s7.
     Option.bind (scan_to 32 (scan_dec s7)) (\<lambda>(ty, s8).
       Some (g, off, len, ty)))))))))"

section \<open>Printing to the output buffer of the driver\<close>

definition say :: "string \<Rightarrow> 'e driver \<Rightarrow> 'e driver run" where
  "say text d = run_bind (emit (d_octetAsciiBuffer d) text) (\<lambda>b. Done (d\<lparr>d_octetAsciiBuffer := b\<rparr>))"

text \<open>The digits of \<^verbatim>\<open>%x\<close>.\<close>

fun show_hex :: "nat \<Rightarrow> string" where
  "show_hex n =
     (let c = (if n mod 16 < 10 then digit_char (n mod 16) else char_of (87 + n mod 16))
      in if n < 16 then [c] else show_hex (n div 16) @ [c])"

declare show_hex.simps [simp del]

definition octet_return_error :: "int \<Rightarrow> string \<Rightarrow> 'e driver \<Rightarrow> (int \<times> 'e driver) run" where
  "octet_return_error errcode text d =
     run_bind (say ''Error: '' d) (\<lambda>d1. run_bind (say text d1) (\<lambda>d2. Done (errcode, d2)))"

section \<open>Reading and writing by address and by name\<close>

definition octetAdsReadByGroupOffset ::
  "('e, 'z) ads_lib_scheme \<Rightarrow> nat \<Rightarrow> nat \<Rightarrow> adsSymbolEntry \<Rightarrow> 'e driver \<Rightarrow> (int \<times> 'e driver) run" where
  "octetAdsReadByGroupOffset lib amsClientPort amsPort info d =
     (let dataSize = (if se_size info > ADS_CMD_BUFFER_SIZE then ADS_CMD_BUFFER_SIZE else se_size info)
      in case call (AdsSyncReadReqEx2 lib amsClientPort (server d amsPort) (se_iGroup info)
                      (se_iOffset info) dataSize) d of
           ((status, bs, bytesRead), d1) \<Rightarrow>
             let error = wrap_signed 4 status;
                 m = received (replicate dataSize 0) bs @ replicate (ADS_CMD_BUFFER_SIZE - dataSize) 0;
                 d2 = d1\<lparr>d_octetBinaryBuffer := m\<rparr>
             in if error \<noteq> 0 then Done (error, d2)
                else
                  run_bind (octetBinary2ascii (se_size info + 2) (d_octetReturnVarName d2) m
                              ADS_CMD_BUFFER_SIZE info (d_octetAsciiBuffer d2)) (\<lambda>(err, b).
                    Done (err, d2\<lparr>d_octetAsciiBuffer := b\<rparr>)))"

definition octetAdsWriteByGroupOffset ::
  "('e, 'z) ads_lib_scheme \<Rightarrow> (nat \<Rightarrow> string \<Rightarrow> u8 list scan) \<Rightarrow> nat \<Rightarrow> nat \<Rightarrow> nat \<Rightarrow> nat \<Rightarrow> nat \<Rightarrow> nat \<Rightarrow>
     string \<Rightarrow> 'e driver \<Rightarrow> (int \<times> 'e driver) run" where
  "octetAdsWriteByGroupOffset lib scan_real amsClientPort amsPort grp offset dataType dataSize value d =
     run_bind (octetAscii2binary scan_real value dataType (replicate ADS_CMD_BUFFER_SIZE 0)
                 ADS_CMD_BUFFER_SIZE 0) (\<lambda>(error, bytesToWrite, m).
       let d1 = d\<lparr>d_octetBinaryBuffer := m\<rparr>
       in if error \<noteq> 0
          then run_bind (say (''Error: '' @ show_hex (nat (error mod 2 ^ 32))) d1) (\<lambda>d2. Done (error, d2))
          else
            let n = (if bytesToWrite > dataSize then dataSize else bytesToWrite)
            in run_bind (mem_read m 0 n) (\<lambda>bs.
                 case call (AdsSyncWriteReqEx lib amsClientPort (server d1 amsPort) grp offset bs) d1 of
                   (status, d2) \<Rightarrow> Done (wrap_signed 4 status, d2)))"

definition octetAdsReadByName ::
  "('e, 'z) ads_lib_scheme \<Rightarrow> nat \<Rightarrow> nat \<Rightarrow> string \<Rightarrow> 'e driver \<Rightarrow> (int \<times> 'e driver) run" where
  "octetAdsReadByName lib amsClientPort amsPort variableAddr d =
     (case adsGetSymInfoByName_entry lib amsClientPort amsPort variableAddr d of
        ((stat, errorCode, info), d1) \<Rightarrow>
          if stat \<noteq> asynSuccess then Done (wrap_signed 4 errorCode, d1)
          else octetAdsReadByGroupOffset lib amsClientPort amsPort info d1)"

definition octetAdsWriteByName ::
  "('e, 'z) ads_lib_scheme \<Rightarrow> (nat \<Rightarrow> string \<Rightarrow> u8 list scan) \<Rightarrow> nat \<Rightarrow> nat \<Rightarrow> string \<Rightarrow> string \<Rightarrow>
     'e driver \<Rightarrow> (int \<times> 'e driver) run" where
  "octetAdsWriteByName lib scan_real amsClientPort amsPort variableAddr asciiValueToWrite d =
     (case adsGetSymInfoByName_entry lib amsClientPort amsPort variableAddr d of
        ((stat, errorCode, info), d1) \<Rightarrow>
          if stat \<noteq> asynSuccess then Done (wrap_signed 4 errorCode, d1)
          else octetAdsWriteByGroupOffset lib scan_real amsClientPort amsPort (se_iGroup info)
                 (se_iOffset info) (se_dataType info mod 2 ^ 16) (se_size info) asciiValueToWrite d1)"

section \<open>One command\<close>

text \<open>The information of a command by address: a cleared entry with four members set.\<close>

definition adr_info :: "nat \<Rightarrow> nat \<Rightarrow> nat \<Rightarrow> nat \<Rightarrow> adsSymbolEntry" where
  "adr_info group_no offset_in_group len_in_PLC type_in_PLC =
     \<lparr>se_entryLen = 0, se_iGroup = group_no, se_iOffset = offset_in_group, se_size = len_in_PLC,
      se_dataType = type_in_PLC, se_flags = 0, se_nameLength = 0, se_typeLength = 0,
      se_commentLength = 0, se_buffer = replicate 768 0, se_variableName = None,
      se_symDataType = None, se_symComment = None\<rparr>"

definition octetMotorHandleADRCmd ::
  "('e, 'z) ads_lib_scheme \<Rightarrow> (nat \<Rightarrow> string \<Rightarrow> u8 list scan) \<Rightarrow> nat \<Rightarrow> string \<Rightarrow> nat \<Rightarrow> 'e driver \<Rightarrow>
     (int \<times> 'e driver) run" where
  "octetMotorHandleADRCmd lib scan_real amsClientPort arg amsport d =
     (case scan_adr arg of
        None \<Rightarrow> Done (3643, d)
      | Some (group_no, offset_in_group, len_in_PLC, type_in_PLC) \<Rightarrow>
          (case strchr arg CHR ''='' of
             Some v \<Rightarrow>
               run_bind (octetAdsWriteByGroupOffset lib scan_real amsClientPort amsport group_no
                           offset_in_group (type_in_PLC mod 2 ^ 16) len_in_PLC (tl v) d) (\<lambda>(error, d1).
                 if error \<noteq> 0 then octet_return_error error (adsErrorToString (sdk lib) error) d1
                 else run_bind (say ''OK'' d1) (\<lambda>d2. Done (0, d2)))
           | None \<Rightarrow>
               if strchr arg CHR ''?'' \<noteq> None
               then
                 run_bind (octetAdsReadByGroupOffset lib amsClientPort amsport
                             (adr_info group_no offset_in_group len_in_PLC type_in_PLC) d) (\<lambda>(error, d1).
                   if error \<noteq> 0 then octet_return_error error (adsErrorToString (sdk lib) error) d1
                   else Done (0, d1))
               else Done (3687, d)))"

text \<open>
  The option \<^verbatim>\<open>ADSPORT=\<close>: the rest of the command and the port, or the failure of the
  scan.  A command that ends before the sign, or that has no slash, makes the code follow an invalid
  pointer.
\<close>

definition adsport_option :: "string \<Rightarrow> nat \<Rightarrow> (string \<times> nat) option run" where
  "adsport_option arg amsPort =
     (if is_prefix ADS_OPTION_ADSPORT arg
      then if length arg \<le> length ADS_OPTION_ADSPORT then Ub
           else
             let rest = drop (length ADS_OPTION_ADSPORT + 1) arg
             in case scan_to 16 (scan_dec rest) of
                  None \<Rightarrow> Done None
                | Some (p, _) \<Rightarrow>
                    (case strchr rest CHR ''/'' of None \<Rightarrow> Ub | Some t \<Rightarrow> Done (Some (tl t, p)))
      else Done (Some (arg, amsPort)))"

text \<open>The copy of the first \<open>n\<close> characters to the array of 255, terminated and read as a string.\<close>

definition variable_name :: "string \<Rightarrow> string \<Rightarrow> string run" where
  "variable_name arg tail =
     (let n = length arg - length tail in if n < 255 then Done (take n arg) else Ub)"

definition octetMotorHandleOneArg ::
  "('e, 'z) ads_lib_scheme \<Rightarrow> (nat \<Rightarrow> string \<Rightarrow> u8 list scan) \<Rightarrow> nat \<Rightarrow> string \<Rightarrow> 'e driver \<Rightarrow>
     (int \<times> 'e driver) run" where
  "octetMotorHandleOneArg lib scan_real amsClientPort myarg_1 d =
     run_bind (adsport_option myarg_1 (d_amsportDefault d)) (\<lambda>r.
       case r of
         None \<Rightarrow> octet_return_error ADS_COM_ERROR_OCTET_ADSPORT_OPTION_FAIL
                   ''ADS_COM_ERROR_OCTET_ADSPORT_OPTION_FAIL'' d
       | Some (arg, amsPort) \<Rightarrow>
           if arg = ADS_OCTET_FEATURES_COMMAND
           then run_bind (say ''ads;stv1'' d) (\<lambda>d1. Done (0, d1))
           else
             (case strstr arg ADS_ADR_COMMAND_PREFIX of
                Some adr \<Rightarrow>
                  run_bind (octetMotorHandleADRCmd lib scan_real amsClientPort adr amsPort d) (\<lambda>(err, d1).
                    if err = - 1 \<or> err = 0 then Done (0, d1)
                    else octet_return_error err (adsErrorToString (sdk lib) err @ [CHR 0x0A]) d1)
              | None \<Rightarrow>
                  (case strchr arg CHR ''='' of
                     Some adr \<Rightarrow>
                       run_bind (variable_name arg adr) (\<lambda>variableName.
                       run_bind (octetAdsWriteByName lib scan_real amsClientPort amsPort variableName
                                   (tl adr) d) (\<lambda>(err, d1).
                         if err \<noteq> 0 then octet_return_error err (adsErrorToString (sdk lib) err) d1
                         else run_bind (say ''OK'' d1) (\<lambda>d2. Done (0, d2))))
                   | None \<Rightarrow>
                       (case strchr arg CHR ''?'' of
                          Some adr \<Rightarrow>
                            run_bind (variable_name arg adr) (\<lambda>variableName.
                            run_bind (octetAdsReadByName lib amsClientPort amsPort variableName d) (\<lambda>(err, d1).
                              if err \<noteq> 0 then octet_return_error err (adsErrorToString (sdk lib) err) d1
                              else Done (0, d1)))
                        | None \<Rightarrow> run_bind (say ''Error: Bad command'' d) (\<lambda>d1. Done (0, d1))))))"

section \<open>A line of commands\<close>

fun handle_args ::
  "('e, 'z) ads_lib_scheme \<Rightarrow> (nat \<Rightarrow> string \<Rightarrow> u8 list scan) \<Rightarrow> nat \<Rightarrow> (string \<times> string) list \<Rightarrow> int \<Rightarrow>
     'e driver \<Rightarrow> (int \<times> 'e driver) run" where
  "handle_args lib scan_real amsClientPort [] errorCodeLatch d = Done (errorCodeLatch, d)"
| "handle_args lib scan_real amsClientPort ((arg, sep) # rest) errorCodeLatch d =
     run_bind (octetMotorHandleOneArg lib scan_real amsClientPort arg d) (\<lambda>(errorCode, d1).
     run_bind (say sep d1) (\<lambda>d2.
       handle_args lib scan_real amsClientPort rest
         (if errorCode \<noteq> 0 \<and> errorCodeLatch = 0 then errorCode else errorCodeLatch) d2))"

definition octetCmdHandleInputLine ::
  "('e, 'z) ads_lib_scheme \<Rightarrow> (nat \<Rightarrow> string \<Rightarrow> u8 list scan) \<Rightarrow> nat \<Rightarrow> string \<Rightarrow> 'e driver \<Rightarrow>
     (int \<times> 'e driver) run" where
  "octetCmdHandleInputLine lib scan_real amsClientPort input_line d =
     (case octetCreateArgvSepv input_line of
        (argc, argv, sepv) \<Rightarrow>
          handle_args lib scan_real amsClientPort (map (\<lambda>i. (argv ! i, sepv ! i)) [1..<Suc argc]) 0 d)"

text \<open>
  The line without its line end, and whether a carriage return and a line feed were taken off;
  \<open>inlen\<close> characters were copied and a terminator added, so the line ends at the first zero byte.
\<close>

definition strip_line :: "char list \<Rightarrow> string \<times> bool \<times> bool" where
  "strip_line buf =
     (if length buf > 1 \<and> last buf = CHR 0x0A
      then let b1 = butlast buf
           in if length b1 > 1 \<and> last b1 = CHR 0x0D then (c_string (butlast b1), True, True)
              else (c_string b1, False, True)
      else (c_string buf, False, False))"

definition octetCMDwriteIt ::
  "('e, 'z) ads_lib_scheme \<Rightarrow> (nat \<Rightarrow> string \<Rightarrow> u8 list scan) \<Rightarrow> nat \<Rightarrow> char list option \<Rightarrow> nat \<Rightarrow>
     'e driver \<Rightarrow> (int \<times> 'e driver) run" where
  "octetCMDwriteIt lib scan_real amsClientPort inbuf inlen d =
     (case inbuf of
        None \<Rightarrow> Done (- 1, d)
      | Some chars \<Rightarrow>
          if inlen = 0 then Done (- 1, d)
          else if \<not> mallocOk lib (inlen + 1) (env d) then Done (- 1, d)
          else
            run_bind (mem_read chars 0 inlen) (\<lambda>buf.
              case strip_line buf of
                (line, had_cr, had_lf) \<Rightarrow>
                  run_bind (octetCmdHandleInputLine lib scan_real amsClientPort line d) (\<lambda>(errorCode, d1).
                  run_bind (say ((if had_cr then [CHR 0x0D] else []) @ (if had_lf then [CHR 0x0A] else [])) d1)
                    (\<lambda>d2. Done (errorCode, d2)))))"

section \<open>The entry points\<close>

text \<open>The result is the status and the number of characters taken.\<close>

definition writeOctet ::
  "('e, 'z) ads_lib_scheme \<Rightarrow> (nat \<Rightarrow> string \<Rightarrow> u8 list scan) \<Rightarrow> nat \<Rightarrow> char list option \<Rightarrow> nat \<Rightarrow>
     'e driver \<Rightarrow> ((asynStatus \<times> nat) option \<times> 'e driver) run" where
  "writeOctet lib scan_real self value maxChars d0 =
     with_guard lib self (\<lambda>amsClientPort d.
       if maxChars = 0 then Done ((asynSuccess, 0), d)
       else
         run_bind (octetCMDwriteIt lib scan_real amsClientPort value maxChars d) (\<lambda>(errorCode, d1).
           if errorCode \<noteq> 0 \<and> errorCode \<ge> sdk lib ''ADSERR_CLIENT_ERROR'' then Done ((asynError, 0), d1)
           else Done ((asynSuccess, maxChars), d1))) d0"

text \<open>
  The result is the status, the array of the caller, and on success the number of characters and the
  reason of the end.  \<open>timeout_zero\<close> is whether the timeout of the request is zero.
\<close>

definition readOctet ::
  "('e, 'z) ads_lib_scheme \<Rightarrow> nat \<Rightarrow> bool \<Rightarrow> char list \<Rightarrow> nat \<Rightarrow> 'e driver \<Rightarrow>
     ((asynStatus \<times> char list \<times> (nat \<times> int) option) option \<times> 'e driver) run" where
  "readOctet lib self timeout_zero value maxChars d0 =
     with_guard lib self (\<lambda>amsClientPort d.
       run_bind (mem_write value 0 [nul]) (\<lambda>value1.
       run_bind (octetCMDreadIt (d_octetAsciiBuffer d) (Some value1) maxChars) (\<lambda>(error, out, b).
         let d1 = d\<lparr>d_octetAsciiBuffer := b\<rparr>; value2 = the out
         in if error \<noteq> 0 then Done ((asynError, value2, None), d1)
            else
              let thisRead = length (c_string value2);
                  reason = (if thisRead > maxChars - 1 then sdk lib ''ASYN_EOM_CNT''
                            else sdk lib ''ASYN_EOM_EOS'');
                  status = (if thisRead = 0 \<and> timeout_zero then asynTimeout else asynSuccess)
              in Done ((status, value2, Some (thisRead, reason)), d1)))) d0"

section \<open>The output buffer stays intact\<close>

definition out_ok :: "octet_buffer \<Rightarrow> bool" where
  "out_ok b \<longleftrightarrow> length (buffer b) = bufferSize b \<and> bytesUsed b < bufferSize b \<and> bufferSize b < 2 ^ 31 \<and>
     buffer b ! bytesUsed b = nul"

definition out_step :: "octet_buffer \<Rightarrow> octet_buffer \<Rightarrow> bool" where
  "out_step b b' \<longleftrightarrow> (out_ok b \<longrightarrow> out_ok b' \<and> bufferSize b' = bufferSize b)"

lemma out_step_refl [simp, intro]: "out_step b b"
  by (simp add: out_step_def)

lemma out_step_trans [trans]: "out_step b b1 \<Longrightarrow> out_step b1 b2 \<Longrightarrow> out_step b b2"
  by (simp add: out_step_def)

lemma out_room:
  assumes "out_ok b"
  shows "size_sub (size_sub (bufferSize b) (bytesUsed b)) 1 = bufferSize b - bytesUsed b - 1"
proof -
  have "bytesUsed b < bufferSize b" and "bufferSize b < 2 ^ 64" using assms by (auto simp: out_ok_def)
  then show ?thesis by (simp only: size_sub_le less_imp_le less_imp_diff_less Suc_leI zero_less_diff
      One_nat_def)
qed

lemmas out_room_Suc = out_room [simplified]

lemma addToBuffer_out:
  assumes "addToBuffer (Some b) txt n = Done (rc, ob)"
  shows "\<exists>b'. ob = Some b' \<and> out_step b b'"
proof (cases "out_ok b")
  case False
  with assms show ?thesis
    by (auto simp: addToBuffer_def out_step_def run_bind_Done_iff split: if_splits)
next
  case True
  show ?thesis
  proof (cases "n \<ge> bufferSize b - bytesUsed b - 1")
    case full: True
    with assms True show ?thesis by (auto simp: addToBuffer_def out_room_Suc)
  next
    case fits: False
    let ?t = "take n txt"
    from assms True fits have len: "n \<le> length txt"
      by (auto simp: addToBuffer_def out_room_Suc mem_read_def split: if_splits)
    have sz: "bytesUsed b + length ?t < length (buffer b)"
      using True fits len by (auto simp: out_ok_def)
    have lt: "length ?t = n" using len by simp
    let ?m = "take (bytesUsed b) (buffer b) @ ?t @ nul # drop (Suc (bytesUsed b + n)) (buffer b)"
    have "addToBuffer (Some b) txt n = Done (0, Some (b\<lparr>bytesUsed := bytesUsed b + n, buffer := ?m\<rparr>))"
      using True fits len store_terminated [OF sz, unfolded lt]
      by (simp add: addToBuffer_def out_room_Suc mem_read_def)
    moreover have "?m ! (bytesUsed b + n) = nul"
      using nth_append_length [of "take (bytesUsed b) (buffer b) @ ?t" nul] sz len by simp
    ultimately show ?thesis
      using assms True fits len by (auto simp: out_step_def out_ok_def)
  qed
qed

lemma emit_out: "emit b t = Done b' \<Longrightarrow> out_step b b'"
  by (auto simp: emit_def octetCmdBuf_printf_def cmd_buf_vprintf_def Let_def run_bind_Done_iff
      split: if_splits dest!: addToBuffer_out)

lemma return_var_name_out: "return_var_name w info b = Done b' \<Longrightarrow> out_step b b'"
  by (auto simp: return_var_name_def dest: emit_out split: if_splits option.splits)

lemma b2a_axis_out: "b2a_axis m fs b = Done b' \<Longrightarrow> out_step b b'"
proof (induction fs arbitrary: b)
  case Nil
  then show ?case by simp
next
  case (Cons f fs)
  then show ?case by (auto simp: run_bind_Done_iff dest!: emit_out intro: out_step_trans)
qed

lemma b2a_switch_out: "b2a_switch w m info c bp bpd err b = Done (e, x, y, b') \<Longrightarrow> out_step b b'"
  by (auto simp: b2a_switch_def run_bind_Done_iff dest!: emit_out return_var_name_out b2a_axis_out
      intro: out_step_trans split: option.splits ADSDATATYPEID.splits if_splits)

lemma b2a_loop_out: "b2a_loop fuel w m bs info c bp bpd err b = Done (e, b') \<Longrightarrow> out_step b b'"
proof (induction fuel arbitrary: c bp bpd err b)
  case 0
  then show ?case by simp
next
  case (Suc fuel)
  show ?case
  proof (cases "bp < se_size info \<and> err = 0")
    case False
    with Suc.prems show ?thesis by auto
  next
    case True
    with Suc.prems obtain b1 err1 bp1 bpd1 b2 where c1: "b2a_comma bp b = Done b1"
      and sw: "b2a_switch w m info c bp bpd err b1 = Done (err1, bp1, bpd1, b2)"
      and rest: "b2a_loop fuel w m bs info (Suc c) bp1 bpd1 (b2a_checks bs err1 bp1 bpd1 b2) b2 = Done (e, b')"
      by (auto simp: run_bind_Done_iff)
    have "out_step b b1" using c1 by (auto simp: b2a_comma_def dest: emit_out split: if_splits)
    also have "out_step b1 b2" by (rule b2a_switch_out [OF sw])
    also have "out_step b2 b'" by (rule Suc.IH [OF rest])
    finally show ?thesis .
  qed
qed


lemma octetBinary2ascii_out: "octetBinary2ascii fuel w m bs info b = Done (e, b') \<Longrightarrow> out_step b b'"
  unfolding octetBinary2ascii_def by (rule b2a_loop_out)

text \<open>
  The same for the buffer of the driver; the parameters, their tables, the queue, the ports and the
  state of the connection are out of reach.
\<close>

definition beside_octet ::
  "'e driver \<Rightarrow> (adsParamInfo list \<times> nat \<times> (string \<rightharpoonup> int) \<times> int \<times> datacbinfo list \<times> amsPortInfo list) \<times>
     (BulkReadInfo list \<times> nat \<times> tsentry list) \<times> bool \<times> int \<times> bool \<times> bool" where
  "beside_octet d = ((d_params d, d_paramCount d, d_createdParamsMap d, d_paramTableSize d, d_datacbqueue d,
     d_amsPortList d), (d_bulk d, d_bulkTScnt d, d_bulkTS d),
     d_connectedAds d, d_notConnectedCounter d, d_autoConnect d, d_stopThreads d)"

definition oct_step :: "'e driver \<Rightarrow> 'e driver \<Rightarrow> bool" where
  "oct_step d d' \<longleftrightarrow>
     out_step (d_octetAsciiBuffer d) (d_octetAsciiBuffer d') \<and> beside_octet d' = beside_octet d"

lemma beside_octet_updates [simp]:
  "beside_octet (d\<lparr>d_octetBinaryBuffer := m\<rparr>) = beside_octet d"
  "beside_octet (d\<lparr>d_octetAsciiBuffer := b\<rparr>) = beside_octet d"
  "beside_octet (d\<lparr>d_octetReturnVarName := v\<rparr>) = beside_octet d"
  "beside_octet (d\<lparr>env := e\<rparr>) = beside_octet d"
  "beside_octet (d\<lparr>d_clientPorts := c\<rparr>) = beside_octet d"
  by (simp_all add: beside_octet_def)

named_theorems oct_dests

lemma oct_step_refl [simp, intro]: "oct_step d d"
  by (simp add: oct_step_def)

lemma oct_step_trans [trans]: "oct_step d d1 \<Longrightarrow> oct_step d1 d2 \<Longrightarrow> oct_step d d2"
  by (auto simp: oct_step_def intro: out_step_trans)

lemma oct_step_call [oct_dests]: "call f d = (r, d') \<Longrightarrow> oct_step d d'"
  by (auto simp: oct_step_def call_def split: prod.splits)

lemma oct_step_binary [simp]:
  "oct_step (d\<lparr>d_octetBinaryBuffer := m\<rparr>) d' = oct_step d d'"
  "oct_step d (d'\<lparr>d_octetBinaryBuffer := m\<rparr>) = oct_step d d'"
  "oct_step d (d\<lparr>d_octetAsciiBuffer := b\<rparr>) = out_step (d_octetAsciiBuffer d) b"
  by (simp_all add: oct_step_def)

lemma oct_step_snd_call [simp]: "oct_step d (snd (call f d1)) = oct_step d d1"
  by (simp add: oct_step_def call_def split: prod.splits)

lemma say_oct [oct_dests]: "say t d = Done d' \<Longrightarrow> oct_step d d'"
  by (auto simp: say_def run_bind_Done_iff dest!: emit_out)

lemma octet_return_error_oct [oct_dests]: "octet_return_error e t d = Done (r, d') \<Longrightarrow> oct_step d d'"
  by (auto simp: octet_return_error_def run_bind_Done_iff dest!: oct_dests intro: oct_step_trans)

lemma adsGetSymInfoByName_entry_oct [oct_dests]:
  "adsGetSymInfoByName_entry lib cp ap n d = (r, d') \<Longrightarrow> oct_step d d'"
  by (auto simp: adsGetSymInfoByName_entry_def Let_def dest!: oct_dests split: prod.splits if_splits)

lemma octetAdsReadByGroupOffset_oct [oct_dests]:
  assumes "octetAdsReadByGroupOffset lib cp ap info d = Done (r, d')"
  shows "oct_step d d'"
proof -
  let ?n = "if se_size info > ADS_CMD_BUFFER_SIZE then ADS_CMD_BUFFER_SIZE else se_size info"
  obtain st bs k d1 where c: "call (AdsSyncReadReqEx2 lib cp (server d ap) (se_iGroup info)
      (se_iOffset info) ?n) d = ((st, bs, k), d1)"
    by (metis prod_cases3 prod.exhaust)
  have s: "oct_step d d1" by (rule oct_step_call [OF c])
  from assms c have "out_step (d_octetAsciiBuffer d1) (d_octetAsciiBuffer d')" "beside_octet d' = beside_octet d1"
    by (auto simp: octetAdsReadByGroupOffset_def Let_def run_bind_Done_iff
        dest!: octetBinary2ascii_out split: if_splits)
  with s show ?thesis by (auto simp: oct_step_def intro: out_step_trans)
qed

lemma octetAdsWriteByGroupOffset_oct [oct_dests]:
  "octetAdsWriteByGroupOffset lib sr cp ap g off dt sz v d = Done (r, d') \<Longrightarrow> oct_step d d'"
  by (auto simp: octetAdsWriteByGroupOffset_def Let_def run_bind_Done_iff case_prod_unfold
      dest!: oct_dests split: if_splits)

lemma octetAdsReadByName_oct [oct_dests]:
  "octetAdsReadByName lib cp ap n d = Done (r, d') \<Longrightarrow> oct_step d d'"
  by (auto simp: octetAdsReadByName_def dest!: oct_dests split: prod.splits if_splits
      intro: oct_step_trans)

lemma octetAdsWriteByName_oct [oct_dests]:
  "octetAdsWriteByName lib sr cp ap n v d = Done (r, d') \<Longrightarrow> oct_step d d'"
  by (auto simp: octetAdsWriteByName_def dest!: oct_dests split: prod.splits if_splits
      intro: oct_step_trans)

lemma octetMotorHandleADRCmd_oct [oct_dests]:
  "octetMotorHandleADRCmd lib sr cp arg ap d = Done (r, d') \<Longrightarrow> oct_step d d'"
  by (auto simp: octetMotorHandleADRCmd_def run_bind_Done_iff dest!: oct_dests
      split: option.splits if_splits prod.splits intro: oct_step_trans)

lemma octetMotorHandleOneArg_oct [oct_dests]:
  assumes "octetMotorHandleOneArg lib sr cp arg d = Done (r, d')"
  shows "oct_step d d'"
proof -
  from assms obtain o1 where o1: "adsport_option arg (d_amsportDefault d) = Done o1"
    by (auto simp: octetMotorHandleOneArg_def run_bind_Done_iff)
  show ?thesis
  proof (cases o1)
    case None
    with assms o1 show ?thesis by (auto simp: octetMotorHandleOneArg_def dest!: oct_dests)
  next
    case (Some ap)
    obtain a p where "ap = (a, p)" by fastforce
    with Some assms o1 show ?thesis
      by (auto simp: octetMotorHandleOneArg_def run_bind_Done_iff dest!: oct_dests
          split: option.split_asm if_split_asm intro: oct_step_trans)
  qed
qed

lemma handle_args_oct [oct_dests]: "handle_args lib sr cp as e d = Done (r, d') \<Longrightarrow> oct_step d d'"
proof (induction as arbitrary: e d)
  case Nil
  then show ?case by simp
next
  case (Cons a as)
  then show ?case
    by (cases a) (auto simp: run_bind_Done_iff dest!: oct_dests intro: oct_step_trans)
qed

lemma octetCmdHandleInputLine_oct [oct_dests]:
  "octetCmdHandleInputLine lib sr cp line d = Done (r, d') \<Longrightarrow> oct_step d d'"
  unfolding octetCmdHandleInputLine_def case_prod_unfold by (rule handle_args_oct)

lemma octetCMDwriteIt_oct [oct_dests]:
  assumes "octetCMDwriteIt lib sr cp buf n d = Done (r, d')"
  shows "oct_step d d'"
proof (cases "\<exists>line d1 t. octetCmdHandleInputLine lib sr cp line d = Done (r, d1) \<and> say t d1 = Done d'")
  case True
  then show ?thesis by (auto dest!: oct_dests intro: oct_step_trans)
next
  case False
  with assms show ?thesis
    by (simp add: octetCMDwriteIt_def run_bind_Done_iff case_prod_unfold split: option.splits if_split_asm)
qed

lemma octetCMDreadIt_out:
  assumes "octetCMDreadIt b (Some out) n = Done (e, out', b')"
  shows "out_step b b'"
proof (cases "out_ok b \<and> n \<noteq> 0")
  case False
  with assms show ?thesis
    by (auto simp: octetCMDreadIt_def out_step_def Let_def split: if_splits)
next
  case True
  let ?t = "c_string (buffer b)"
  let ?r = "if length ?t \<ge> n + 1 then n else length ?t"
  have bu: "bytesUsed b < length (buffer b)" "bytesUsed b < 2 ^ 31" "length (buffer b) = bufferSize b"
    using True by (auto simp: out_ok_def)
  have "length ?t \<le> bytesUsed b"
  proof (rule ccontr)
    assume "\<not> ?thesis"
    then have "buffer b ! bytesUsed b \<in> set ?t"
      unfolding c_string_def by (metis nth_mem not_le takeWhile_nth)
    with True show False by (auto simp: out_ok_def c_string_def dest: set_takeWhileD)
  qed
  then have le: "?r \<le> bytesUsed b" by auto
  let ?k = "bytesUsed b - ?r"
  have ss: "size_sub (bytesUsed b) ?r = ?k"
    by (rule size_sub_le [OF le]) (use bu(2) in simp)
  have mv: "to_int32 (size_sub (bytesUsed b) ?r) = int ?k"
    unfolding ss using bu(2) by (simp add: to_int32_def Let_def)
  let ?moved = "take ?k (drop ?r (buffer b))"
  have lm: "length ?moved = ?k" using bu le by simp
  let ?b = "b\<lparr>bytesUsed := ?k, buffer := ?moved @ nul # drop (Suc ?k) (buffer b)\<rparr>"
  have sz: "0 + length ?moved < length (buffer b)" using lm bu by simp
  have st: "run_bind (mem_write (buffer b) 0 ?moved) (\<lambda>m. run_bind (mem_write m ?k [nul]) f) =
        f (?moved @ nul # drop (Suc ?k) (buffer b))" for f :: "char list \<Rightarrow> (int \<times> octet_buffer option) run"
    using store_terminated [OF sz, of f] by (simp only: lm take_0 append_Nil add_0)
  have rd: "mem_read (buffer b) ?r ?k = Done ?moved" using bu le by (simp add: mem_read_def)
  have "octetRemoveFromBuffer (Some b) ?r = Done (0, Some ?b)"
    by (simp only: octetRemoveFromBuffer_def option.case Let_def mv nat_int rd run_bind.simps st
        of_nat_less_0_iff if_False)
  with assms True have "b' = ?b"
    by (auto simp: octetCMDreadIt_def Let_def run_bind_Done_iff split: if_splits)
  moreover have "(?moved @ nul # drop (Suc ?k) (buffer b)) ! ?k = nul"
    using nth_append_length [of ?moved nul] lm by simp
  ultimately show ?thesis using bu lm sz True by (auto simp: out_step_def out_ok_def)
qed

lemma addPort_oct [oct_dests]: "addAdsClientPortNumberForThreadId lib t d = (p, d') \<Longrightarrow> oct_step d d'"
  by (auto simp: addAdsClientPortNumberForThreadId_def oct_step_def call_def split: option.splits prod.splits if_splits)

lemma guard_enter_oct [oct_dests]: "guard_enter lib t d = (p, d') \<Longrightarrow> oct_step d d'"
  by (auto simp: guard_enter_def dest: oct_dests split: prod.splits if_splits)

lemma guard_leave_oct [simp]:
  "d_octetAsciiBuffer (guard_leave lib t d) = d_octetAsciiBuffer d"
  "beside_octet (guard_leave lib t d) = beside_octet d"
  by (auto simp: guard_leave_def delAdsClientPortNumberForThreadId_def call_def Let_def case_prod_unfold
      split: option.splits)

lemma with_guard_oct:
  assumes "with_guard lib t body d = Done (r, d')"
    and "\<And>p d1 q d2. body p d1 = Done (q, d2) \<Longrightarrow> oct_step d1 d2"
  shows "oct_step d d'"
proof -
  obtain p d1 where g: "guard_enter lib t d = (p, d1)" by fastforce
  then have s: "oct_step d d1" by (rule guard_enter_oct)
  show ?thesis
  proof (cases p)
    case None
    with assms g s show ?thesis by (auto simp: with_guard_def oct_step_def)
  next
    case (Some q)
    with assms(1) g obtain x d2 where "body q d1 = Done (x, d2)" "d' = guard_leave lib t d2"
      by (auto simp: with_guard_def run_bind_Done_iff)
    with assms(2) [of q d1 x d2] s show ?thesis by (auto simp: oct_step_def intro: out_step_trans)
  qed
qed

lemma writeOctet_oct: "writeOctet lib sr self value n d = Done (r, d') \<Longrightarrow> oct_step d d'"
  unfolding writeOctet_def
  by (erule with_guard_oct) (auto simp: run_bind_Done_iff dest!: oct_dests split: if_splits)

lemma readOctet_oct: "readOctet lib self tz value n d = Done (r, d') \<Longrightarrow> oct_step d d'"
  unfolding readOctet_def
  by (erule with_guard_oct)
     (auto simp: run_bind_Done_iff Let_def dest!: octetCMDreadIt_out split: if_splits)


section \<open>Commands end\<close>

lemma a2b_store_ends: "a2b_store r off m \<noteq> NoFuel"
  by (cases r) (auto simp: run_simps)

lemma a2b_loop_not_fuel: "a2b_loop sr t bsize s cycles cv bp m \<noteq> NoFuel"
proof (induction s arbitrary: cycles cv bp m rule: length_induct)
  case (1 s)
  have sw: "a2b_switch sr t bsize s cycles cv bp m \<noteq> NoFuel"
    by (auto simp: a2b_switch_def run_simps a2b_store_ends split: option.splits ADSDATATYPEID.splits)
  show ?case
  proof (cases "a2b_switch sr t bsize s cycles cv bp m")
    case (Done x)
    then show ?thesis using "1.IH" strchr_shorter
      by (subst a2b_loop.simps) (auto simp: Let_def split: prod.splits option.splits)
  qed (use sw in \<open>simp_all add: a2b_loop.simps\<close>)
qed


text \<open>No answer of the controller describes a structure that the conversion does not know.\<close>

definition known_structs :: "('e, 'z) ads_lib_scheme \<Rightarrow> bool" where
  "known_structs lib \<longleftrightarrow> (\<forall>cp ap name d st e info d1.
     adsGetSymInfoByName_entry lib cp ap name d = ((st, e, info), d1) \<longrightarrow> \<not> unknown_struct info)"

lemma octetAscii2binary_ends: "octetAscii2binary sr s t m n bp \<noteq> NoFuel"
  by (simp add: octetAscii2binary_def a2b_loop_not_fuel)

lemma octetBinary2ascii_ends:
  assumes "\<not> unknown_struct info"
  shows "octetBinary2ascii (se_size info + 2) w m ADS_CMD_BUFFER_SIZE info b \<noteq> NoFuel"
  unfolding octetBinary2ascii_def
  by (rule b2a_loop_ends [OF assms]) (simp_all add: ADS_CMD_BUFFER_SIZE_def)

lemma say_ends [run_simps]: "say t d \<noteq> NoFuel" "octet_return_error e t d \<noteq> NoFuel"
  by (auto simp: say_def octet_return_error_def run_simps)

lemma read_group_ends: "\<not> unknown_struct info \<Longrightarrow> octetAdsReadByGroupOffset lib cp ap info d \<noteq> NoFuel"
  by (auto simp: octetAdsReadByGroupOffset_def Let_def case_prod_unfold run_simps
      octetBinary2ascii_ends [simplified])

lemma write_group_ends: "octetAdsWriteByGroupOffset lib sr cp ap g off t n v d \<noteq> NoFuel"
  by (auto simp: octetAdsWriteByGroupOffset_def Let_def case_prod_unfold run_simps
      octetAscii2binary_ends)

lemma read_name_ends:
  assumes "known_structs lib"
  shows "octetAdsReadByName lib cp ap n d \<noteq> NoFuel"
proof -
  obtain st e info d1 where "adsGetSymInfoByName_entry lib cp ap n d = ((st, e, info), d1)"
    by (metis prod_cases3 prod.exhaust)
  with assms read_group_ends show ?thesis
    by (simp add: octetAdsReadByName_def known_structs_def) blast
qed

lemma write_name_ends: "octetAdsWriteByName lib sr cp ap n v d \<noteq> NoFuel"
  by (auto simp: octetAdsWriteByName_def case_prod_unfold write_group_ends)

lemma adr_info_known: "\<not> unknown_struct (adr_info g off n t)"
  by (simp add: unknown_struct_def adr_info_def)

lemma adr_cmd_ends: "octetMotorHandleADRCmd lib sr cp arg ap d \<noteq> NoFuel"
  by (auto simp: octetMotorHandleADRCmd_def run_simps write_group_ends read_group_ends adr_info_known
      split: option.splits prod.splits)

lemma one_arg_ends:
  assumes "known_structs lib"
  shows "octetMotorHandleOneArg lib sr cp arg d \<noteq> NoFuel"
proof -
  have o: "adsport_option arg p \<noteq> NoFuel" for p
    by (simp add: adsport_option_def Let_def split: option.splits prod.splits)
  have v: "variable_name a t \<noteq> NoFuel" for a t by (simp add: variable_name_def Let_def)
  show ?thesis
    by (auto simp: octetMotorHandleOneArg_def run_simps o v adr_cmd_ends write_name_ends
        read_name_ends [OF assms] split: option.splits prod.splits)
qed

lemma handle_args_ends: "known_structs lib \<Longrightarrow> handle_args lib sr cp as e d \<noteq> NoFuel"
proof (induction as arbitrary: e d)
  case Nil
  then show ?case by simp
next
  case (Cons a as)
  then show ?case by (cases a) (auto simp: run_simps one_arg_ends)
qed


lemma demo_out: "d_octetAsciiBuffer demo_driver = fresh_obuf"
  by (simp add: demo_driver_def constructed_def)



end
