(* ===== verification/Ads_Records.thy ===== *)
theory Ads_Records
  imports Ads_Frames Ads_SymbolDict Ads_Octet
begin

text \<open>
  How a record becomes a parameter: the \<^verbatim>\<open>drvInfo\<close> string of its link is validated
  (\<^verbatim>\<open>validateDrvInfo\<close>), its options are parsed
  (\<^verbatim>\<open>parsePlcInfofromDrvInfo\<close>), the record is looked up in the database, a parameter
  of asyn is created, and the parameter is connected to its PLC variable
  (\<^verbatim>\<open>drvUserCreate\<close>).  Floating point values of options are scanned by the argument
  \<open>scan_real\<close>, as in the octet interface; they are kept as bit patterns.  The timeout that is
  stored in the asyn user, counters of printed messages and measured times are left out.
\<close>

definition ADS_MAX_FIELD_CHAR_LENGTH :: nat where "ADS_MAX_FIELD_CHAR_LENGTH = 128"
definition ADS_OPTION_T_MAX_DLY_MS :: string where "ADS_OPTION_T_MAX_DLY_MS = ''T_DLY_MS''"
definition ADS_OPTION_T_SAMPLE_RATE_MS :: string where "ADS_OPTION_T_SAMPLE_RATE_MS = ''TS_MS''"
definition ADS_OPTION_TIMEBASE :: string where "ADS_OPTION_TIMEBASE = ''TIMEBASE''"
definition ADS_OPTION_POLLRATE :: string where "ADS_OPTION_POLLRATE = ''POLL_RATE''"
definition ADS_OPTION_TIMEBASE_EPICS :: string where "ADS_OPTION_TIMEBASE_EPICS = ''EPICS''"
definition ADS_OPTION_TIMEBASE_PLC :: string where "ADS_OPTION_TIMEBASE_PLC = ''PLC''"
definition ADS_AMS_STATE_COMMAND :: string where "ADS_AMS_STATE_COMMAND = ''.AMSPORTSTATE.''"

lemmas option_names = ADS_OPTION_T_MAX_DLY_MS_def ADS_OPTION_T_SAMPLE_RATE_MS_def ADS_OPTION_TIMEBASE_def
  ADS_OPTION_POLLRATE_def ADS_OPTION_ADSPORT_def ADS_ADR_COMMAND_PREFIX_def ADS_AMS_STATE_COMMAND_def

section \<open>The string of a link\<close>

text \<open>The last occurrence of the character is the end of the string.\<close>

definition ends_with :: "char \<Rightarrow> string \<Rightarrow> bool" where
  "ends_with c s = (case strrchr s c of Some t \<Rightarrow> length t = 1 | None \<Rightarrow> False)"

definition validateDrvInfo :: "string \<Rightarrow> asynStatus" where
  "validateDrvInfo drvInfo =
     (if drvInfo = [] then asynError
      else if ends_with CHR ''?'' drvInfo then asynSuccess
      else if ends_with CHR ''='' drvInfo then asynSuccess
      else asynError)"

text \<open>
  The address: the part behind the last slash, as far as the buffer and the next white space allow, or
  the whole string, without its last character.
\<close>

definition plc_adr_str :: "string \<Rightarrow> string option run" where
  "plc_adr_str drvInfo =
     (case strrchr drvInfo CHR ''/'' of
        Some drvInfoEnd \<Rightarrow>
          Done (map_option (\<lambda>(w, rest). butlast w) (scan_str (ADS_MAX_FIELD_CHAR_LENGTH - 1) (tl drvInfoEnd)))
      | None \<Rightarrow> if drvInfo = [] then Ub else Done (Some (butlast drvInfo)))"

section \<open>Options\<close>

text \<open>
  What stands behind the first occurrence of an option's name: nothing if there is none, and
  \<open>Some None\<close> if fewer than \<open>n\<close> characters follow.
\<close>

definition option_value :: "string \<Rightarrow> nat \<Rightarrow> string \<Rightarrow> string option option" where
  "option_value option n drvInfo =
     (case strstr drvInfo option of
        None \<Rightarrow> None
      | Some isThere \<Rightarrow>
          Some (if length isThere < length option + n then None else Some (drop (length option) isThere)))"

text \<open>\<^verbatim>\<open>sscanf(..., "=%lf/", ...)\<close>: the bits of the number.\<close>

definition scan_f64 :: "(nat \<Rightarrow> string \<Rightarrow> u8 list scan) \<Rightarrow> string \<Rightarrow> nat option" where
  "scan_f64 scan_real s =
     Option.bind (scan_lit ''='' s) (\<lambda>s1.
       case scan_real 8 s1 of Scan_Ok bs rest \<Rightarrow> Some (le_nat bs) | _ \<Rightarrow> None)"

text \<open>\<^verbatim>\<open>sscanf(..., "=%d/", ...)\<close> and the conversion to \<^verbatim>\<open>uint16_t\<close>.\<close>

definition scan_port :: "string \<Rightarrow> nat option" where
  "scan_port s =
     Option.bind (scan_lit ''='' s) (\<lambda>s1.
       case scan_dec s1 of Scan_Ok n rest \<Rightarrow> Some (nat (strtol64 n mod 2 ^ 16)) | _ \<Rightarrow> None)"

definition parse_adr :: "string \<Rightarrow> adsParamInfo \<Rightarrow> asynStatus \<times> adsParamInfo" where
  "parse_adr drvInfo p0 =
     (let p = p0\<lparr>p_plcAbsAdrValid := False, p_isAdrCommand := False\<rparr>
      in case strstr drvInfo ADS_ADR_COMMAND_PREFIX of
           None \<Rightarrow> (asynSuccess, p)
         | Some isThere \<Rightarrow>
             (case scan_adr isThere of
                Some (grp, off, len, ty) \<Rightarrow>
                  (asynSuccess, p\<lparr>p_isAdrCommand := True, p_plcAbsAdrGroup := grp, p_plcAbsAdrOffset := off,
                     p_plcSize := len, p_plcDataType := ty, p_plcAbsAdrValid := True\<rparr>)
              | None \<Rightarrow>
                  (asynError, p\<lparr>p_isAdrCommand := True, p_plcAbsAdrValid := False,
                     p_plcAbsAdrGroup := 2 ^ 32 - 1, p_plcAbsAdrOffset := 2 ^ 32 - 1,
                     p_plcSize := 2 ^ 32 - 1, p_plcDataType := 2 ^ 32 - 1\<rparr>)))"

definition parse_max_delay ::
  "(nat \<Rightarrow> string \<Rightarrow> u8 list scan) \<Rightarrow> int \<Rightarrow> string \<Rightarrow> adsParamInfo \<Rightarrow> asynStatus \<times> adsParamInfo" where
  "parse_max_delay scan_real defaultMaxDelayTimeMS drvInfo p =
     (case option_value ADS_OPTION_T_MAX_DLY_MS 3 drvInfo of
        None \<Rightarrow> (asynSuccess, p)
      | Some None \<Rightarrow> (asynError, p)
      | Some (Some s) \<Rightarrow>
          (case scan_f64 scan_real s of
             Some v \<Rightarrow> (asynSuccess, p\<lparr>p_maxDelayTimeMS := v\<rparr>)
           | None \<Rightarrow> (asynError, p\<lparr>p_maxDelayTimeMS := int_to_f64 defaultMaxDelayTimeMS\<rparr>)))"

definition parse_sample_time ::
  "(nat \<Rightarrow> string \<Rightarrow> u8 list scan) \<Rightarrow> int \<Rightarrow> string \<Rightarrow> adsParamInfo \<Rightarrow> asynStatus \<times> adsParamInfo" where
  "parse_sample_time scan_real defaultSampleTimeMS drvInfo p0 =
     (let p = p0\<lparr>p_sampleTimeMS := int_to_f64 defaultSampleTimeMS\<rparr>
      in case option_value ADS_OPTION_T_SAMPLE_RATE_MS 3 drvInfo of
           None \<Rightarrow> (asynSuccess, p)
         | Some None \<Rightarrow> (asynError, p)
         | Some (Some s) \<Rightarrow>
             (case scan_f64 scan_real s of
                Some v \<Rightarrow> (asynSuccess, p\<lparr>p_sampleTimeMS := v\<rparr>)
              | None \<Rightarrow> (asynError, p)))"

text \<open>The bits of the double 1.0 are the default of the polling class.\<close>

definition parse_poll_rate ::
  "(nat \<Rightarrow> string \<Rightarrow> u8 list scan) \<Rightarrow> string \<Rightarrow> adsParamInfo \<Rightarrow> asynStatus \<times> adsParamInfo" where
  "parse_poll_rate scan_real drvInfo p0 =
     (let p = p0\<lparr>p_isBulkRead := False, p_pollClass := int_to_f64 1\<rparr>
      in case option_value ADS_OPTION_POLLRATE 3 drvInfo of
           None \<Rightarrow> (asynSuccess, p)
         | Some None \<Rightarrow> (asynError, p)
         | Some (Some s) \<Rightarrow>
             (case scan_f64 scan_real s of
                Some v \<Rightarrow> (asynSuccess, p\<lparr>p_isBulkRead := True, p_pollClass := v\<rparr>)
              | None \<Rightarrow> (asynError, p\<lparr>p_isBulkRead := True\<rparr>)))"

definition parse_timebase ::
  "ADSTIMESOURCE \<Rightarrow> string \<Rightarrow> adsParamInfo \<Rightarrow> asynStatus \<times> adsParamInfo" where
  "parse_timebase defaultTimeSource drvInfo p0 =
     (let p = p0\<lparr>p_timeBase := defaultTimeSource\<rparr>;
          minLen = min (length ADS_OPTION_TIMEBASE_PLC) (length ADS_OPTION_TIMEBASE_EPICS)
      in case option_value ADS_OPTION_TIMEBASE (2 + minLen) drvInfo of
           None \<Rightarrow> (asynSuccess, p)
         | Some None \<Rightarrow> (asynError, p)
         | Some (Some s) \<Rightarrow>
             (case Option.bind (scan_lit ''='' s) (scan_set (ADS_MAX_FIELD_CHAR_LENGTH - 1) (\<lambda>c. c \<noteq> CHR ''/'')) of
                None \<Rightarrow> (asynError, p)
              | Some (w, _) \<Rightarrow>
                  (asynSuccess,
                   if w = ADS_OPTION_TIMEBASE_PLC then p\<lparr>p_timeBase := ADS_TIME_BASE_PLC\<rparr>
                   else if w = ADS_OPTION_TIMEBASE_EPICS then p\<lparr>p_timeBase := ADS_TIME_BASE_EPICS\<rparr>
                   else p)))"

definition parse_port :: "nat \<Rightarrow> string \<Rightarrow> adsParamInfo \<Rightarrow> asynStatus \<times> adsParamInfo" where
  "parse_port amsportDefault drvInfo p0 =
     (let p = p0\<lparr>p_amsPort := amsportDefault\<rparr>
      in case option_value ADS_OPTION_ADSPORT 3 drvInfo of
           None \<Rightarrow> (asynSuccess, p)
         | Some None \<Rightarrow> (asynError, p)
         | Some (Some s) \<Rightarrow>
             (case scan_port s of
                Some v \<Rightarrow> (asynSuccess, p\<lparr>p_amsPort := v\<rparr>)
              | None \<Rightarrow> (asynError, p)))"

text \<open>
  A record for the state of an AMS port: the port gets a pointer to the parameter, its index \<open>i\<close>.
\<close>

definition parse_ams_state ::
  "('e, 'z) ads_lib_scheme \<Rightarrow> string \<Rightarrow> nat \<Rightarrow> adsParamInfo \<Rightarrow> 'e driver \<Rightarrow> asynStatus \<times> adsParamInfo \<times> 'e driver" where
  "parse_ams_state lib drvInfo i p0 d =
     (let p = p0\<lparr>p_dataSource := ADS_DATASOURCE_PLC\<rparr>
      in case strstr drvInfo ADS_AMS_STATE_COMMAND of
           None \<Rightarrow> (asynSuccess, p, d)
         | Some isThere \<Rightarrow>
             let d1 = snd (addNewAmsPortToList lib (p_amsPort p) d)
             in case getAmsPortObject d1 (p_amsPort p) of
                  None \<Rightarrow> (asynError, p, d1)
                | Some port \<Rightarrow>
                    let k = first_index (\<lambda>q. port_amsPort q = p_amsPort p) (d_amsPortList d1)
                    in (asynSuccess,
                        p\<lparr>p_dataSource := ADS_DATASOURCE_AMS_STATE, p_plcDataType := nat (adst_code ADST_UINT16),
                          p_plcSize := 2, p_plcDataIsArray := False, p_timeBase := ADS_TIME_BASE_EPICS\<rparr>,
                        set_port k (port\<lparr>port_paramInfo := Some i\<rparr>) d1))"

text \<open>The checks for options in order; the first that fails ends the parsing.\<close>

fun parse_steps ::
  "(adsParamInfo \<Rightarrow> asynStatus \<times> adsParamInfo) list \<Rightarrow> adsParamInfo \<Rightarrow> asynStatus \<times> adsParamInfo" where
  "parse_steps [] p = (asynSuccess, p)"
| "parse_steps (f # fs) p =
     (case f p of (stat, p1) \<Rightarrow> if stat \<noteq> asynSuccess then (stat, p1) else parse_steps fs p1)"

definition parse_options ::
  "(nat \<Rightarrow> string \<Rightarrow> u8 list scan) \<Rightarrow> string \<Rightarrow> 'e driver \<Rightarrow> adsParamInfo \<Rightarrow> asynStatus \<times> adsParamInfo" where
  "parse_options scan_real drvInfo d =
     parse_steps [parse_adr drvInfo,
       parse_max_delay scan_real (d_defaultMaxDelayTimeMS d) drvInfo,
       parse_sample_time scan_real (d_defaultSampleTimeMS d) drvInfo,
       parse_poll_rate scan_real drvInfo,
       parse_timebase (d_defaultTimeSource d) drvInfo,
       parse_port (d_amsportDefault d) drvInfo]"

definition parsePlcInfofromDrvInfo ::
  "('e, 'z) ads_lib_scheme \<Rightarrow> (nat \<Rightarrow> string \<Rightarrow> u8 list scan) \<Rightarrow> string \<Rightarrow> nat \<Rightarrow> adsParamInfo \<Rightarrow> 'e driver \<Rightarrow>
     (asynStatus \<times> adsParamInfo \<times> 'e driver) run" where
  "parsePlcInfofromDrvInfo lib scan_real drvInfo i p d =
     (let p1 = p\<lparr>p_isIOIntr := ends_with CHR ''?'' drvInfo\<rparr>
      in run_bind (plc_adr_str drvInfo) (\<lambda>adr.
           case adr of
             None \<Rightarrow> Done (asynError, p1, d)
           | Some plcAdrStr \<Rightarrow>
               case parse_options scan_real drvInfo d (p1\<lparr>p_plcAdrStr := plcAdrStr\<rparr>) of
                 (stat, p2) \<Rightarrow>
                   if stat \<noteq> asynSuccess then Done (asynError, p2, d)
                   else
                     case parse_ams_state lib drvInfo i p2 d of
                       (stat1, p3, d1) \<Rightarrow>
                         if stat1 \<noteq> asynSuccess then Done (asynError, p3, d1)
                         else
                           case addNewAmsPortToList lib (p_amsPort p3) d1 of
                             (stat2, d2) \<Rightarrow> Done (stat2, p3, d2)))"

section \<open>Creating a parameter\<close>

text \<open>
  Three more operations of the base class of asyn: a new parameter of the parameter library with its
  index, the address of the asyn user, and the base's own \<^verbatim>\<open>drvUserCreate\<close>.
\<close>

record 'e user_lib = "'e ads_lib" +
  ab_createParam :: "string \<Rightarrow> asynParamType \<Rightarrow> 'e \<Rightarrow> (asynStatus \<times> int) \<times> 'e"
  ab_getAddress :: "'e \<Rightarrow> (asynStatus \<times> int) \<times> 'e"
  ab_drvUserCreate :: "string \<Rightarrow> 'e \<Rightarrow> asynStatus \<times> 'e"

text \<open>
  The first call with a connection looks up all symbols.  The order in which the hash maps are
  traversed is open: \<open>link_order\<close> and \<open>dict_order\<close>.
\<close>

definition resolve_symbols ::
  "('e, 'z) ads_lib_scheme \<Rightarrow> database \<Rightarrow> ((string \<times> string \<rightharpoonup> RecordInfoCache) \<Rightarrow> (string \<times> string) list) \<Rightarrow>
     ((string \<rightharpoonup> AdsSymbolDictEntry) \<Rightarrow> string list) \<Rightarrow> nat \<Rightarrow> 'e driver \<Rightarrow> 'e driver run" where
  "resolve_symbols lib pdbbase link_order dict_order amsClientPort d =
     (if \<not> d_symInfoResolved d \<and> d_connectedAds d
      then run_bind (resolveSymbolInfo lib pdbbase link_order amsClientPort (d\<lparr>d_symInfoResolved := True\<rparr>)) (\<lambda>(_, d1).
             if dict_order (d_symbolDict d1) = [] then Done d1
             else Done (snd (resolveSymbolHandles lib dict_order amsClientPort d1)))
      else Done d)"

definition default_value :: "('e, 'z) ads_lib_scheme \<Rightarrow> asynParamType \<Rightarrow> int \<Rightarrow> 'e driver \<Rightarrow> 'e driver" where
  "default_value lib t index d =
     (case t of
        asynParamInt32 \<Rightarrow> snd (call (ab_setIntegerParam lib index 0) d)
      | asynParamFloat64 \<Rightarrow> snd (call (ab_setDoubleParam lib index 0) d)
      | asynParamInt64 \<Rightarrow> snd (call (ab_setInteger64Param lib index 0) d)
      | _ \<Rightarrow> d)"

text \<open>
  The part from the parsed string to the registered parameter; \<open>i\<close> is the next free place of the
  table.  The result \<open>None\<close> stands for a registered parameter, \<open>Some stat\<close> for a return.
\<close>

definition register_param ::
  "('e, 'z) user_lib_scheme \<Rightarrow> database \<Rightarrow> string \<Rightarrow> nat \<Rightarrow> adsParamInfo \<Rightarrow> 'e driver \<Rightarrow> asynStatus option \<times> 'e driver" where
  "register_param lib pdbbase drvInfo i p d =
     (case getRecordInfoFromDrvInfo pdbbase drvInfo (p\<lparr>p_drvInfo := Some drvInfo\<rparr>) d of
        (stat, p1, d1) \<Rightarrow>
          if stat \<noteq> asynSuccess then (Some asynError, set_param i p1 d1)
          else
            case call (ab_createParam lib drvInfo (p_asynType p1)) d1 of
              ((stat1, index), d2) \<Rightarrow>
                if stat1 \<noteq> asynSuccess then (Some asynError, set_param i p1 d2)
                else
                  let d3 = default_value lib (p_asynType p1) index d2; p2 = p1\<lparr>p_paramIndex := index\<rparr>
                  in case call (ab_getAddress lib) d3 of
                       ((stat2, addr), d4) \<Rightarrow>
                         if stat2 \<noteq> asynSuccess then (Some stat2, set_param i p2 d4)
                         else
                           (None,
                            (set_param i (p2\<lparr>p_asynAddr := addr\<rparr>) d4)
                              \<lparr>d_paramCount := d_paramCount d4 + 1,
                               d_createdParamsMap := (d_createdParamsMap d4)(drvInfo \<mapsto> index)\<rparr>))"

text \<open>
  The part behind the registration.  The attempt to connect is not checked; its guard finds the client
  port that the caller's guard holds.
\<close>

definition link_param ::
  "('e, 'z) user_lib_scheme \<Rightarrow> nat \<Rightarrow> nat \<Rightarrow> string \<Rightarrow> nat \<Rightarrow> 'e driver \<Rightarrow> (asynStatus \<times> 'e driver) run" where
  "link_param lib self amsClientPort drvInfo i d =
     run_bind (if d_connectedAds d then Done d
               else run_bind (connect lib self d) (\<lambda>(_, d1). Done d1)) (\<lambda>d1.
       let p = d_params d1 ! i
       in if d_connectedAds d1 \<and> p_dataSource p \<noteq> ADS_DATASOURCE_AMS_STATE
          then run_bind (updateParamInfoWithPLCInfo lib amsClientPort p d1) (\<lambda>(stat, p1, d2).
                 if stat \<noteq> asynSuccess then Done (asynError, set_param i p1 d2)
                 else Done (call (ab_drvUserCreate lib drvInfo) (set_param i p1 d2)))
          else Done (call (ab_drvUserCreate lib drvInfo) d1))"

definition drvUserCreate ::
  "('e, 'z) user_lib_scheme \<Rightarrow> (nat \<Rightarrow> string \<Rightarrow> u8 list scan) \<Rightarrow> database \<Rightarrow>
     ((string \<times> string \<rightharpoonup> RecordInfoCache) \<Rightarrow> (string \<times> string) list) \<Rightarrow>
     ((string \<rightharpoonup> AdsSymbolDictEntry) \<Rightarrow> string list) \<Rightarrow> nat \<Rightarrow> string \<Rightarrow> 'e driver \<Rightarrow>
     (asynStatus option \<times> 'e driver) run" where
  "drvUserCreate lib scan_real pdbbase link_order dict_order self drvInfo d0 =
     with_guard lib self (\<lambda>amsClientPort d.
       run_bind (resolve_symbols lib pdbbase link_order dict_order amsClientPort d) (\<lambda>d1.
         if validateDrvInfo drvInfo \<noteq> asynSuccess then Done (asynError, d1)
         else if d_createdParamsMap d1 drvInfo \<noteq> None then Done (call (ab_drvUserCreate lib drvInfo) d1)
         else if int (d_paramCount d1) \<ge> d_paramTableSize d1 - 1 then Done (asynError, d1)
         else
           let i = d_paramCount d1;
               p = (d_params d1 ! i)\<lparr>p_sampleTimeMS := int_to_f64 (d_defaultSampleTimeMS d1),
                     p_maxDelayTimeMS := int_to_f64 (d_defaultMaxDelayTimeMS d1), p_refreshNeeded := True,
                     p_bulkIndex := - 1, p_bulkOffset := - 1\<rparr>
           in run_bind (parsePlcInfofromDrvInfo lib scan_real drvInfo i p d1) (\<lambda>(stat, p1, d2).
                if stat \<noteq> asynSuccess then Done (asynError, set_param i p1 d2)
                else
                  case register_param lib pdbbase drvInfo i p1 d2 of
                    (Some stat1, d3) \<Rightarrow> Done (stat1, d3)
                  | (None, d3) \<Rightarrow> link_param lib self amsClientPort drvInfo i d3))) d0"

end
