(* ===== verification/Ads_RecordOptions.thy ===== *)
theory Ads_RecordOptions
  imports Ads_Records
begin

text \<open>
  The options of a record string: what the parsing makes of a text that is put together from options
  and a symbol name, and what it makes of a symbol whose name contains the name of an option.
\<close>

section \<open>Searching in a text of segments\<close>

lemma is_prefix_segment: "c \<notin> set p \<Longrightarrow> is_prefix p (xs @ c # ys) = is_prefix p xs"
proof (induction p arbitrary: xs)
  case Nil
  then show ?case by simp
next
  case (Cons q p)
  then show ?case by (cases xs) auto
qed

lemma strstr_segment:
  "c \<notin> set p \<Longrightarrow> p \<noteq> [] \<Longrightarrow>
     strstr (xs @ c # ys) p = (case strstr xs p of Some t \<Rightarrow> Some (t @ c # ys) | None \<Rightarrow> strstr ys p)"
proof (induction xs)
  case Nil
  then show ?case by (cases p) auto
next
  case (Cons x xs)
  then show ?case using is_prefix_segment [of c p "x # xs" ys] by (auto split: option.split)
qed

lemma strrchr_None_iff: "strrchr s c = None \<longleftrightarrow> c \<notin> set s"
  by (induction s) (auto split: option.split)

lemma strrchr_append: "c \<notin> set ys \<Longrightarrow> strrchr (xs @ c # ys) c = Some (c # ys)"
  using strrchr_None_iff [of ys c] by (induction xs) auto

section \<open>Texts of options\<close>

definition option_keys :: "string list" where
  "option_keys = [ADS_OPTION_T_MAX_DLY_MS, ADS_OPTION_T_SAMPLE_RATE_MS, ADS_OPTION_POLLRATE, ADS_OPTION_TIMEBASE,
     ADS_OPTION_ADSPORT]"

definition commands :: "string list" where
  "commands = [ADS_ADR_COMMAND_PREFIX, ADS_AMS_STATE_COMMAND]"

text \<open>No name of an option or a command is part of the text.\<close>

definition no_option :: "string \<Rightarrow> bool" where
  "no_option s \<longleftrightarrow> (\<forall>k \<in> set (option_keys @ commands). strstr s k = None)"

definition drv_text :: "(string \<times> string) list \<Rightarrow> string \<Rightarrow> string" where
  "drv_text opts name = concat (map (\<lambda>(k, v). k @ CHR ''='' # v @ ''/'') opts) @ name @ ''?''"

definition option_ok :: "string \<times> string \<Rightarrow> bool" where
  "option_ok kv \<longleftrightarrow> fst kv \<in> set option_keys \<and> snd kv \<noteq> [] \<and> CHR ''/'' \<notin> set (snd kv) \<and> no_option (snd kv)"

lemma keys_apart:
  "k \<in> set (option_keys @ commands) \<Longrightarrow> k' \<in> set option_keys \<Longrightarrow> strstr k' k = (if k = k' then Some k' else None)"
  by (simp add: option_keys_def commands_def option_names) (elim disjE; simp)

lemma keys_segment:
  "k \<in> set (option_keys @ commands) \<Longrightarrow> CHR ''='' \<notin> set k \<and> CHR ''/'' \<notin> set k \<and> CHR ''?'' \<notin> set k \<and> k \<noteq> []"
  by (simp add: option_keys_def commands_def option_names) (elim disjE; simp)

lemma drv_text_Cons: "drv_text ((k, v) # opts) name = k @ CHR ''='' # v @ CHR ''/'' # drv_text opts name"
  by (simp add: drv_text_def)

lemma strstr_drv_text:
  assumes "k \<in> set (option_keys @ commands)" and "list_all option_ok opts" and "no_option name"
  shows "k \<notin> fst ` set opts \<Longrightarrow> strstr (drv_text opts name) k = None"
    and "distinct (map fst opts) \<Longrightarrow> (k, v) \<in> set opts \<Longrightarrow>
      \<exists>post. strstr (drv_text opts name) k = Some (k @ CHR ''='' # v @ CHR ''/'' # drv_text post name)"
proof -
  note seg = keys_segment [OF assms(1)]
  have n: "strstr (name @ ''?'') k = None"
    using assms(1,3) seg strstr_segment [of "CHR ''?''" k name "[]"] by (cases k) (auto simp: no_option_def)
  have step: "strstr (drv_text ((k', v') # os) name) k =
      (if k = k' then Some (k @ CHR ''='' # v' @ CHR ''/'' # drv_text os name) else strstr (drv_text os name) k)"
    if "option_ok (k', v')" for k' v' os
  proof -
    have "strstr v' k = None" "strstr k' k = (if k = k' then Some k' else None)"
      using that assms(1) keys_apart by (auto simp: option_ok_def no_option_def)
    then show ?thesis
      using seg by (simp add: drv_text_Cons strstr_segment [of "CHR ''=''" k k'] strstr_segment [of "CHR ''/''" k v'])
  qed
  have 1: "strstr (drv_text opts name) k = None" if "k \<notin> fst ` set opts" "list_all option_ok opts" for opts
    using that
  proof (induction opts)
    case Nil
    then show ?case using n by (simp add: drv_text_def)
  next
    case (Cons kv opts)
    then show ?case by (cases kv) (auto simp: step)
  qed
  then show "k \<notin> fst ` set opts \<Longrightarrow> strstr (drv_text opts name) k = None" using assms(2) by blast
  show "distinct (map fst opts) \<Longrightarrow> (k, v) \<in> set opts \<Longrightarrow>
      \<exists>post. strstr (drv_text opts name) k = Some (k @ CHR ''='' # v @ CHR ''/'' # drv_text post name)"
    using assms(2)
  proof (induction opts)
    case Nil
    then show ?case by simp
  next
    case (Cons kv opts)
    then show ?case by (cases kv) (force simp: step)
  qed
qed

lemma option_value_drv_text:
  assumes "k \<in> set option_keys" and "list_all option_ok opts" and "no_option name" and "distinct (map fst opts)"
    and "\<forall>v. map_of opts k = Some v \<longrightarrow> n \<le> length v + 3"
  shows "\<exists>post. option_value k n (drv_text opts name) =
    (case map_of opts k of None \<Rightarrow> None | Some v \<Rightarrow> Some (Some (CHR ''='' # v @ CHR ''/'' # drv_text post name)))"
proof (cases "map_of opts k")
  case None
  then have "k \<notin> fst ` set opts" by (simp add: map_of_eq_None_iff)
  then show ?thesis
    using None strstr_drv_text(1) [of k opts name] assms by (simp add: option_value_def)
next
  case (Some v)
  then have "(k, v) \<in> set opts" by (rule map_of_SomeD)
  then obtain post where p: "strstr (drv_text opts name) k = Some (k @ CHR ''='' # v @ CHR ''/'' # drv_text post name)"
    using strstr_drv_text(2) [of k opts name v] assms by auto
  have "1 \<le> length (drv_text post name)" by (simp add: drv_text_def)
  with assms(5) Some have "\<not> length (k @ CHR ''='' # v @ CHR ''/'' # drv_text post name) < length k + n" by auto
  then show ?thesis using p Some by (auto simp: option_value_def)
qed


section \<open>What the options of a text say\<close>

text \<open>
  Options with distinct names and values of the right form; \<open>real\<close> is the set of texts of floating
  point numbers.
\<close>

definition options_ok :: "(string \<Rightarrow> bool) \<Rightarrow> (string \<times> string) list \<Rightarrow> bool" where
  "options_ok real opts \<longleftrightarrow>
     list_all option_ok opts \<and> distinct (map fst opts) \<and>
     (\<forall>k \<in> {ADS_OPTION_T_MAX_DLY_MS, ADS_OPTION_T_SAMPLE_RATE_MS, ADS_OPTION_POLLRATE}.
        \<forall>v. map_of opts k = Some v \<longrightarrow> real v) \<and>
     (\<forall>v. map_of opts ADS_OPTION_TIMEBASE = Some v \<longrightarrow> v \<in> {ADS_OPTION_TIMEBASE_PLC, ADS_OPTION_TIMEBASE_EPICS}) \<and>
     (\<forall>v. map_of opts ADS_OPTION_ADSPORT = Some v \<longrightarrow> (\<exists>n < 2 ^ 16. v = show_nat n))"

text \<open>The scan of a floating point number stops at the slash; \<open>R\<close> is the value of a text.\<close>

definition scans_real :: "(nat \<Rightarrow> string \<Rightarrow> u8 list scan) \<Rightarrow> (string \<Rightarrow> bool) \<Rightarrow> (string \<Rightarrow> u8 list) \<Rightarrow> bool" where
  "scans_real scan_real real R \<longleftrightarrow>
     (\<forall>v rest. real v \<longrightarrow> scan_real 8 (v @ CHR ''/'' # rest) = Scan_Ok (R v) (CHR ''/'' # rest))"

definition symbol_name :: "string \<Rightarrow> bool" where
  "symbol_name name \<longleftrightarrow> no_option name \<and> length name < ADS_MAX_FIELD_CHAR_LENGTH - 1 \<and>
     (\<forall>c \<in> set name. c \<noteq> CHR ''/'' \<and> c \<noteq> CHR ''?'' \<and> c \<noteq> CHR ''='' \<and> \<not> is_space c)"

text \<open>The members that the options set, as the texts say.\<close>

definition with_options ::
  "(string \<Rightarrow> u8 list) \<Rightarrow> (string \<times> string) list \<Rightarrow> 'e driver \<Rightarrow> adsParamInfo \<Rightarrow> adsParamInfo" where
  "with_options R opts d p =
     p\<lparr>p_plcAbsAdrValid := False, p_isAdrCommand := False,
       p_maxDelayTimeMS := (case map_of opts ADS_OPTION_T_MAX_DLY_MS of Some v \<Rightarrow> le_nat (R v) | None \<Rightarrow> p_maxDelayTimeMS p),
       p_sampleTimeMS := (case map_of opts ADS_OPTION_T_SAMPLE_RATE_MS of Some v \<Rightarrow> le_nat (R v)
                          | None \<Rightarrow> int_to_f64 (d_defaultSampleTimeMS d)),
       p_isBulkRead := (map_of opts ADS_OPTION_POLLRATE \<noteq> None),
       p_pollClass := (case map_of opts ADS_OPTION_POLLRATE of Some v \<Rightarrow> le_nat (R v) | None \<Rightarrow> int_to_f64 1),
       p_timeBase := (case map_of opts ADS_OPTION_TIMEBASE of
                        Some v \<Rightarrow> if v = ADS_OPTION_TIMEBASE_PLC then ADS_TIME_BASE_PLC else ADS_TIME_BASE_EPICS
                      | None \<Rightarrow> d_defaultTimeSource d),
       p_amsPort := (case map_of opts ADS_OPTION_ADSPORT of Some v \<Rightarrow> dec_value v | None \<Rightarrow> d_amsportDefault d)\<rparr>"

lemma scan_lit_Cons [simp]: "scan_lit [c] (c # s) = Some s"
  by (simp add: scan_lit_def)

lemma scan_port_show: "n < 2 ^ 16 \<Longrightarrow> scan_port (CHR ''='' # show_nat n @ CHR ''/'' # rest) = Some n"
proof -
  assume n: "n < 2 ^ 16"
  have "\<not> is_digit CHR ''/''" by code_simp
  then have "scan_dec (show_int (int n) @ CHR ''/'' # rest) = Scan_Ok (int n < 0, nat \<bar>int n\<bar>) (CHR ''/'' # rest)"
    by (intro scan_dec_show_int) simp
  moreover have "strtol64 (int n < 0, nat \<bar>int n\<bar>) = int n" by (rule strtol64_abs) (use n in simp_all)
  ultimately show ?thesis using n by (simp add: scan_port_def show_int_def)
qed

lemma parse_reals:
  assumes "options_ok real opts" and "no_option name" and "scans_real scan_real real R"
    and "k \<in> {ADS_OPTION_T_MAX_DLY_MS, ADS_OPTION_T_SAMPLE_RATE_MS, ADS_OPTION_POLLRATE}"
  shows "\<exists>s. option_value k 3 (drv_text opts name) =
      (case map_of opts k of None \<Rightarrow> None | Some v \<Rightarrow> Some (Some s)) \<and>
    (\<forall>v. map_of opts k = Some v \<longrightarrow> scan_f64 scan_real s = Some (le_nat (R v)))"
proof -
  have k: "k \<in> set option_keys" using assms(4) by (auto simp: option_keys_def)
  obtain post where "option_value k 3 (drv_text opts name) =
    (case map_of opts k of None \<Rightarrow> None | Some v \<Rightarrow> Some (Some (CHR ''='' # v @ CHR ''/'' # drv_text post name)))"
    using option_value_drv_text [OF k, of opts name 3] assms(1,2) by (auto simp: options_ok_def)
  moreover have "real v" if "map_of opts k = Some v" for v using assms(1,4) that by (auto simp: options_ok_def)
  ultimately show ?thesis
    using assms(3) by (cases "map_of opts k") (auto simp: scans_real_def scan_f64_def)
qed

lemma parse_options_text:
  assumes "options_ok real opts" and "no_option name" and "scans_real scan_real real R"
  shows "parse_options scan_real (drv_text opts name) d p = (asynSuccess, with_options R opts d p)"
proof -
  have ok: "list_all option_ok opts" "distinct (map fst opts)" using assms(1) by (simp_all add: options_ok_def)
  have adr: "parse_adr (drv_text opts name) q = (asynSuccess, q\<lparr>p_plcAbsAdrValid := False, p_isAdrCommand := False\<rparr>)" for q
  proof -
    have "ADS_ADR_COMMAND_PREFIX \<in> set (option_keys @ commands)" by (simp add: commands_def)
    moreover have "ADS_ADR_COMMAND_PREFIX \<notin> fst ` set opts"
      using ok(1) by (auto simp: list_all_iff option_ok_def option_keys_def option_names)
    ultimately show ?thesis
      using strstr_drv_text(1) [OF _ ok(1) assms(2)] by (simp add: parse_adr_def Let_def)
  qed
  note real = parse_reals [OF assms]
  have delay: "parse_max_delay scan_real def (drv_text opts name) q = (asynSuccess, q\<lparr>p_maxDelayTimeMS :=
      (case map_of opts ADS_OPTION_T_MAX_DLY_MS of Some v \<Rightarrow> le_nat (R v) | None \<Rightarrow> p_maxDelayTimeMS q)\<rparr>)" for def q
    using real [of ADS_OPTION_T_MAX_DLY_MS]
    by (cases "map_of opts ADS_OPTION_T_MAX_DLY_MS") (auto simp: parse_max_delay_def)
  have sample: "parse_sample_time scan_real def (drv_text opts name) q = (asynSuccess, q\<lparr>p_sampleTimeMS :=
      (case map_of opts ADS_OPTION_T_SAMPLE_RATE_MS of Some v \<Rightarrow> le_nat (R v) | None \<Rightarrow> int_to_f64 def)\<rparr>)" for def q
    using real [of ADS_OPTION_T_SAMPLE_RATE_MS]
    by (cases "map_of opts ADS_OPTION_T_SAMPLE_RATE_MS") (auto simp: parse_sample_time_def Let_def)
  have poll: "parse_poll_rate scan_real (drv_text opts name) q = (asynSuccess,
      q\<lparr>p_isBulkRead := (map_of opts ADS_OPTION_POLLRATE \<noteq> None),
        p_pollClass := (case map_of opts ADS_OPTION_POLLRATE of Some v \<Rightarrow> le_nat (R v) | None \<Rightarrow> int_to_f64 1)\<rparr>)" for q
    using real [of ADS_OPTION_POLLRATE]
    by (cases "map_of opts ADS_OPTION_POLLRATE") (auto simp: parse_poll_rate_def Let_def)
  have keys: "ADS_OPTION_TIMEBASE \<in> set option_keys" "ADS_OPTION_ADSPORT \<in> set option_keys"
    by (simp_all add: option_keys_def)
  have time: "parse_timebase def (drv_text opts name) q = (asynSuccess, q\<lparr>p_timeBase :=
      (case map_of opts ADS_OPTION_TIMEBASE of
         Some v \<Rightarrow> if v = ADS_OPTION_TIMEBASE_PLC then ADS_TIME_BASE_PLC else ADS_TIME_BASE_EPICS
       | None \<Rightarrow> def)\<rparr>)" for def q
  proof -
    have v: "v = ''PLC'' \<or> v = ''EPICS''" if "map_of opts ADS_OPTION_TIMEBASE = Some v" for v
      using assms(1) that by (auto simp: options_ok_def ADS_OPTION_TIMEBASE_PLC_def ADS_OPTION_TIMEBASE_EPICS_def)
    obtain post where "option_value ADS_OPTION_TIMEBASE 5 (drv_text opts name) =
      (case map_of opts ADS_OPTION_TIMEBASE of None \<Rightarrow> None
       | Some v \<Rightarrow> Some (Some (CHR ''='' # v @ CHR ''/'' # drv_text post name)))"
      using option_value_drv_text [OF keys(1) ok(1) assms(2) ok(2), of 5] v by force
    moreover have five: "2 + min (length ADS_OPTION_TIMEBASE_PLC) (length ADS_OPTION_TIMEBASE_EPICS) = 5"
      by (simp add: ADS_OPTION_TIMEBASE_PLC_def ADS_OPTION_TIMEBASE_EPICS_def)
    ultimately show ?thesis
      using v unfolding parse_timebase_def Let_def five by (cases "map_of opts ADS_OPTION_TIMEBASE")
        (auto simp: ADS_OPTION_TIMEBASE_PLC_def ADS_OPTION_TIMEBASE_EPICS_def
          scan_set_def ADS_MAX_FIELD_CHAR_LENGTH_def)
  qed
  have port: "parse_port def (drv_text opts name) q = (asynSuccess, q\<lparr>p_amsPort :=
      (case map_of opts ADS_OPTION_ADSPORT of Some v \<Rightarrow> dec_value v | None \<Rightarrow> def)\<rparr>)" for def q
  proof -
    obtain post where "option_value ADS_OPTION_ADSPORT 3 (drv_text opts name) =
      (case map_of opts ADS_OPTION_ADSPORT of None \<Rightarrow> None
       | Some v \<Rightarrow> Some (Some (CHR ''='' # v @ CHR ''/'' # drv_text post name)))"
      using option_value_drv_text [OF keys(2) ok(1) assms(2) ok(2), of 3] by force
    moreover have "\<exists>n < 2 ^ 16. v = show_nat n" if "map_of opts ADS_OPTION_ADSPORT = Some v" for v
      using assms(1) that by (auto simp: options_ok_def)
    ultimately show ?thesis
      using scan_port_show by (cases "map_of opts ADS_OPTION_ADSPORT") (force simp: parse_port_def Let_def dec_value_show_nat)+
  qed
  show ?thesis
    by (cases "map_of opts ADS_OPTION_T_MAX_DLY_MS")
      (simp_all add: parse_options_def adr delay sample poll time port with_options_def)
qed


lemma strrchr_slash:
  assumes "CHR ''/'' \<notin> set name"
  shows "strrchr (drv_text opts name) CHR ''/'' = (if opts = [] then None else Some (CHR ''/'' # name @ ''?''))"
proof (cases opts rule: rev_cases)
  case Nil
  then show ?thesis using assms by (simp add: drv_text_def strrchr_None_iff)
next
  case (snoc os kv)
  obtain k v where kv: "kv = (k, v)" by (cases kv)
  have eq: "drv_text opts name = (concat (map (\<lambda>(k, v). k @ CHR ''='' # v @ ''/'') os) @ k @ CHR ''='' # v) @ CHR ''/'' # name @ ''?''"
    by (simp add: drv_text_def snoc kv)
  have "strrchr (drv_text opts name) CHR ''/'' = Some (CHR ''/'' # name @ ''?'')"
    unfolding eq by (rule strrchr_append) (use assms in simp)
  then show ?thesis using snoc by simp
qed

lemma plc_adr_str_text:
  assumes "symbol_name name"
  shows "plc_adr_str (drv_text opts name) = Done (Some name)"
proof -
  have name: "CHR ''/'' \<notin> set name" "\<forall>c \<in> set name. \<not> is_space c" "length name < 127"
    using assms by (auto simp: symbol_name_def ADS_MAX_FIELD_CHAR_LENGTH_def)
  have q: "\<not> is_space CHR ''?''" by code_simp
  have "skip_space (name @ ''?'') = name @ ''?''"
    using name(2) q by (cases name) (auto simp: skip_space_def)
  moreover have "takeWhile (\<lambda>c. \<not> is_space c) (name @ ''?'') = name @ ''?''"
    using name(2) q by (simp add: takeWhile_eq_all_conv)
  ultimately have "scan_str 127 (name @ ''?'') = Some (name @ ''?'', [])"
    using name(3) by (simp add: scan_str_def scan_set_def Let_def)
  then show ?thesis
    using strrchr_slash [OF name(1), of opts] by (auto simp: plc_adr_str_def ADS_MAX_FIELD_CHAR_LENGTH_def drv_text_def)
qed

lemma ends_with_text: "ends_with CHR ''?'' (drv_text opts name)"
proof -
  have "strrchr (drv_text opts name) CHR ''?'' = Some ''?''"
    using strrchr_last [of "concat (map (\<lambda>(k, v). k @ CHR ''='' # v @ ''/'') opts) @ name" "CHR ''?''"]
    by (simp add: drv_text_def)
  then show ?thesis by (simp add: ends_with_def)
qed

lemma addNewAmsPortToList_finds:
  "fst (addNewAmsPortToList lib n d) = asynSuccess \<and> getAmsPortObject (snd (addNewAmsPortToList lib n d)) n \<noteq> None"
proof (cases "list_ex (\<lambda>port. port_amsPort port = n) (d_amsPortList d)")
  case True
  then show ?thesis by (auto simp: addNewAmsPortToList_def getAmsPortObject_def find_None_iff list_ex_iff)
next
  case False
  have "find (\<lambda>port. port_amsPort port = n) (xs @ [new_port lib n]) \<noteq> None" for xs
    by (induction xs) (auto simp: new_port_def)
  then show ?thesis using False by (simp add: addNewAmsPortToList_def getAmsPortObject_def)
qed

text \<open>
  C28: the options of a record are read as they are written: from a link of options with different names,
  in any order, and a symbol name, the parsing gives exactly the values that stand there, the defaults
  for the options that are missing, and the name; the AMS port is registered.
\<close>
theorem record_options_roundtrip:
  assumes "options_ok real opts" and "symbol_name name" and "scans_real scan_real real R"
  shows "\<exists>d'. parsePlcInfofromDrvInfo lib scan_real (drv_text opts name) i p d =
      Done (asynSuccess, (with_options R opts d (p\<lparr>p_isIOIntr := True, p_plcAdrStr := name\<rparr>))
        \<lparr>p_dataSource := ADS_DATASOURCE_PLC\<rparr>, d') \<and>
    getAmsPortObject d' (p_amsPort (with_options R opts d p)) \<noteq> None"
proof -
  have no: "no_option name" using assms(2) by (simp add: symbol_name_def)
  have ok: "list_all option_ok opts" using assms(1) by (simp add: options_ok_def)
  have "ADS_AMS_STATE_COMMAND \<in> set (option_keys @ commands)" by (simp add: commands_def)
  moreover have "ADS_AMS_STATE_COMMAND \<notin> fst ` set opts"
    using ok by (auto simp: list_all_iff option_ok_def option_keys_def option_names)
  ultimately have st: "strstr (drv_text opts name) ADS_AMS_STATE_COMMAND = None"
    using strstr_drv_text(1) [OF _ ok no] by blast
  let ?w = "with_options R opts d (p\<lparr>p_isIOIntr := True, p_plcAdrStr := name\<rparr>)"
  let ?q = "?w\<lparr>p_dataSource := ADS_DATASOURCE_PLC\<rparr>"
  have port: "p_amsPort ?q = p_amsPort (with_options R opts d p)" by (simp add: with_options_def)
  obtain d' where d': "addNewAmsPortToList lib (p_amsPort ?q) d = (asynSuccess, d')" "getAmsPortObject d' (p_amsPort ?q) \<noteq> None"
    using addNewAmsPortToList_finds [of lib "p_amsPort ?q" d] by (metis prod.collapse)
  have ams: "parse_ams_state lib (drv_text opts name) i ?w d = (asynSuccess, ?q, d)"
    unfolding parse_ams_state_def Let_def st option.case ..
  have "parsePlcInfofromDrvInfo lib scan_real (drv_text opts name) i p d = Done (asynSuccess, ?q, d')"
    unfolding parsePlcInfofromDrvInfo_def Let_def plc_adr_str_text [OF assms(2)] run_bind.simps option.case
      parse_options_text [OF assms(1) no assms(3)] case_prod_conv
    using ends_with_text [of opts name] by (simp only: simp_thms if_False ams case_prod_conv d'(1))
  then show ?thesis using d'(2) unfolding port by (intro exI conjI)
qed

lemma strstr_suffix: "strstr s p = Some t \<Longrightarrow> \<exists>pre. s = pre @ t"
proof (induction s)
  case Nil
  then show ?case by (simp split: if_splits)
next
  case (Cons x s)
  show ?case
  proof (cases "is_prefix p (x # s)")
    case True
    then show ?thesis using Cons.prems by (intro exI [of _ "[]"]) simp
  next
    case False
    then obtain pre where "s = pre @ t" using Cons by auto
    then show ?thesis by (intro exI [of _ "x # pre"]) simp
  qed
qed

lemma option_without_value:
  assumes "k \<in> set option_keys" and "strstr name k \<noteq> None" and "CHR ''='' \<notin> set name"
  shows "option_value k n (name @ ''?'') = Some None \<or>
    (\<exists>s. option_value k n (name @ ''?'') = Some (Some s) \<and> scan_lit ''='' s = None)"
proof -
  have "k \<noteq> [] \<and> CHR ''?'' \<notin> set k" using keys_segment [of k] assms(1) by simp
  then obtain t where t: "strstr (name @ ''?'') k = Some t"
    using assms(2) strstr_segment [of "CHR ''?''" k name "[]"] by auto
  then obtain pre where "name @ ''?'' = pre @ t" using strstr_suffix by blast
  then have "set t \<subseteq> set (name @ ''?'')" by simp
  then have "CHR ''='' \<notin> set (drop (length k) t)" using assms(3) in_set_dropD by fastforce
  then have "scan_lit ''='' (drop (length k) t) = None" by (cases "drop (length k) t") (auto simp: scan_lit_def)
  then show ?thesis using t by (simp add: option_value_def)
qed

lemma parse_steps_error:
  "f \<in> set fs \<Longrightarrow> (\<And>q. fst (f q) \<noteq> asynSuccess) \<Longrightarrow> fst (parse_steps fs p) \<noteq> asynSuccess"
proof (induction fs arbitrary: p)
  case Nil
  then show ?case by simp
next
  case (Cons g fs)
  obtain st q where g: "g p = (st, q)" by (metis surj_pair)
  show ?case
  proof (cases "f = g")
    case True
    then show ?thesis using Cons.prems(2) [of p] g by simp
  next
    case False
    then have "f \<in> set fs" using Cons.prems(1) by simp
    then show ?thesis using Cons.IH [OF _ Cons.prems(2), of q] g by simp
  qed
qed

lemma option_name_fails:
  assumes "k \<in> set option_keys" and "strstr name k \<noteq> None" and "CHR ''='' \<notin> set name"
  shows "fst (parse_options scan_real (name @ ''?'') d q) \<noteq> asynSuccess"
proof -
  note v = option_without_value [OF assms]
  have "k = ADS_OPTION_T_MAX_DLY_MS \<or> k = ADS_OPTION_T_SAMPLE_RATE_MS \<or> k = ADS_OPTION_POLLRATE \<or>
      k = ADS_OPTION_TIMEBASE \<or> k = ADS_OPTION_ADSPORT"
    using assms(1) by (simp add: option_keys_def)
  then obtain f where "f \<in> set [parse_adr (name @ ''?''),
     parse_max_delay scan_real (d_defaultMaxDelayTimeMS d) (name @ ''?''),
     parse_sample_time scan_real (d_defaultSampleTimeMS d) (name @ ''?''),
     parse_poll_rate scan_real (name @ ''?''),
     parse_timebase (d_defaultTimeSource d) (name @ ''?''),
     parse_port (d_amsportDefault d) (name @ ''?'')]" "\<And>q. fst (f q) \<noteq> asynSuccess"
  proof (elim disjE)
    assume "k = ADS_OPTION_T_MAX_DLY_MS"
    then show thesis using v [of 3] that(1) [of "parse_max_delay scan_real (d_defaultMaxDelayTimeMS d) (name @ ''?'')"]
      by (auto simp: parse_max_delay_def scan_f64_def)
  next
    assume "k = ADS_OPTION_T_SAMPLE_RATE_MS"
    then show thesis using v [of 3] that(1) [of "parse_sample_time scan_real (d_defaultSampleTimeMS d) (name @ ''?'')"]
      by (auto simp: parse_sample_time_def scan_f64_def Let_def)
  next
    assume "k = ADS_OPTION_POLLRATE"
    then show thesis using v [of 3] that(1) [of "parse_poll_rate scan_real (name @ ''?'')"]
      by (auto simp: parse_poll_rate_def scan_f64_def Let_def)
  next
    assume "k = ADS_OPTION_TIMEBASE"
    then show thesis
      using v [of "2 + min (length ADS_OPTION_TIMEBASE_PLC) (length ADS_OPTION_TIMEBASE_EPICS)"]
        that(1) [of "parse_timebase (d_defaultTimeSource d) (name @ ''?'')"]
      unfolding parse_timebase_def Let_def by auto
  next
    assume "k = ADS_OPTION_ADSPORT"
    then show thesis using v [of 3] that(1) [of "parse_port (d_amsportDefault d) (name @ ''?'')"]
      by (auto simp: parse_port_def scan_port_def Let_def)
  qed
  then show ?thesis unfolding parse_options_def by (rule parse_steps_error)
qed

text \<open>
  C29: a link that consists of a symbol name and a question mark, without options, is refused when the
  name contains the name of an option and no equals sign: the option is looked for in the whole string, is
  found in the name, has no value there, and the parsing fails, whatever is scanned.  (In front of such a
  name the same option can be given, and is then found first.)
\<close>
theorem option_name_in_symbol:
  assumes "k \<in> set option_keys" and "strstr name k \<noteq> None" and "CHR ''='' \<notin> set name"
  shows "\<exists>p' d'. parsePlcInfofromDrvInfo lib scan_real (name @ ''?'') i p d = Done (asynError, p', d')"
proof -
  have err: "\<exists>st q'. parse_options scan_real (name @ ''?'') d q = (st, q') \<and> st \<noteq> asynSuccess" for q
    using option_name_fails [OF assms] by (metis prod.collapse)
  have "\<exists>a. plc_adr_str (name @ ''?'') = Done a" by (auto simp: plc_adr_str_def split: option.split)
  then obtain a where a: "plc_adr_str (name @ ''?'') = Done a" by blast
  show ?thesis
  proof (cases a)
    case None
    then show ?thesis using a by (simp add: parsePlcInfofromDrvInfo_def Let_def)
  next
    case (Some str)
    obtain st q' where "parse_options scan_real (name @ ''?'') d
        (p\<lparr>p_isIOIntr := ends_with CHR ''?'' (name @ ''?''), p_plcAdrStr := str\<rparr>) = (st, q')" "st \<noteq> asynSuccess"
      using err by blast
    then show ?thesis using a Some by (simp add: parsePlcInfofromDrvInfo_def Let_def)
  qed
qed

lemma option_name_in_symbol_witness:
  "\<exists>p' d'. parsePlcInfofromDrvInfo zero_lib (\<lambda>_ _. Scan_Fail) (''Main.TS_MS'' @ ''?'') 1 new_param demo_driver =
     Done (asynError, p', d')"
  by (rule option_name_in_symbol [of ADS_OPTION_T_SAMPLE_RATE_MS]) (simp_all add: option_keys_def option_names)

lemma record_options_roundtrip_witness:
  "\<exists>d'. parsePlcInfofromDrvInfo zero_lib (\<lambda>n s. Scan_Ok [0, 0, 0, 0, 0, 0, 240, 63] (drop 1 s))
       (drv_text [(''POLL_RATE'', ''1''), (''ADSPORT'', ''852'')] ''Main.x'') 1 new_param demo_driver =
     Done (asynSuccess, (with_options (\<lambda>_. [0, 0, 0, 0, 0, 0, 240, 63]) [(''POLL_RATE'', ''1''), (''ADSPORT'', ''852'')]
       demo_driver (new_param\<lparr>p_isIOIntr := True, p_plcAdrStr := ''Main.x''\<rparr>))\<lparr>p_dataSource := ADS_DATASOURCE_PLC\<rparr>, d') \<and>
     getAmsPortObject d' (p_amsPort (with_options (\<lambda>_. [0, 0, 0, 0, 0, 0, 240, 63])
       [(''POLL_RATE'', ''1''), (''ADSPORT'', ''852'')] demo_driver new_param)) \<noteq> None"
proof (rule record_options_roundtrip)
  have n: "no_option ''1''" "no_option ''852''" "no_option ''Main.x''"
    by (simp_all add: no_option_def option_keys_def commands_def option_names)
  have e: "show_nat 852 = ''852''" by code_simp
  show "options_ok (\<lambda>v. v = ''1'') [(''POLL_RATE'', ''1''), (''ADSPORT'', ''852'')]"
    using n e by (auto simp: options_ok_def option_ok_def option_keys_def option_names intro!: exI [of _ 852])
  show "symbol_name ''Main.x''"
    using n by (simp add: symbol_name_def ADS_MAX_FIELD_CHAR_LENGTH_def is_space_def)
  show "scans_real (\<lambda>n s. Scan_Ok [0, 0, 0, 0, 0, 0, 240, 63] (drop 1 s)) (\<lambda>v. v = ''1'')
      (\<lambda>_. [0, 0, 0, 0, 0, 0, 240, 63])"
    by (simp add: scans_real_def)
qed

end
