(* ===== verification/Ads_RecordTable.thy ===== *)
theory Ads_RecordTable
  imports Ads_RecordOptions
begin

text \<open>
  The table of parameters under \<^verbatim>\<open>drvUserCreate\<close>: what the steps of creating a
  parameter leave alone, and the agreement of the table with the map of created parameters.
\<close>

section \<open>The table of parameters\<close>

definition table_of :: "'e driver \<Rightarrow> adsParamInfo list \<times> nat \<times> (string \<rightharpoonup> int) \<times> int" where
  "table_of d = (d_params d, d_paramCount d, d_createdParamsMap d, d_paramTableSize d)"

named_theorems table_frames

lemma table_of_keep [table_frames]: "keep_table d d' \<Longrightarrow> table_of d' = table_of d"
  by (simp add: table_of_def keep_table_def keep_def)

lemma table_of_call [table_frames]: "call f d = (r, d') \<Longrightarrow> table_of d' = table_of d"
  by (intro table_of_keep table_call)

lemma table_of_enter: "table_of (snd (guard_enter lib t d)) = table_of d"
  by (auto simp: guard_enter_def addAdsClientPortNumberForThreadId_def table_of_def call_def
      split: option.split prod.splits)

lemma table_of_leave: "table_of (guard_leave lib t d) = table_of d"
  by (auto simp: guard_leave_def delAdsClientPortNumberForThreadId_def Let_def table_of_def call_def
      split: option.split prod.splits)

lemma with_guard_table:
  assumes "with_guard lib t body d = Done (r, d')"
  obtains "r = None" and "table_of d' = table_of d"
    | cp d1 x d2 where "table_of d1 = table_of d" and "body cp d1 = Done (x, d2)" and "r = Some x"
      and "table_of d' = table_of d2"
proof -
  obtain c d1 where e: "guard_enter lib t d = (c, d1)" by (metis prod.exhaust)
  then have 1: "table_of d1 = table_of d" using table_of_enter [of lib t d] by simp
  show thesis
  proof (cases c)
    case None
    then show thesis using assms e 1 that(1) by (auto simp: with_guard_def table_of_leave)
  next
    case (Some cp)
    then obtain x d2 where "body cp d1 = Done (x, d2)" "r = Some x" "d' = guard_leave lib t d2"
      using assms e by (auto simp: with_guard_def run_bind_Done_iff)
    then show thesis using that(2) [OF 1] by (simp add: table_of_leave)
  qed
qed

lemma table_of_connect [table_frames]:
  assumes "connect lib self d = Done (r, d')"
  shows "table_of d' = table_of d"
proof -
  have c: "table_of (snd (adsConnect lib cp d1)) = table_of d1" for cp and d1 :: "'a driver"
    by (auto simp: adsConnect_def adsAddRoute_def adsDelRoute_def Let_def table_of_def call_def split: prod.splits)
  have e: "table_of (snd (adsAddEthercatRoute lib d1)) = table_of d1" for d1 :: "'a driver"
    by (auto simp: adsAddEthercatRoute_def Let_def table_of_def call_def split: prod.splits)
  have b: "table_of (snd (connect_body lib cp d1)) = table_of d1" for cp and d1 :: "'a driver"
  proof -
    obtain s1 d2 where 1: "adsConnect lib cp d1 = (s1, d2)" by (metis prod.exhaust)
    obtain s2 d3 where 2: "(if ethercatMasterIsAvailable d2 then adsAddEthercatRoute lib d2 else (asynSuccess, d2)) = (s2, d3)"
      by (metis prod.exhaust)
    obtain s3 d4 where 3: "call (ab_connect lib) d3 = (s3, d4)" by (metis prod.exhaust)
    have "table_of d2 = table_of d1" "table_of d3 = table_of d2" "table_of d4 = table_of d3"
      using c [of cp d1] 1 e [of d2] 2 table_of_call [OF 3] by (auto split: if_splits)
    then show ?thesis using 1 2 3 by (simp add: connect_body_def) (simp add: table_of_def)
  qed
  show ?thesis
    using assms unfolding connect_def by (rule with_guard_table) (use b in simp, metis b run.inject snd_conv)
qed

lemma table_of_info_chunks: "info_chunks lib cp cs d = Done (st, d') \<Longrightarrow> table_of d' = table_of d"
proof (induction cs arbitrary: d)
  case Nil
  then show ?case by simp
next
  case (Cons names rest)
  have "table_of (d1\<lparr>d_symbolDict := x\<rparr>) = table_of d1" for d1 :: "'a driver" and x by (simp add: table_of_def)
  then show ?case
    using Cons.prems
    by (auto simp: Let_def run_bind_Done_iff split: prod.splits if_splits dest!: Cons.IH table_of_call)
qed

lemma table_of_handle_chunks: "table_of (handle_chunks lib cp cs d) = table_of d"
proof (induction cs arbitrary: d)
  case Nil
  then show ?case by simp
next
  case (Cons keys rest)
  have "table_of (d1\<lparr>d_symbolDict := x\<rparr>) = table_of d1" for d1 :: "'a driver" and x by (simp add: table_of_def)
  then show ?case
    using Cons.IH by (auto simp: Let_def split: prod.splits dest!: table_of_call)
qed

lemma table_of_cache [simp]: "table_of (buildDrvInfoCache pdbbase d) = table_of d"
  by (auto simp: buildDrvInfoCache_def table_of_def split: option.split)

lemma table_of_resolve [table_frames]:
  assumes "resolve_symbols lib pdbbase link_order dict_order cp d = Done d'"
  shows "table_of d' = table_of d"
proof -
  have u: "table_of (d\<lparr>d_symInfoResolved := True, d_symbolDict := Map.empty\<rparr>) = table_of d"
    by (simp add: table_of_def)
  have i: "table_of d1 = table_of d"
    if "resolveSymbolInfo lib pdbbase link_order cp (d\<lparr>d_symInfoResolved := True\<rparr>) = Done (st, d1)" for st d1
    using that u by (auto simp: resolveSymbolInfo_def Let_def split: if_splits dest!: table_of_info_chunks)
  show ?thesis
    using assms by (auto simp: resolve_symbols_def run_bind_Done_iff resolveSymbolHandles_def
        table_of_handle_chunks split: if_splits dest!: i)
qed

lemma table_of_record_info [table_frames]:
  "getRecordInfoFromDrvInfo pdbbase s p d = (st, p', d') \<Longrightarrow> table_of d' = table_of d \<and>
     (p_drvInfo p = Some s \<longrightarrow> p_drvInfo p' = Some s)"
  by (auto simp: getRecordInfoFromDrvInfo_def Let_def split: option.splits)

lemma table_of_parse [table_frames]:
  assumes "parsePlcInfofromDrvInfo lib scan_real drvInfo i p d = Done (st, p', d')"
  shows "table_of d' = table_of d"
proof -
  have a: "table_of (snd (addNewAmsPortToList lib n d1)) = table_of d1" for n and d1 :: "'a driver"
    by (simp add: addNewAmsPortToList_def table_of_def)
  have "table_of (set_port k q d1) = table_of d1" for k q and d1 :: "'a driver"
    by (simp add: set_port_def table_of_def)
  then have s: "table_of (snd (snd (parse_ams_state lib drvInfo i q d1))) = table_of d1" for q and d1 :: "'a driver"
    using a by (simp add: parse_ams_state_def Let_def split: option.split)
  obtain adr where adr: "plc_adr_str drvInfo = Done adr"
    using assms by (auto simp: parsePlcInfofromDrvInfo_def Let_def run_bind_Done_iff)
  show ?thesis
  proof (cases adr)
    case None
    then show ?thesis using assms adr by (simp add: parsePlcInfofromDrvInfo_def Let_def)
  next
    case (Some str)
    obtain st2 p2 where 2: "parse_options scan_real drvInfo d
        (p\<lparr>p_isIOIntr := ends_with CHR ''?'' drvInfo, p_plcAdrStr := str\<rparr>) = (st2, p2)"
      by (metis surj_pair)
    obtain st3 p3 d3 where 3: "parse_ams_state lib drvInfo i p2 d = (st3, p3, d3)" by (metis prod.exhaust)
    obtain st4 d4 where 4: "addNewAmsPortToList lib (p_amsPort p3) d3 = (st4, d4)" by (metis surj_pair)
    have "table_of d3 = table_of d" "table_of d4 = table_of d3"
      using s [of p2 d] 3 a [of "p_amsPort p3" d3] 4 by simp_all
    then show ?thesis
      using assms adr Some 2 3 4 by (auto simp: parsePlcInfofromDrvInfo_def Let_def split: if_splits)
  qed
qed

section \<open>Created parameters\<close>

text \<open>The links and the indices of the parameters in use, behind the default one.\<close>

definition links :: "'e driver \<Rightarrow> (string option \<times> int) list" where
  "links d = map (\<lambda>p. (p_drvInfo p, p_paramIndex p)) (take (d_paramCount d - 1) (drop 1 (d_params d)))"

text \<open>
  The table of parameters and the map of created parameters agree: the parameters in use are in the
  table, the map holds exactly the links of those behind the default one, with their indices, and no
  link has two parameters.
\<close>

definition created_ok :: "'e driver \<Rightarrow> bool" where
  "created_ok d \<longleftrightarrow>
     int (length (d_params d)) = d_paramTableSize d \<and> 0 < d_paramCount d \<and> d_paramCount d \<le> length (d_params d) \<and>
     distinct (map fst (links d)) \<and> None \<notin> fst ` set (links d) \<and>
     (\<forall>k. d_createdParamsMap d k = map_of (links d) (Some k))"

lemma created_ok_keep: "keep d d' \<Longrightarrow> created_ok d' = created_ok d"
  unfolding keep_def by (simp add: created_ok_def links_def flip: drop_map take_map)

lemma created_ok_table: "table_of d' = table_of d \<Longrightarrow> created_ok d' = created_ok d"
  by (simp add: created_ok_def table_of_def links_def)

lemma links_same_id: "i < length (d_params d) \<Longrightarrow> same_id (d_params d ! i) p \<Longrightarrow> links (set_param i p d) = links d"
proof -
  let ?f = "\<lambda>p. (p_drvInfo p, p_paramIndex p)"
  assume a: "i < length (d_params d)" "same_id (d_params d ! i) p"
  have "map ?f ((d_params d)[i := p]) = (map ?f (d_params d))[i := ?f p]" by (rule map_update)
  also have "?f p = map ?f (d_params d) ! i" using a by (simp add: same_id_def)
  finally have "map ?f ((d_params d)[i := p]) = map ?f (d_params d)" by (simp only: list_update_id)
  then show ?thesis unfolding links_def set_param_def by (simp flip: drop_map take_map)
qed

lemma created_ok_same_id:
  "created_ok d \<Longrightarrow> i < length (d_params d) \<Longrightarrow> same_id (d_params d ! i) p \<Longrightarrow> created_ok (set_param i p d)"
  using links_same_id [of i d p] by (simp add: created_ok_def) (simp add: set_param_def)

lemma created_ok_free: "created_ok d \<Longrightarrow> d_paramCount d \<le> i \<Longrightarrow> created_ok (set_param i p d)"
proof -
  assume a: "created_ok d" "d_paramCount d \<le> i"
  have "take (d_paramCount d - 1) (drop 1 ((d_params d)[i := p])) = take (d_paramCount d - 1) (drop 1 (d_params d))"
    using a by (simp add: created_ok_def take_drop drop_update_swap)
  then have "links (set_param i p d) = links d" unfolding links_def set_param_def by simp
  then show ?thesis using a(1) by (simp add: created_ok_def) (simp add: set_param_def)
qed

text \<open>What a registration adds: one parameter behind those in use.\<close>

lemma register_param_outcome:
  assumes "register_param lib pdbbase drvInfo i p d = (r, d')"
  obtains (failed) st p' where "r = Some st" and "st \<noteq> asynSuccess" and "table_of d' = table_of (set_param i p' d)"
    | (new) p' d1 where "r = None" and "p_drvInfo p' = Some drvInfo" and "table_of d1 = table_of d"
      and "d' = (set_param i p' d1)\<lparr>d_paramCount := d_paramCount d + 1,
                  d_createdParamsMap := (d_createdParamsMap d)(drvInfo \<mapsto> p_paramIndex p')\<rparr>"
proof -
  obtain s1 p1 d1 where 1: "getRecordInfoFromDrvInfo pdbbase drvInfo (p\<lparr>p_drvInfo := Some drvInfo\<rparr>) d = (s1, p1, d1)"
    by (metis prod.exhaust)
  obtain s2 index d2 where 2: "call (ab_createParam lib drvInfo (p_asynType p1)) d1 = ((s2, index), d2)"
    by (metis prod.exhaust)
  define d3 where "d3 = default_value lib (p_asynType p1) index d2"
  obtain s3 addr d4 where 3: "call (ab_getAddress lib) d3 = ((s3, addr), d4)" by (metis prod.exhaust)
  have t1: "table_of d1 = table_of d" "p_drvInfo p1 = Some drvInfo" using table_of_record_info [OF 1] by simp_all
  have t2: "table_of d2 = table_of d" using table_of_call [OF 2] t1 by simp
  have t3: "table_of d3 = table_of d"
    using t2 unfolding d3_def default_value_def
    by (auto simp: table_of_def call_def split: asynParamType.split prod.splits)
  have t4: "table_of d4 = table_of d" using table_of_call [OF 3] t3 by simp
  have set: "table_of x = table_of d \<Longrightarrow> table_of (set_param i q x) = table_of (set_param i q d)" for q and x :: "'a driver"
    by (simp add: table_of_def set_param_def)
  show thesis
  proof (cases "s1 = asynSuccess \<and> s2 = asynSuccess \<and> s3 = asynSuccess")
    case False
    then obtain q x st where "r = Some st" "st \<noteq> asynSuccess" "d' = set_param i q x" "table_of x = table_of d"
      using assms 1 2 3 t1 t2 t4 by (auto simp: register_param_def d3_def [symmetric] Let_def split: if_splits)
    then show thesis using failed set by metis
  next
    case True
    let ?p = "p1\<lparr>p_paramIndex := index, p_asynAddr := addr\<rparr>"
    have "d' = (set_param i ?p d4)\<lparr>d_paramCount := d_paramCount d4 + 1,
                  d_createdParamsMap := (d_createdParamsMap d4)(drvInfo \<mapsto> p_paramIndex ?p)\<rparr>" "r = None"
      using assms 1 2 3 True by (simp_all add: register_param_def d3_def [symmetric] Let_def)
    moreover have "d_paramCount d4 = d_paramCount d" "d_createdParamsMap d4 = d_createdParamsMap d"
      using t4 by (simp_all add: table_of_def)
    ultimately show thesis using t1(2) t4 by (intro new [of ?p d4]) simp_all
  qed
qed

lemma created_ok_new:
  assumes "created_ok d" and "table_of d1 = table_of d" and "p_drvInfo p = Some drvInfo"
    and "d_createdParamsMap d drvInfo = None" and "int (d_paramCount d) < d_paramTableSize d - 1"
  shows "created_ok ((set_param (d_paramCount d) p d1)\<lparr>d_paramCount := d_paramCount d + 1,
      d_createdParamsMap := (d_createdParamsMap d)(drvInfo \<mapsto> p_paramIndex p)\<rparr>)" (is "created_ok ?d")
proof -
  obtain n where n: "d_paramCount d = Suc n" "Suc n < length (d_params d)"
    using assms(1,5) by (cases "d_paramCount d") (auto simp: created_ok_def)
  have t: "d_params d1 = d_params d" "d_paramTableSize d1 = d_paramTableSize d"
    using assms(2) by (simp_all add: table_of_def)
  obtain q qs where q: "d_params d = q # qs" using n by (cases "d_params d") auto
  have "take (Suc n) (qs[n := p]) = take n qs @ [p]"
    using n(2) q by (simp add: take_Suc_conv_app_nth)
  then have l: "links ?d = links d @ [(Some drvInfo, p_paramIndex p)]"
    unfolding links_def using n q t assms(3) by (simp add: set_param_def)
  have no: "Some drvInfo \<notin> fst ` set (links d)"
    using assms(1,4) unfolding created_ok_def by (metis map_of_eq_None_iff)
  have "map_of (links ?d) (Some k) = d_createdParamsMap ?d k" for k
  proof -
    have "map_of (links d) (Some drvInfo) = None" using no by (simp add: map_of_eq_None_iff)
    then show ?thesis using assms(1) unfolding l created_ok_def by (auto simp: map_add_def split: option.split)
  qed
  moreover have "distinct (map fst (links ?d))" "None \<notin> fst ` set (links ?d)"
    using assms(1) no unfolding l by (auto simp: created_ok_def)
  ultimately show ?thesis
    using n t assms(1) by (simp add: created_ok_def) (simp add: set_param_def)
qed


lemma link_param_outcome:
  assumes "link_param lib self cp drvInfo i d = Done (st, d')" and "i < length (d_params d)"
  shows "\<exists>q. same_id (d_params d ! i) q \<and> table_of d' = table_of (set_param i q d)"
proof -
  obtain d1 where 1: "(if d_connectedAds d then Done d else run_bind (connect lib self d) (\<lambda>(_, d1). Done d1)) = Done d1"
    and 2: "(let p = d_params d1 ! i
       in if d_connectedAds d1 \<and> p_dataSource p \<noteq> ADS_DATASOURCE_AMS_STATE
          then run_bind (updateParamInfoWithPLCInfo lib cp p d1) (\<lambda>(stat, p1, d2).
                 if stat \<noteq> asynSuccess then Done (asynError, set_param i p1 d2)
                 else Done (call (ab_drvUserCreate lib drvInfo) (set_param i p1 d2)))
          else Done (call (ab_drvUserCreate lib drvInfo) d1)) = Done (st, d')"
    using assms(1) unfolding link_param_def run_bind_Done_iff by blast
  have t1: "table_of d1 = table_of d"
    using 1 by (auto simp: run_bind_Done_iff split: if_splits dest: table_of_connect)
  then have p: "d_params d1 = d_params d" by (simp add: table_of_def)
  have set: "table_of (set_param i q x) = table_of (set_param i q d)" if "table_of x = table_of d" for q x
    using that by (simp add: table_of_def set_param_def)
  show ?thesis
  proof (cases "d_connectedAds d1 \<and> p_dataSource (d_params d1 ! i) \<noteq> ADS_DATASOURCE_AMS_STATE")
    case True
    then obtain s1 q d2 where u: "updateParamInfoWithPLCInfo lib cp (d_params d1 ! i) d1 = Done (s1, q, d2)"
      and v: "d' = set_param i q d2 \<or> call (ab_drvUserCreate lib drvInfo) (set_param i q d2) = (st, d')"
      using 2 by (auto simp: Let_def run_bind_Done_iff split: if_splits)
    have "table_of d2 = table_of d"
      using table_of_keep [OF table_update_info [OF u]] t1 by (rule trans)
    moreover have "table_of d' = table_of (set_param i q d2)" using v by (auto dest: table_of_call)
    ultimately have "table_of d' = table_of (set_param i q d)" using set by (metis (no_types))
    moreover have "same_id (d_params d ! i) q" using id_update_info [OF u] by (simp only: p)
    ultimately show ?thesis by blast
  next
    case False
    then have "table_of d' = table_of d1" using 2 by (auto simp: Let_def intro: table_of_call)
    moreover have "set_param i (d_params d ! i) d = d" by (simp add: set_param_def)
    ultimately show ?thesis using t1 by (intro exI [of _ "d_params d ! i"]) (simp add: same_id_def)
  qed
qed

text \<open>What creating a parameter may do to the table.\<close>

definition grown :: "string \<Rightarrow> 'e driver \<Rightarrow> 'e driver \<Rightarrow> bool" where
  "grown drvInfo d d' \<longleftrightarrow>
     created_ok d' \<and> take (d_paramCount d) (d_params d') = take (d_paramCount d) (d_params d) \<and>
     d_paramTableSize d' = d_paramTableSize d \<and>
     (d_paramCount d' = d_paramCount d \<and> d_createdParamsMap d' = d_createdParamsMap d \<or>
      d_paramCount d' = d_paramCount d + 1 \<and> int (d_paramCount d') < d_paramTableSize d \<and>
      d_createdParamsMap d drvInfo = None \<and>
      (\<exists>idx. d_createdParamsMap d' = (d_createdParamsMap d)(drvInfo \<mapsto> idx)))"

lemma grown_table: "grown drvInfo d d1 \<Longrightarrow> table_of d' = table_of d1 \<Longrightarrow> grown drvInfo d d'"
  using created_ok_table [of d' d1] by (simp add: grown_def table_of_def)

lemma grown_free: "created_ok d \<Longrightarrow> grown drvInfo d (set_param (d_paramCount d) p d)"
  using created_ok_free [of d "d_paramCount d" p] by (simp add: grown_def) (simp add: set_param_def)

lemma grown_create:
  assumes "created_ok d" and "table_of d2 = table_of d" and "d_createdParamsMap d drvInfo = None"
    and "int (d_paramCount d) < d_paramTableSize d - 1"
    and "register_param lib pdbbase drvInfo (d_paramCount d) p d2 = (r, d3)"
  shows "(\<exists>st. r = Some st \<and> st \<noteq> asynSuccess \<and> grown drvInfo d d3) \<or>
    r = None \<and> (\<forall>st d'. link_param lib self cp drvInfo (d_paramCount d) d3 = Done (st, d') \<longrightarrow>
       grown drvInfo d d' \<and> d_createdParamsMap d' drvInfo \<noteq> None)"
  using assms(5)
proof (cases rule: register_param_outcome)
  case (failed st p')
  have "table_of (set_param (d_paramCount d) p' d2) = table_of (set_param (d_paramCount d) p' d)"
    using assms(2) by (simp add: table_of_def set_param_def)
  with failed grown_table [OF grown_free [OF assms(1), of drvInfo p']] show ?thesis by auto
next
  case (new p' d1)
  have c: "d_paramCount d2 = d_paramCount d" "d_createdParamsMap d2 = d_createdParamsMap d"
    "d_params d1 = d_params d" "d_paramTableSize d1 = d_paramTableSize d" "table_of d1 = table_of d"
    using assms(2) new(3) by (simp_all add: table_of_def)
  have ok: "created_ok d3" using created_ok_new [OF assms(1) c(5) new(2) assms(3,4)] new(4) c(1,2) by simp
  have i: "d_paramCount d < length (d_params d3)" "d_paramCount d3 = d_paramCount d + 1"
    using assms(1,4) new(4) c by (simp_all add: set_param_def created_ok_def)
  have "grown drvInfo d d' \<and> d_createdParamsMap d' drvInfo \<noteq> None"
    if l: "link_param lib self cp drvInfo (d_paramCount d) d3 = Done (st, d')" for st d'
  proof -
    obtain q where q: "same_id (d_params d3 ! d_paramCount d) q"
      and t: "table_of d' = table_of (set_param (d_paramCount d) q d3)"
      using link_param_outcome [OF l i(1)] by blast
    have "created_ok d'"
      using created_ok_same_id [OF ok i(1) q] created_ok_table [OF t] by simp
    then show ?thesis
      using t assms(3,4) new(4) c by (auto simp: grown_def table_of_def set_param_def)
  qed
  then show ?thesis using new(1) by blast
qed

text \<open>From the parsing on: the parameter is added, or the table stays.\<close>

lemma parsed_grown:
  fixes d3 :: "'e driver"
  defines "i \<equiv> d_paramCount d3"
  assumes ok: "created_ok d3" and new: "d_createdParamsMap d3 drvInfo = None"
    and room: "int (d_paramCount d3) < d_paramTableSize d3 - 1"
    and body: "run_bind (parsePlcInfofromDrvInfo lib scan_real drvInfo i p d3) (\<lambda>(stat, p1, d2).
        if stat \<noteq> asynSuccess then Done (asynError, set_param i p1 d2)
        else
          case register_param lib pdbbase drvInfo i p1 d2 of
            (Some stat1, d3) \<Rightarrow> Done (stat1, d3)
          | (None, d3) \<Rightarrow> link_param lib self cp drvInfo i d3) = Done (x, d2)"
  shows "grown drvInfo d3 d2 \<and> (x = asynSuccess \<longrightarrow> d_createdParamsMap d2 drvInfo \<noteq> None)"
proof -
  obtain s4 p4 d4 where parse: "parsePlcInfofromDrvInfo lib scan_real drvInfo i p d3 = Done (s4, p4, d4)"
    and rest: "(if s4 \<noteq> asynSuccess then Done (asynError, set_param i p4 d4)
        else
          case register_param lib pdbbase drvInfo i p4 d4 of
            (Some stat1, d3) \<Rightarrow> Done (stat1, d3)
          | (None, d3) \<Rightarrow> link_param lib self cp drvInfo i d3) = Done (x, d2)"
    using body unfolding run_bind_Done_iff by auto
  have t4: "table_of d4 = table_of d3" by (rule table_of_parse [OF parse])
  show ?thesis
  proof (cases "s4 = asynSuccess")
    case False
    then have "d2 = set_param i p4 d4" "x = asynError" using rest by auto
    moreover have "table_of (set_param i p4 d4) = table_of (set_param i p4 d3)"
      using t4 by (simp add: table_of_def set_param_def)
    ultimately show ?thesis using grown_table [OF grown_free [OF ok]] by (auto simp: i_def)
  next
    case s: True
    obtain r5 d5 where reg: "register_param lib pdbbase drvInfo i p4 d4 = (r5, d5)" by (metis surj_pair)
    show ?thesis
      using grown_create [OF ok t4 new room reg [unfolded i_def], of self cp] rest s reg by (auto simp: i_def)
  qed
qed

lemma user_create_grown:
  assumes "created_ok d"
    and "drvUserCreate lib scan_real pdbbase link_order dict_order self drvInfo d = Done (r, d')"
  shows "grown drvInfo d d' \<and> (r = Some asynSuccess \<longrightarrow> d_createdParamsMap d' drvInfo \<noteq> None)"
  using assms(2) unfolding drvUserCreate_def
proof (cases rule: with_guard_table)
  case 1
  then show ?thesis using assms(1) created_ok_table by (auto simp: grown_def table_of_def)
next
  case (2 cp d1 x d2)
  then obtain d3 where res: "resolve_symbols lib pdbbase link_order dict_order cp d1 = Done d3"
    by (auto simp: run_bind_Done_iff)
  have t3: "table_of d3 = table_of d" using table_of_resolve [OF res] 2(1) by simp
  then have ok: "created_ok d3" using created_ok_table assms(1) by metis
  have same: "grown drvInfo d y \<longleftrightarrow> grown drvInfo d3 y" for y :: "'a driver"
    using t3 by (simp add: grown_def table_of_def)
  have refl: "grown drvInfo d3 y" if "table_of y = table_of d3" for y :: "'a driver"
    using that ok created_ok_table [OF that] by (simp add: grown_def table_of_def)
  have "grown drvInfo d3 d2 \<and> (x = asynSuccess \<longrightarrow> d_createdParamsMap d2 drvInfo \<noteq> None)"
  proof (cases "validateDrvInfo drvInfo = asynSuccess \<and> d_createdParamsMap d3 drvInfo = None \<and>
      int (d_paramCount d3) < d_paramTableSize d3 - 1")
    case False
    then show ?thesis
      using 2(2) res refl by (auto simp: not_less split: if_splits dest: table_of_call)
        (metis prod.inject table_of_call table_of_def)+
  next
    case True
    let ?i = "d_paramCount d3"
    let ?p = "(d_params d3 ! ?i)\<lparr>p_sampleTimeMS := int_to_f64 (d_defaultSampleTimeMS d3),
         p_maxDelayTimeMS := int_to_f64 (d_defaultMaxDelayTimeMS d3), p_refreshNeeded := True,
         p_bulkIndex := - 1, p_bulkOffset := - 1\<rparr>"
    show ?thesis
      by (rule parsed_grown [OF ok, where p = ?p and lib = lib and scan_real = scan_real and pdbbase = pdbbase
            and self = self and cp = cp]) (use 2(2) res True in \<open>simp_all add: Let_def not_less\<close>)
  qed
  then have "grown drvInfo d d2" "x = asynSuccess \<Longrightarrow> d_createdParamsMap d2 drvInfo \<noteq> None"
    using same by simp_all
  then show ?thesis
    using grown_table [OF _ 2(4)] 2(3,4) by (simp add: table_of_def)
qed

text \<open>
  C27: the table of parameters and the map of created parameters always agree: whatever the string of a
  link, the database and the answers of the library, creating a parameter keeps the agreement.  It
  leaves the parameters in use alone and adds at most one, never the last of the table and never for a
  string that has one; on success the string has a parameter.
\<close>
theorem created_params_agree:
  assumes "created_ok d"
    and "drvUserCreate lib scan_real pdbbase link_order dict_order self drvInfo d = Done (r, d')"
  shows "grown drvInfo d d' \<and> (r = Some asynSuccess \<longrightarrow> d_createdParamsMap d' drvInfo \<noteq> None)"
  using assms by (rule user_create_grown)

text \<open>A library for examples: the one of Ads_Driver, with a parameter library that gives the index 1.\<close>

definition user_zero_lib :: "unit user_lib" where
  "user_zero_lib = ads_lib.extend zero_lib (user_lib.fields (\<lambda>s t e. ((asynSuccess, 1), e))
     (\<lambda>e. ((asynSuccess, 0), e)) (\<lambda>s e. (asynSuccess, e)))"

definition state_link :: string where "state_link = ''.AMSPORTSTATE.?''"

definition linked_driver :: "unit driver" where
  "linked_driver = demo_driver\<lparr>d_paramCount := 1, d_connectedAds := True, d_symInfoResolved := True,
     d_drvInfoCacheBuilt := True,
     d_drvInfoCache := [(''PLC1'', state_link) \<mapsto> \<lparr>rc_recordType = ''ai'', rc_recordName = ''A'', rc_inp = [],
       rc_out = [], rc_dtyp = [], rc_asynType = asynParamInt32\<rparr>]\<rparr>"

lemma linked_ok: "created_ok linked_driver"
  by (simp add: created_ok_def links_def linked_driver_def demo_driver_def constructed_def)

lemma state_link_parsed:
  "\<exists>p' x. parsePlcInfofromDrvInfo lib scan_real state_link i p d = Done (asynSuccess, p', d\<lparr>d_amsPortList := x\<rparr>) \<and>
     p_dataSource p' = ADS_DATASOURCE_AMS_STATE"
proof -
  have a: "plc_adr_str state_link = Done (Some ''.AMSPORTSTATE.'')" by code_simp
  have n: "strstr state_link ADS_ADR_COMMAND_PREFIX = None" "strstr state_link ADS_OPTION_T_MAX_DLY_MS = None"
    "strstr state_link ADS_OPTION_T_SAMPLE_RATE_MS = None" "strstr state_link ADS_OPTION_POLLRATE = None"
    "strstr state_link ADS_OPTION_TIMEBASE = None" "strstr state_link ADS_OPTION_ADSPORT = None"
    "strstr state_link ADS_AMS_STATE_COMMAND = Some state_link"
    by code_simp+
  have o: "\<exists>q. parse_options scan_real state_link d p = (asynSuccess, q)" for p
    by (simp add: parse_options_def parse_adr_def parse_max_delay_def parse_sample_time_def parse_poll_rate_def
        parse_timebase_def parse_port_def option_value_def n Let_def)
  have add: "\<exists>x. addNewAmsPortToList lib k e = (asynSuccess, e\<lparr>d_amsPortList := x\<rparr>)" for k e
  proof (cases "list_ex (\<lambda>port. port_amsPort port = k) (d_amsPortList e)")
    case True
    then show ?thesis by (intro exI [of _ "d_amsPortList e"]) (simp add: addNewAmsPortToList_def)
  next
    case False
    then show ?thesis by (intro exI) (simp add: addNewAmsPortToList_def)
  qed
  have st: "\<exists>q x. parse_ams_state lib state_link i p d = (asynSuccess, q, d\<lparr>d_amsPortList := x\<rparr>) \<and>
      p_dataSource q = ADS_DATASOURCE_AMS_STATE" for p
  proof -
    obtain x where x: "addNewAmsPortToList lib (p_amsPort p) d = (asynSuccess, d\<lparr>d_amsPortList := x\<rparr>)" using add by blast
    then obtain port where "getAmsPortObject (d\<lparr>d_amsPortList := x\<rparr>) (p_amsPort p) = Some port"
      using addNewAmsPortToList_finds [of lib "p_amsPort p" d] by auto
    then show ?thesis using x by (simp add: parse_ams_state_def n Let_def set_port_def) (rule exI, rule refl)
  qed
  obtain q where q: "parse_options scan_real state_link d
      (p\<lparr>p_isIOIntr := ends_with CHR ''?'' state_link, p_plcAdrStr := ''.AMSPORTSTATE.''\<rparr>) = (asynSuccess, q)"
    using o by blast
  obtain q1 x where q1: "parse_ams_state lib state_link i q d = (asynSuccess, q1, d\<lparr>d_amsPortList := x\<rparr>)"
    "p_dataSource q1 = ADS_DATASOURCE_AMS_STATE"
    using st by blast
  obtain y where "addNewAmsPortToList lib (p_amsPort q1) (d\<lparr>d_amsPortList := x\<rparr>) = (asynSuccess, d\<lparr>d_amsPortList := y\<rparr>)"
    using add [of "p_amsPort q1" "d\<lparr>d_amsPortList := x\<rparr>"] by auto
  then show ?thesis using a q q1 by (auto simp: parsePlcInfofromDrvInfo_def Let_def)
qed

lemma created_params_agree_witness:
  "\<exists>d'. drvUserCreate user_zero_lib (\<lambda>_ _. Scan_Fail) None (\<lambda>_. []) (\<lambda>_. []) 7 state_link linked_driver =
       Done (Some asynSuccess, d') \<and>
     grown state_link linked_driver d' \<and> d_createdParamsMap d' state_link \<noteq> None"
proof -
  note facts = linked_driver_def demo_driver_def constructed_def
  note lib = user_zero_lib_def zero_lib_def ads_lib.defs user_lib.defs
  define d1 where "d1 = linked_driver\<lparr>d_clientPorts := [7 \<mapsto> \<lparr>cp_port = 30000, cp_liveCount = 1\<rparr>]\<rparr>"
  have g: "guard_enter user_zero_lib 7 linked_driver = (Some 30000, d1)"
    by (simp add: guard_enter_def addAdsClientPortNumberForThreadId_def call_def lib
        isInvalidPortNumber_def facts d1_def)
  have v: "validateDrvInfo state_link = asynSuccess" by code_simp
  have f: "d_symInfoResolved d1" "d_createdParamsMap d1 state_link = None" "d_paramCount d1 = 1"
    "d_paramTableSize d1 = 10" "length (d_params d1) = 10" "d_connectedAds d1" "d_drvInfoCacheBuilt d1" "d_portName d1 = ''PLC1''"
    "d_drvInfoCache d1 (''PLC1'', state_link) = Some \<lparr>rc_recordType = ''ai'', rc_recordName = ''A'', rc_inp = [],
       rc_out = [], rc_dtyp = [], rc_asynType = asynParamInt32\<rparr>"
    by (simp_all add: d1_def facts)
  let ?p = "(d_params d1 ! 1)\<lparr>p_sampleTimeMS := int_to_f64 (d_defaultSampleTimeMS d1),
         p_maxDelayTimeMS := int_to_f64 (d_defaultMaxDelayTimeMS d1), p_refreshNeeded := True,
         p_bulkIndex := - 1, p_bulkOffset := - 1\<rparr>"
  obtain p' x where p: "parsePlcInfofromDrvInfo user_zero_lib (\<lambda>_ _. Scan_Fail) state_link 1 ?p d1 =
      Done (asynSuccess, p', d1\<lparr>d_amsPortList := x\<rparr>)" "p_dataSource p' = ADS_DATASOURCE_AMS_STATE"
    using state_link_parsed by blast
  have r: "\<exists>d3. register_param user_zero_lib None state_link 1 p' (d1\<lparr>d_amsPortList := x\<rparr>) = (None, d3) \<and>
      d_connectedAds d3 \<and> p_dataSource (d_params d3 ! 1) = ADS_DATASOURCE_AMS_STATE"
    using f p(2) by (simp add: register_param_def getRecordInfoFromDrvInfo_def buildDrvInfoCache_def call_def lib
        default_value_def Let_def set_param_def)
  then obtain d3 where d3: "register_param user_zero_lib None state_link 1 p' (d1\<lparr>d_amsPortList := x\<rparr>) = (None, d3)"
    "d_connectedAds d3" "p_dataSource (d_params d3 ! 1) = ADS_DATASOURCE_AMS_STATE" by blast
  have l: "link_param user_zero_lib 7 30000 state_link 1 d3 = Done (asynSuccess, d3)"
    using d3(2,3) by (simp add: link_param_def call_def lib Let_def)
  have "\<exists>d'. drvUserCreate user_zero_lib (\<lambda>_ _. Scan_Fail) None (\<lambda>_. []) (\<lambda>_. []) 7 state_link linked_driver =
       Done (Some asynSuccess, d')"
    using f(1-6) v p(1) d3(1) l by (simp add: drvUserCreate_def with_guard_def g resolve_symbols_def Let_def)
  then show ?thesis using created_params_agree [OF linked_ok] by blast
qed

end
