(* ===== verification/Ads_Watch.thy ===== *)
theory Ads_Watch
  imports Ads_Frames
begin

text \<open>
  Properties of the supervision: what its guards and rounds keep, in particular the state of the
  connection and the marks for refresh, and how a round ends.  The loss of a port is specified as a
  whole.  The list of ports implements the interface \<open>registry\<close>.
\<close>

section \<open>What guards and rounds keep\<close>

text \<open>The members of the supervision that a guard keeps too: everything in \<open>keep\<close> but the client ports.\<close>

definition link :: "'e driver \<Rightarrow> 'e driver \<Rightarrow> bool" where
  "link d d' \<longleftrightarrow>
     d_connectedAds d' = d_connectedAds d \<and> d_notConnectedCounter d' = d_notConnectedCounter d \<and>
     d_autoConnect d' = d_autoConnect d \<and> d_stopThreads d' = d_stopThreads d"

text \<open>No parameter loses its mark that it has to be refreshed.\<close>

definition stale_le :: "'e driver \<Rightarrow> 'e driver \<Rightarrow> bool" where
  "stale_le d d' \<longleftrightarrow>
     length (d_params d') = length (d_params d) \<and>
     (\<forall>i < length (d_params d). p_refreshNeeded (d_params d ! i) \<longrightarrow> p_refreshNeeded (d_params d' ! i))"

lemma link_refl [simp, intro]: "link d d"
  by (simp add: link_def)

lemma link_trans [trans]: "link d d1 \<Longrightarrow> link d1 d2 \<Longrightarrow> link d d2"
  by (simp add: link_def)

lemma keep_link: "keep d d' \<Longrightarrow> link d d'"
  by (simp add: keep_def link_def)

lemma stale_refl [simp, intro]: "stale_le d d"
  by (simp add: stale_le_def)

lemma stale_trans [trans]: "stale_le d d1 \<Longrightarrow> stale_le d1 d2 \<Longrightarrow> stale_le d d2"
  by (simp add: stale_le_def)

lemma stale_params: "d_params d' = d_params d \<Longrightarrow> stale_le d d'"
  by (simp add: stale_le_def)

lemma stale_params_upd:
  assumes "p_refreshNeeded (d_params d ! i) \<Longrightarrow> p_refreshNeeded p" and "d_params d1 = d_params d"
  shows "stale_le d (d1\<lparr>d_params := (d_params d1)[i := p]\<rparr>)"
  unfolding stale_le_def
proof (intro conjI allI impI)
  fix j
  assume "j < length (d_params d)" and "p_refreshNeeded (d_params d ! j)"
  with assms show "p_refreshNeeded (d_params (d1\<lparr>d_params := (d_params d1)[i := p]\<rparr>) ! j)"
    by (cases "i = j") simp_all
qed (simp add: assms)

lemma guard_enter_link: "guard_enter lib t d = (r, d') \<Longrightarrow> link d d' \<and> d_params d' = d_params d"
  by (auto simp: guard_enter_def addAdsClientPortNumberForThreadId_def call_def link_def
      split: prod.splits option.splits if_splits)

lemma guard_leave_link: "link d (guard_leave lib t d) \<and> d_params (guard_leave lib t d) = d_params d"
  by (auto simp: guard_leave_def delAdsClientPortNumberForThreadId_def Let_def call_def link_def
      split: prod.splits option.splits if_splits)

lemma with_guard_cases:
  assumes "with_guard lib t body d = Done (r, d')"
  obtains d1 where "link d d1" and "d_params d1 = d_params d" and "d' = guard_leave lib t d1" and "r = None"
  | p d1 d2 x where "link d d1" and "d_params d1 = d_params d" and "body p d1 = Done (x, d2)"
      and "d' = guard_leave lib t d2" and "r = Some x"
proof -
  obtain q d1 where g: "guard_enter lib t d = (q, d1)" by fastforce
  from guard_enter_link [OF g] have l: "link d d1" "d_params d1 = d_params d" by auto
  from assms g l show thesis
    by (cases q) (auto simp: with_guard_def run_bind_Done_iff intro: that)
qed

section \<open>Marks that persist while the driver is not connected\<close>

lemma invalidate_params_at:
  assumes "i < length (d_params d)"
  shows "d_params (snd (invalidateParams n d)) ! i =
    (if 1 \<le> i \<and> i < d_paramCount d \<and> on_port n (p_amsPort (d_params d ! i))
     then (d_params d ! i)\<lparr>p_refreshNeeded := True\<rparr> else d_params d ! i)"
  using assms by (simp add: invalidateParams_def map_params_def)

lemma stale_invalidate: "stale_le d (snd (invalidateParams n d))"
  by (simp add: stale_le_def invalidate_params_at) (simp add: invalidateParams_def)

text \<open>The alarm of a port changes the alarms of the parameters only.\<close>

definition same_marks :: "'e driver \<Rightarrow> 'e driver \<Rightarrow> bool" where
  "same_marks d d' \<longleftrightarrow>
     map p_refreshNeeded (d_params d') = map p_refreshNeeded (d_params d) \<and>
     map p_amsPort (d_params d') = map p_amsPort (d_params d) \<and>
     d_bulkOK d' = d_bulkOK d \<and> d_bulk d' = d_bulk d \<and> d_bulkTS d' = d_bulkTS d \<and>
     d_bulkTScnt d' = d_bulkTScnt d \<and> d_amsPortList d' = d_amsPortList d \<and> d_paramCount d' = d_paramCount d"

lemma same_marks_trans: "same_marks d d1 \<Longrightarrow> same_marks d1 d2 \<Longrightarrow> same_marks d d2"
  by (simp add: same_marks_def)

lemma same_marks_alarm:
  assumes "setAlarmParam lib (d_params d ! i) a s d = (st, p, d1)"
  shows "same_marks d (d1\<lparr>d_params := (d_params d1)[i := p]\<rparr>)"
proof -
  from setAlarmParam_frame [OF assms] obtain x y e where
    "p = (d_params d ! i)\<lparr>p_alarmStatus := x, p_alarmSeverity := y\<rparr>" "d1 = d\<lparr>env := e\<rparr>"
    unfolding alarm_frame_def env_frame_def by blast
  then show ?thesis
    by (cases "i < length (d_params d)")
       (simp_all add: same_marks_def map_update list_update_beyond not_less list_update_same_conv)
qed

lemma same_marks_alarm_loop: "setAlarmPort_loop lib n a s is d = (st, d') \<Longrightarrow> same_marks d d'"
proof (induction "is" arbitrary: d)
  case Nil
  then show ?case by (simp add: same_marks_def)
next
  case (Cons i "is")
  obtain st p d1 where al: "setAlarmParam lib (d_params d ! i) a s d = (st, p, d1)"
    by (cases "setAlarmParam lib (d_params d ! i) a s d") auto
  from same_marks_alarm [OF al] Cons al show ?case
    by (auto simp: Let_def split: if_splits intro: same_marks_trans)
qed

lemma same_marks_alarm_port: "same_marks d (snd (setAlarmPort lib n a s d))"
  unfolding setAlarmPort_def
  by (cases "setAlarmPort_loop lib n a s [0..<d_paramCount d] d") (simp add: same_marks_alarm_loop)

lemma same_marks_nth:
  assumes "same_marks d d'" and "i < length (d_params d)"
  shows "p_refreshNeeded (d_params d' ! i) = p_refreshNeeded (d_params d ! i)"
    and "p_amsPort (d_params d' ! i) = p_amsPort (d_params d ! i)"
  using assms unfolding same_marks_def by (metis length_map nth_map)+

lemma same_marks_length: "same_marks d d' \<Longrightarrow> length (d_params d') = length (d_params d)"
  unfolding same_marks_def by (metis length_map)

lemma same_marks_stale: "same_marks d d' \<Longrightarrow> stale_le d d'"
  by (auto simp: stale_le_def same_marks_nth same_marks_length)


lemma stale_update:
  assumes "adsUpdateParameter lib i (d_params d ! i) data n d = Done (st, p1, d1)"
  shows "stale_le d (d1\<lparr>d_params := (d_params d1)[i := p1]\<rparr>)"
  by (rule update_outcome [OF assms], rule stale_params_upd) simp_all

lemma refresh_disconnected:
  "\<not> d_connectedAds d \<Longrightarrow> refreshParams lib cp n d = Done (asynSuccess, d\<lparr>d_bulkOK := True\<rparr>)"
  by (simp add: refreshParams_def)

lemma set_port_params [simp]: "d_params (set_port k port d) = d_params d"
  by (simp add: set_port_def)

lemma call_params [simp]: "call f d = (r, d') \<Longrightarrow> d_params d' = d_params d"
  by (auto simp: call_def split: prod.splits)

lemma read_state_params: "adsReadState lib cp n d = (r, d') \<Longrightarrow> d_params d' = d_params d"
  by (auto simp: adsReadState_def split: prod.splits dest!: call_params)

lemma read_version_params: "adsReadVersion lib cp port d = (s, p, d') \<Longrightarrow> d_params d' = d_params d"
  by (auto simp: adsReadVersion_def split: prod.splits if_splits dest!: call_params)

lemma stale_port_lost: "stale_le d (port_lost lib k d)"
proof -
  let ?d1 = "snd (invalidateParams (port_amsPort (d_amsPortList d ! k)) d)"
  have "stale_le d ?d1" by (rule stale_invalidate)
  also have "stale_le ?d1 (set_port k ((d_amsPortList ?d1 ! k)\<lparr>port_refreshNeeded := True\<rparr>) ?d1)"
    by (rule stale_params) simp
  finally show ?thesis
    unfolding port_lost_def Let_def by (rule stale_trans) (rule same_marks_stale [OF same_marks_alarm_port])
qed

text \<open>A round of one port in its four parts: read, refresh, loss and version.\<close>

lemma cyclic_port_parts:
  assumes "cyclic_port lib cp k d = Done (c, d')"
  obtains stat st e d1 port d2 d3 d4 where
    "adsReadState lib cp (port_amsPort (d_amsPortList d ! k)) d = ((stat, st, e), d1)"
    "port = note_state lib stat st (d_amsPortList d1 ! k)" "d2 = set_port k port d1" "c = port_connected port"
    "(if port_connected port \<and> port_refreshNeeded port
      then run_bind (refreshParams lib cp (port_amsPort (d_amsPortList d ! k)) d2) (\<lambda>(_, d'). Done d')
      else Done d2) = Done d3"
    "d4 = (if port_connectedOld port \<and> \<not> port_connected port then port_lost lib k d3 else d3)"
    "d' = (if \<not> port_connectedOld port \<and> port_connected port
           then (case adsReadVersion lib cp (d_amsPortList d4 ! k) d4 of (_, port', d') \<Rightarrow> set_port k port' d')
           else d4)"
proof -
  obtain stat st e d1 where rd:
    "adsReadState lib cp (port_amsPort (d_amsPortList d ! k)) d = ((stat, st, e), d1)"
    by (cases "adsReadState lib cp (port_amsPort (d_amsPortList d ! k)) d") auto
  with assms show thesis
    by (auto simp: cyclic_port_def Let_def run_bind_Done_iff intro!: that)
qed

lemma stale_cyclic_port:
  assumes "cyclic_port lib cp k d = Done (c, d')" and "\<not> d_connectedAds d"
  shows "stale_le d d'"
  using assms(1)
proof (rule cyclic_port_parts)
  fix stat st e d1 port d2 d3 d4
  assume rd: "adsReadState lib cp (port_amsPort (d_amsPortList d ! k)) d = ((stat, st, e), d1)"
    and d2: "d2 = set_port k port d1"
    and d3: "(if port_connected port \<and> port_refreshNeeded port
      then run_bind (refreshParams lib cp (port_amsPort (d_amsPortList d ! k)) d2) (\<lambda>(_, d'). Done d')
      else Done d2) = Done d3"
    and d4: "d4 = (if port_connectedOld port \<and> \<not> port_connected port then port_lost lib k d3 else d3)"
    and d': "d' = (if \<not> port_connectedOld port \<and> port_connected port
           then (case adsReadVersion lib cp (d_amsPortList d4 ! k) d4 of (_, port', d') \<Rightarrow> set_port k port' d')
           else d4)"
  have "\<not> d_connectedAds d2" using keep_state [OF rd] assms(2) by (simp add: d2 keep_def set_port_def)
  with d3 have "stale_le d2 d3" by (auto simp: refresh_disconnected stale_params split: if_splits)
  moreover have "stale_le d d2" by (rule stale_params) (simp add: d2 read_state_params [OF rd])
  moreover have "stale_le d3 d4" by (simp add: d4 stale_port_lost)
  moreover have "stale_le d4 d'"
    by (rule stale_params) (auto simp: d' read_version_params split: prod.splits)
  ultimately show ?thesis by (meson stale_trans)
qed

lemma stale_cyclic_ports:
  "cyclic_ports lib cp ks one d = Done (c, d') \<Longrightarrow> \<not> d_connectedAds d \<Longrightarrow> stale_le d d'"
proof (induction ks arbitrary: one d)
  case (Cons k ks)
  then obtain b d1 where d1: "cyclic_port lib cp k d = Done (b, d1)"
      and rest: "cyclic_ports lib cp ks (one \<or> b) d1 = Done (c, d')"
    by (auto simp: run_bind_Done_iff)
  have "\<not> d_connectedAds d1" using keep_cyclic_port [OF d1] Cons.prems(2) by (simp add: keep_def)
  with Cons.IH [OF rest] stale_cyclic_port [OF d1 Cons.prems(2)] show ?case by (meson stale_trans)
qed simp

text \<open>The states to publish, as a run of updates.\<close>

lemma publish_steps:
  assumes "publish_states lib ks d = Done d'" and "P d"
    and "\<And>d i data n st p1 d1. P d \<Longrightarrow> adsUpdateParameter lib i (d_params d ! i) data n d = Done (st, p1, d1) \<Longrightarrow>
           P (d1\<lparr>d_params := (d_params d1)[i := p1]\<rparr>)"
  shows "P d'"
  using assms(1,2)
proof (induction ks arbitrary: d)
  case (Cons k ks)
  show ?case
  proof (cases "\<exists>i. port_paramInfo (d_amsPortList d ! k) = Some i \<and>
      port_adsStateOld (d_amsPortList d ! k) \<noteq> port_adsState (d_amsPortList d ! k) \<and>
      p_dataSource (d_params d ! i) = ADS_DATASOURCE_AMS_STATE")
    case True
    with Cons.prems(1) obtain i st p1 d1 where
      u: "adsUpdateParameter lib i (d_params d ! i)
            (Some (le_bytes_int 4 (port_adsState (d_amsPortList d ! k)))) 2 d = Done (st, p1, d1)"
        "publish_states lib ks (d1\<lparr>d_params := (d_params d1)[i := p1]\<rparr>) = Done d'"
      by (auto simp: Let_def run_bind_Done_iff)
    show ?thesis by (rule Cons.IH [OF u(2) assms(3) [OF Cons.prems(2) u(1)]])
  next
    case False
    with Cons.prems(1) have "publish_states lib ks d = Done d'"
      by (auto simp: Let_def split: option.splits)
    then show ?thesis by (rule Cons.IH) (rule Cons.prems(2))
  qed
qed simp

lemma stale_publish: "publish_states lib ks d = Done d' \<Longrightarrow> stale_le d d'"
  by (erule publish_steps [where P = "stale_le d"]) (auto intro: stale_trans stale_update)

section \<open>The rounds of the supervision\<close>

text \<open>The end of a round while the counter is 0 or 1: no call of the library.\<close>

lemma finish_counting:
  assumes "d_notConnectedCounter d = 0 \<or> d_notConnectedCounter d = 1"
  shows "cyclic_finish lib self one d = Done
    (if one then (Cycle_next, d\<lparr>d_notConnectedCounter := 0, d_oneAmsConnectionOKold := True\<rparr>)
     else if d_notConnectedCounter d = 1 then (Cycle_exit, d\<lparr>d_notConnectedCounter := 2\<rparr>)
     else (Cycle_next, d\<lparr>d_notConnectedCounter := 1,
             d_connectedAds := d_connectedAds d \<and> \<not> d_autoConnect d,
             d_oneAmsConnectionOKold := False\<rparr>))"
  using assms by (cases one; cases "d_autoConnect d")
    (auto simp: cyclic_finish_def Let_def count_connection_def intro!: driver.equality)


lemma round_parts:
  assumes "cyclicThread_round lib self cp allow d = Done r"
  obtains (idle) "r = (Cycle_break, d) \<or> r = (Cycle_next, d)"
  | (work) one d1 d2 where "cyclic_ports lib cp [0..<length (d_amsPortList d)] False d = Done (one, d1)"
      and "publish_states lib [0..<length (d_amsPortList d1)] d1 = Done d2"
      and "cyclic_finish lib self one d2 = Done r" and "keep d d2"
proof (cases "d_stopThreads d \<or> \<not> allow")
  case True
  with assms show thesis by (intro idle) (auto simp: cyclicThread_round_def split: if_splits)
next
  case False
  with assms obtain one d1 d2 where
    p: "cyclic_ports lib cp [0..<length (d_amsPortList d)] False d = Done (one, d1)"
      "publish_states lib [0..<length (d_amsPortList d1)] d1 = Done d2" "cyclic_finish lib self one d2 = Done r"
    by (auto simp: cyclicThread_round_def run_bind_Done_iff)
  with keep_trans [OF keep_cyclic_ports [OF p(1)] keep_publish [OF p(2)]] show thesis by (intro work)
qed

text \<open>What a notification about changed symbols keeps.\<close>

lemma symbols_callback_keeps:
  assumes "adsSymbolsChangedCallback lib t n d = Done (x, d')"
  shows "link d d'" and "\<not> d_connectedAds d \<Longrightarrow> stale_le d d'"
proof -
  let ?body = "\<lambda>cp d. run_bind (refreshParams lib cp n (snd (invalidateParams n d))) (\<lambda>(_, d1). Done ((), d1))"
  have g: "with_guard lib t ?body d = Done (x, d')" using assms by (simp add: adsSymbolsChangedCallback_def)
  have leave: "link d2 (guard_leave lib t d2)" "stale_le d2 (guard_leave lib t d2)" for d2
    using guard_leave_link [of d2 lib t] by (auto intro: stale_params)
  from g have "link d d' \<and> (\<not> d_connectedAds d \<longrightarrow> stale_le d d')"
  proof (rule with_guard_cases)
    fix d1
    assume "link d d1" "d_params d1 = d_params d" "d' = guard_leave lib t d1"
    then show ?thesis using leave by (auto intro: link_trans stale_trans stale_params)
  next
    fix p d1 d2 y
    assume l: "link d d1" and ps: "d_params d1 = d_params d" and body: "?body p d1 = Done (y, d2)"
      and d': "d' = guard_leave lib t d2"
    let ?d3 = "snd (invalidateParams n d1)"
    from body obtain st where r: "refreshParams lib p n ?d3 = Done (st, d2)" by (auto simp: run_bind_Done_iff)
    have k: "keep d1 ?d3" by (rule keep_invalidate)
    have "link d1 d2" using keep_trans [OF k keep_refresh [OF r]] by (rule keep_link)
    then have "link d d'" using l leave(1) unfolding d' by (meson link_trans)
    moreover have "stale_le d d'" if "\<not> d_connectedAds d"
    proof -
      have "\<not> d_connectedAds ?d3" using that l k by (simp add: link_def keep_def)
      with r have "d2 = ?d3\<lparr>d_bulkOK := True\<rparr>" by (simp add: refresh_disconnected)
      then have "stale_le ?d3 d2" by (simp add: stale_params)
      moreover have "stale_le d d1" using ps by (rule stale_params)
      ultimately show ?thesis using stale_invalidate [of d1 n] leave(2) [of d2] unfolding d'
        by (meson stale_trans)
    qed
    ultimately show ?thesis by blast
  qed
  then show "link d d'" and "\<not> d_connectedAds d \<Longrightarrow> stale_le d d'" by blast+
qed

section \<open>The loss of a port\<close>

lemma read_state_env: "adsReadState lib cp n d = (r, d') \<Longrightarrow> \<exists>e. d' = d\<lparr>env := e\<rparr>"
  by (auto simp: adsReadState_def call_def split: prod.splits)

text \<open>The used requests of a port, those before the first empty one, are cut back to the time stamp.\<close>

definition cut_back :: "nat \<Rightarrow> BulkReadInfo list \<Rightarrow> BulkReadInfo list \<Rightarrow> bool" where
  "cut_back n bs bs' \<longleftrightarrow> length bs' = length bs \<and>
     (\<forall>j < length bs. bs' ! j =
        (if (\<forall>i \<le> j. b_cnt (bs ! i) \<noteq> 0) \<and> on_port n (b_amsPort (bs ! j))
         then (bs ! j)\<lparr>b_readSize := 16\<rparr> else bs ! j))"

text \<open>What the driver has to forget when a port is lost, as a specification of the next state.\<close>

definition port_forgotten :: "nat \<Rightarrow> 'e driver \<Rightarrow> 'e driver \<Rightarrow> bool" where
  "port_forgotten n d d' \<longleftrightarrow>
     \<not> d_bulkOK d' \<and> cut_back n (d_bulk d) (d_bulk d') \<and> length (d_params d') = length (d_params d) \<and>
     (\<forall>i < length (d_params d).
        p_amsPort (d_params d' ! i) = p_amsPort (d_params d ! i) \<and>
        p_refreshNeeded (d_params d' ! i) =
          (p_refreshNeeded (d_params d ! i) \<or>
           1 \<le> i \<and> i < d_paramCount d \<and> on_port n (p_amsPort (d_params d ! i)))) \<and>
     (\<forall>j < d_bulkTScnt d. j < length (d_bulkTS d) \<longrightarrow>
        ts_refreshNeeded (d_bulkTS d' ! j) =
          (ts_refreshNeeded (d_bulkTS d ! j) \<or> on_port n (ts_amsPort (d_bulkTS d ! j))))"

lemma takeWhile_used: "j < length xs \<Longrightarrow> j < length (takeWhile P xs) \<longleftrightarrow> (\<forall>i \<le> j. P (xs ! i))"
proof (induction xs arbitrary: j)
  case (Cons x xs)
  then show ?case by (cases j) (simp_all add: All_less_Suc2 flip: less_Suc_eq_le)
qed simp

lemma invalidate_cuts: "cut_back n bs (invalidate_bulk n bs)"
  unfolding cut_back_def
proof (intro conjI allI impI)
  show "length (invalidate_bulk n bs) = length bs"
    by (simp add: invalidate_bulk_def Let_def length_takeWhile_le)
next
  fix j
  assume j: "j < length bs"
  let ?used = "takeWhile (\<lambda>b. b_cnt b \<noteq> 0) bs"
  show "invalidate_bulk n bs ! j =
    (if (\<forall>i \<le> j. b_cnt (bs ! i) \<noteq> 0) \<and> on_port n (b_amsPort (bs ! j)) then (bs ! j)\<lparr>b_readSize := 16\<rparr> else bs ! j)"
    using j length_takeWhile_le [of "\<lambda>b. b_cnt b \<noteq> 0" bs]
    unfolding invalidate_bulk_def Let_def takeWhile_used [OF j, of "\<lambda>b. b_cnt b \<noteq> 0", symmetric]
    by (cases "j < length ?used") (simp_all add: nth_append takeWhile_nth)
qed

lemma invalidate_forgets: "port_forgotten n d (snd (invalidateParams n d))"
proof -
  let ?d' = "snd (invalidateParams n d)"
  have "length (d_params ?d') = length (d_params d)" "\<not> d_bulkOK ?d'"
    by (simp_all add: invalidateParams_def)
  moreover have "cut_back n (d_bulk d) (d_bulk ?d')" by (simp add: invalidateParams_def invalidate_cuts)
  moreover have "ts_refreshNeeded (d_bulkTS ?d' ! j) =
      (ts_refreshNeeded (d_bulkTS d ! j) \<or> on_port n (ts_amsPort (d_bulkTS d ! j)))"
    if "j < d_bulkTScnt d" "j < length (d_bulkTS d)" for j
    using that by (simp add: invalidateParams_def nth_append)
  ultimately show ?thesis
    by (auto simp: port_forgotten_def invalidate_params_at)
qed

lemma forgotten_marks: "port_forgotten n d d1 \<Longrightarrow> same_marks d1 d2 \<Longrightarrow> port_forgotten n d d2"
  by (auto simp: port_forgotten_def same_marks_nth same_marks_length) (auto simp: same_marks_def)

lemma port_lost_forgets:
  fixes k d
  defines "n \<equiv> port_amsPort (d_amsPortList d ! k)"
  shows "port_forgotten n d (port_lost lib k d)"
    and "d_amsPortList (port_lost lib k d) =
           (d_amsPortList d)[k := (d_amsPortList d ! k)\<lparr>port_refreshNeeded := True\<rparr>]"
proof -
  let ?d1 = "snd (invalidateParams n d)"
  let ?d2 = "set_port k ((d_amsPortList ?d1 ! k)\<lparr>port_refreshNeeded := True\<rparr>) ?d1"
  have ports: "d_amsPortList ?d1 = d_amsPortList d" by (simp add: invalidateParams_def)
  have eq: "port_lost lib k d = snd (setAlarmPort lib n (sdk lib ''COMM_ALARM'') (sdk lib ''INVALID_ALARM'') ?d2)"
    by (simp add: port_lost_def n_def Let_def)
  have m: "same_marks ?d2 (port_lost lib k d)" unfolding eq by (rule same_marks_alarm_port)
  have "port_forgotten n d ?d2"
    using invalidate_forgets [of n d] by (simp add: port_forgotten_def set_port_def)
  then show "port_forgotten n d (port_lost lib k d)" using m by (rule forgotten_marks)
  show "d_amsPortList (port_lost lib k d) =
           (d_amsPortList d)[k := (d_amsPortList d ! k)\<lparr>port_refreshNeeded := True\<rparr>]"
    using m ports by (simp add: same_marks_def set_port_def)
qed

text \<open>
  C3: the step of the supervision on one port that was connected and is no longer in state RUN, because the
  read of its state failed or the controller is in another state.  At the end of this step every registered
  parameter of the port is marked for refresh and no parameter has lost a mark; every used bulk request of
  the port reads the 16 bytes of the time stamp only, and the other requests are as they were; the cached
  handles of its time stamp are marked, bulk reading has stopped, and the port itself is marked.
\<close>
theorem port_loss:
  assumes "cyclic_port lib cp k d = Done (False, d')" and "k < length (d_amsPortList d)"
    and "port_connected (d_amsPortList d ! k)"
  shows "port_forgotten (port_amsPort (d_amsPortList d ! k)) d d' \<and>
    (let port = d_amsPortList d' ! k
     in \<not> port_connected port \<and> \<not> port_paramsOK port \<and> port_connectedOld port \<and> port_refreshNeeded port)"
  using assms(1)
proof (rule cyclic_port_parts)
  fix stat st e d1 port d2 d3 d4
  assume rd: "adsReadState lib cp (port_amsPort (d_amsPortList d ! k)) d = ((stat, st, e), d1)"
    and port: "port = note_state lib stat st (d_amsPortList d1 ! k)" and d2: "d2 = set_port k port d1"
    and c: "False = port_connected port"
    and d3: "(if port_connected port \<and> port_refreshNeeded port
      then run_bind (refreshParams lib cp (port_amsPort (d_amsPortList d ! k)) d2) (\<lambda>(_, d'). Done d')
      else Done d2) = Done d3"
    and d4: "d4 = (if port_connectedOld port \<and> \<not> port_connected port then port_lost lib k d3 else d3)"
    and d': "d' = (if \<not> port_connectedOld port \<and> port_connected port
           then (case adsReadVersion lib cp (d_amsPortList d4 ! k) d4 of (_, port', d') \<Rightarrow> set_port k port' d')
           else d4)"
  from read_state_env [OF rd] obtain x where d1: "d1 = d\<lparr>env := x\<rparr>" ..
  have old: "port_connectedOld port" and ok: "\<not> port_paramsOK port"
    and num: "port_amsPort port = port_amsPort (d_amsPortList d ! k)"
    using assms(3) c by (simp_all add: port d1 note_state_def Let_def)
  have fin: "d' = port_lost lib k d2" using d' d4 d3 c old by simp
  have at: "d_amsPortList d2 ! k = port" and len: "k < length (d_amsPortList d2)"
    using assms(2) by (simp_all add: d2 d1 set_port_def)
  have "port_forgotten (port_amsPort port) d2 d'"
    using port_lost_forgets(1) [of d2 k lib] at by (simp add: fin)
  then have "port_forgotten (port_amsPort port) d d'"
    by (simp add: port_forgotten_def d2 d1 set_port_def)
  moreover have "d_amsPortList d' ! k = port\<lparr>port_refreshNeeded := True\<rparr>"
    using port_lost_forgets(2) [of lib k d2] at len by (simp add: fin)
  ultimately show ?thesis using old ok c num by (simp add: Let_def)
qed


text \<open>A driver with one port that was connected and one parameter on it.\<close>

definition one_port :: "unit driver" where
  "one_port = demo_driver\<lparr>d_amsPortList := [(new_port (zero_lib :: unit ads_lib) 851)\<lparr>port_connected := True\<rparr>],
     d_params := [new_param, new_param\<lparr>p_amsPort := 851\<rparr>], d_paramCount := 2\<rparr>"

lemma port_loss_witness:
  "\<exists>d'. cyclic_port zero_lib 30000 0 one_port = Done (False, d') \<and> p_refreshNeeded (d_params d' ! 1)"
proof -
  obtain d' where d': "cyclic_port zero_lib 30000 0 one_port = Done (False, d')"
    by (simp add: cyclic_port_def adsReadState_def call_def zero_lib_def note_state_def Let_def
        set_port_def new_port_def one_port_def)
  moreover have "p_refreshNeeded (d_params d' ! 1)"
    using port_loss [OF d'] by (simp add: port_forgotten_def on_port_def new_port_def one_port_def)
  ultimately show ?thesis by blast
qed

section \<open>The registry of ports\<close>

text \<open>A registry keeps one object for every key that was registered, in the order of registration.\<close>

locale registry =
  fixes register :: "'k \<Rightarrow> 's \<Rightarrow> 's" and lookup :: "'s \<Rightarrow> 'k \<Rightarrow> 'o option" and keys :: "'s \<Rightarrow> 'k list"
    and key :: "'o \<Rightarrow> 'k"
  assumes keys_register: "keys (register k s) = (if k \<in> set (keys s) then keys s else keys s @ [k])"
    and lookup_old: "k' \<in> set (keys s) \<Longrightarrow> lookup (register k s) k' = lookup s k'"
    and lookup_keys: "(\<exists>v. lookup s k = Some v) \<longleftrightarrow> k \<in> set (keys s)"
    and lookup_key: "lookup s k = Some v \<Longrightarrow> key v = k"
begin

lemma keys_fold: "set (keys (fold register ks s)) = set (keys s) \<union> set ks"
  by (induction ks arbitrary: s) (auto simp: keys_register)

lemma distinct_fold: "distinct (keys s) \<Longrightarrow> distinct (keys (fold register ks s))"
  by (induction ks arbitrary: s) (auto simp: keys_register)

lemma lookup_fold: "k \<in> set (keys s) \<Longrightarrow> lookup (fold register ks s) k = lookup s k"
  by (induction ks arbitrary: s) (auto simp: keys_register lookup_old)

lemma find_registered:
  "k \<in> set ks \<or> k \<in> set (keys s) \<Longrightarrow> \<exists>v. lookup (fold register ks s) k = Some v \<and> key v = k"
  using keys_fold [of ks s] lookup_keys [of "fold register ks s" k] lookup_key by blast

end

lemma find_append: "find P (xs @ ys) = (case find P xs of None \<Rightarrow> find P ys | Some x \<Rightarrow> Some x)"
  by (induction xs) auto

interpretation ams_ports: registry "\<lambda>n d. snd (addNewAmsPortToList lib n d)" getAmsPortObject
    "\<lambda>d. map port_amsPort (d_amsPortList d)" port_amsPort for lib
proof unfold_locales
  fix d :: "'a driver" and k k'
  assume "k' \<in> set (map port_amsPort (d_amsPortList d))"
  then have "find (\<lambda>port. port_amsPort port = k') (d_amsPortList d) \<noteq> None" by (auto simp: find_None_iff)
  then show "getAmsPortObject (snd (addNewAmsPortToList lib k d)) k' = getAmsPortObject d k'"
    by (auto simp: addNewAmsPortToList_def getAmsPortObject_def find_append)
next
  fix d :: "'a driver" and k
  show "(\<exists>v. getAmsPortObject d k = Some v) \<longleftrightarrow> k \<in> set (map port_amsPort (d_amsPortList d))"
    using find_None_iff [of "\<lambda>port. port_amsPort port = k" "d_amsPortList d"]
    by (auto simp: getAmsPortObject_def)
qed (auto simp: addNewAmsPortToList_def getAmsPortObject_def new_port_def list_ex_iff find_Some_iff)

text \<open>
  C40: registering any sequence of AMS port numbers leaves the list without duplicates, every registered
  number has its object, with that number, and the objects that were there before are found unchanged.
\<close>
theorem ams_ports_registered:
  assumes "distinct (map port_amsPort (d_amsPortList d))"
    and "d' = fold (\<lambda>n d. snd (addNewAmsPortToList lib n d)) ns d"
  shows "distinct (map port_amsPort (d_amsPortList d')) \<and>
    (\<forall>n \<in> set ns. \<exists>port. getAmsPortObject d' n = Some port \<and> port_amsPort port = n) \<and>
    (\<forall>n \<in> port_amsPort ` set (d_amsPortList d). getAmsPortObject d' n = getAmsPortObject d n)"
  using assms(1) ams_ports.distinct_fold [of d lib ns] ams_ports.find_registered [of _ ns d lib]
    ams_ports.lookup_fold [of _ d lib ns]
  by (simp add: assms(2))

lemma ams_ports_registered_witness:
  "map port_amsPort (d_amsPortList (fold (\<lambda>n d. snd (addNewAmsPortToList zero_lib n d)) [851, 852, 851] demo_driver)) =
     [851, 852] \<and>
   (\<exists>port. getAmsPortObject (fold (\<lambda>n d. snd (addNewAmsPortToList zero_lib n d)) [851, 852, 851] demo_driver) 852 =
      Some port \<and> port_amsPort port = 852)"
  using ams_ports_registered [of demo_driver _ zero_lib "[851, 852, 851]", OF _ refl]
  by (simp add: addNewAmsPortToList_def new_port_def demo_driver_def constructed_def)

end
