(* ===== verification/Ads_Threads.thy ===== *)
theory Ads_Threads
  imports Ads_Frames
begin

text \<open>
  The threads that bring PLC data into the driver: the polling of bulk requests
  (\<^verbatim>\<open>bulkReadThread\<close>), the queue between the callback of the library
  (\<^verbatim>\<open>adsDataCallback\<close>) and the thread that updates the parameters
  (\<^verbatim>\<open>dataCallbackThread\<close>), and the thread that fires the callbacks of arrays.  Each round
  of a thread is a function; the queue implements the interface \<open>bounded_queue\<close>.  The code
  pushes to and pops from the queue in two threads without a lock; here each push and each round is one
  step, so the properties hold for the executions in which these do not overlap.
\<close>

section \<open>Polling the bulk requests\<close>

definition sum_bytes :: "sum_entry \<Rightarrow> u8 list" where
  "sum_bytes s = le_bytes 4 (s_iGroup s) @ le_bytes 4 (s_iOffset s) @ le_bytes 4 (s_iSize s)"

text \<open>
  The slots of a response: \<open>stat\<close> is the offset of the next status word in the buffer and
  \<open>srd\<close> that of the next value.
\<close>

fun bulk_slots ::
  "('e, 'z) ads_lib_scheme \<Rightarrow> BulkReadInfo \<Rightarrow> nat list \<Rightarrow> nat \<Rightarrow> nat \<Rightarrow> 'e driver \<Rightarrow> 'e driver run" where
  "bulk_slots lib b [] stat srd d = Done d"
| "bulk_slots lib b (j # js) stat srd d =
     run_bind (getAdsParamInfo d (b_paramID b ! j)) (\<lambda>r.
       case r of
         None \<Rightarrow> bulk_slots lib b js stat srd d
       | Some p \<Rightarrow>
           run_bind (mem_read (d_bulkdata d) stat 4) (\<lambda>s.
             let i = nat (b_paramID b ! j);
                 p1 = p\<lparr>p_refreshNeeded := p_refreshNeeded p \<or> le_nat s \<noteq> 0, p_plcTimeStampRaw := 0,
                        p_lastCallbackSize := p_plcSize p\<rparr>
             in if length (d_bulkdata d) < srd then Ub
                else
                  run_bind (adsUpdateParameter lib i p1 (Some (drop srd (d_bulkdata d))) (p_plcSize p) d)
                    (\<lambda>(_, p2, d1).
                      bulk_slots lib b js (stat + 4) (srd + p_lastCallbackSize p2)
                        (d1\<lparr>d_params := (d_params d1)[i := p2]\<rparr>))))"

text \<open>One request.  A response that is longer than the buffer is written beyond it.\<close>

definition bulk_request ::
  "('e, 'z) ads_lib_scheme \<Rightarrow> nat \<Rightarrow> BulkReadInfo \<Rightarrow> 'e driver \<Rightarrow> 'e driver run" where
  "bulk_request lib cp b d =
     (let cnt = b_cnt b;
          readSize = nat (b_readSize b mod 2 ^ 32)
      in case call (AdsSyncReadWriteReqEx2 lib cp (server d (b_amsPort b)) (sdk_u lib ''ADSIGRP_SUMUP_READ'')
                      cnt readSize (concat (map sum_bytes (take cnt (b_sum b))))) d of
           ((status, bs, _), d1) \<Rightarrow>
             if length (d_bulkdata d1) < length bs then Ub
             else
               let d2 = d1\<lparr>d_bulkdata := received (d_bulkdata d1) bs\<rparr>
               in if status \<noteq> 0 then Done d2
                  else bulk_slots lib b [2..<cnt] 8
                         (4 * cnt + s_iSize (b_sum b ! 0) + s_iSize (b_sum b ! 1)) d2)"

text \<open>The loop over the requests has no bound but the first unused one.\<close>

fun bulk_poll ::
  "('e, 'z) ads_lib_scheme \<Rightarrow> nat \<Rightarrow> nat list \<Rightarrow> 'e driver \<Rightarrow> 'e driver run" where
  "bulk_poll lib cp [] d = Ub"
| "bulk_poll lib cp (i # is) d =
     (if b_cnt (d_bulk d ! i) = 0 \<or> \<not> d_bulkOK d then Done d
      else run_bind (bulk_request lib cp (d_bulk d ! i) d) (bulk_poll lib cp is))"

definition bulkReadThread_round ::
  "('e, 'z) ads_lib_scheme \<Rightarrow> nat \<Rightarrow> 'e driver \<Rightarrow> (cycle_end \<times> 'e driver) run" where
  "bulkReadThread_round lib cp d =
     (if d_stopThreads d then Done (Cycle_break, d)
      else run_bind (bulk_poll lib cp [0..<length (d_bulk d)] d) (\<lambda>d1. Done (Cycle_next, d1)))"

text \<open>Waiting for the first refresh: \<open>Some\<close> when the thread leaves the loop, with whether it polls.\<close>

definition bulkReadThread_wait :: "'e driver \<Rightarrow> bool option" where
  "bulkReadThread_wait d =
     (if d_bulkOK d then Some True else if d_stopThreads d then Some False else None)"

section \<open>Notifications\<close>

definition MAXCBQSIZE :: nat where "MAXCBQSIZE = 10000"

text \<open>
  The callback of the library for new data: \<open>hUser\<close> identifies the parameter, \<open>data\<close> is
  the memory behind the header.
\<close>

definition adsDataCallback ::
  "('e, 'z) ads_lib_scheme \<Rightarrow> nat \<Rightarrow> u8 list \<Rightarrow> u64 \<Rightarrow> nat \<Rightarrow> 'e driver \<Rightarrow> 'e driver run" where
  "adsDataCallback lib hUser data nTimeStamp cbSampleSize d =
     (if hUser > nat ((d_paramTableSize d - 1) mod 2 ^ 32) then Done d
      else
        run_bind (getAdsParamInfo d (wrap_signed 4 (int hUser))) (\<lambda>r.
          case r of
            None \<Rightarrow> Done d
          | Some p \<Rightarrow>
              if length (d_datacbqueue d) > MAXCBQSIZE then Done d
              else if hUser \<noteq> nat (p_paramIndex p mod 2 ^ 32) then Done d
              else if \<not> mallocOk lib cbSampleSize (env d) then Done d
              else
                run_bind (mem_read data 0 cbSampleSize) (\<lambda>bs.
                  Done (d\<lparr>d_datacbqueue := d_datacbqueue d @
                      [\<lparr>cb_param = nat (wrap_signed 4 (int hUser)), cb_data = bs, cb_nTimeStamp = nTimeStamp,
                        cb_cbSampleSize = cbSampleSize\<rparr>]\<rparr>))))"

text \<open>One round of the thread that takes the notifications off the queue.\<close>

definition dataCallbackThread_round ::
  "('e, 'z) ads_lib_scheme \<Rightarrow> bool \<Rightarrow> 'e driver \<Rightarrow> (cycle_end \<times> 'e driver) run" where
  "dataCallbackThread_round lib allow d =
     (if d_stopThreads d then Done (Cycle_break, d)
      else
        case d_datacbqueue d of
          [] \<Rightarrow> Done (Cycle_next, d)
        | info # _ \<Rightarrow>
            if \<not> allow then Done (Cycle_next, d)
            else
              let i = cb_param info;
                  p = (d_params d ! i)\<lparr>p_plcTimeStampRaw := cb_nTimeStamp info,
                                        p_lastCallbackSize := cb_cbSampleSize info\<rparr>
              in run_bind (adsUpdateParameter lib i p (Some (cb_data info)) (cb_cbSampleSize info) d)
                   (\<lambda>(_, p1, d1).
                     Done (Cycle_next, d1\<lparr>d_params := (d_params d1)[i := p1],
                                          d_datacbqueue := tl (d_datacbqueue d1)\<rparr>)))"

definition triggerEpicsIoIntrCallbacksThread_round ::
  "('e, 'z) ads_lib_scheme \<Rightarrow> bool \<Rightarrow> 'e driver \<Rightarrow> (cycle_end \<times> 'e driver) run" where
  "triggerEpicsIoIntrCallbacksThread_round lib allow d =
     (if d_stopThreads d then Done (Cycle_break, d)
      else if \<not> allow then Done (Cycle_next, d)
      else run_bind (fireAllCallbacksLock lib d) (\<lambda>(_, d1). Done (Cycle_next, d1)))"

section \<open>Responses\<close>

text \<open>The bytes behind the announced ones do not matter, unless a value is shorter than its type.\<close>

definition whole_value :: "adsParamInfo \<Rightarrow> nat \<Rightarrow> bool" where
  "whole_value p n \<longleftrightarrow> (\<forall>t. adst_of (int (p_plcDataType p)) = Some t \<longrightarrow> adst_width t \<le> n)"

lemma mem_read_append: "n \<le> length bs \<Longrightarrow> mem_read (bs @ rest) 0 n = mem_read bs 0 n"
  by (simp add: mem_read_def)

lemma copy_array_append:
  "p_lastCallbackSize p \<le> length bs \<Longrightarrow> copy_array p buf (bs @ rest) = copy_array p buf bs"
  by (simp add: copy_array_def mem_read_append)

lemma update_switch_append:
  assumes "whole_value p (length bs)"
  shows "update_switch lib i p (bs @ rest) d = update_switch lib i p bs d"
proof (cases "adst_of (int (p_plcDataType p))")
  case None
  then show ?thesis by (simp add: update_switch_def)
next
  case (Some t)
  then have w: "adst_width t \<le> length bs" using assms by (simp add: whole_value_def)
  have "t \<in> {ADST_INT64, ADST_UINT64} \<Longrightarrow> adst_width t = 8" by auto
  with Some w show ?thesis by (auto simp: update_switch_def mem_read_append)
qed

lemma update_append:
  assumes "p_lastCallbackSize p \<le> length bs" and "whole_value p (length bs)"
  shows "adsUpdateParameter lib i p (Some (bs @ rest)) n d = adsUpdateParameter lib i p (Some bs) m d"
proof -
  obtain st p1 d1 where r: "refreshParamTime lib p d = (st, p1, d1)" by (cases "refreshParamTime lib p d") auto
  then have "time_frame p p1" by (auto dest: refreshParamTime_frame)
  then obtain a b where p1: "p1 = p\<lparr>p_plcTimeStamp := a, p_epicsTimestamp := b\<rparr>"
    unfolding time_frame_def by blast
  have last: "p_lastCallbackSize p1 \<le> length bs" using assms(1) by (simp add: p1)
  have ty: "whole_value p2 (length bs)"
    if "(if p_plcDataIsArray p1 then copy_array p1 (the (p_arrayDataBuffer p1)) bs else Done p1) = Done p2" for p2
    using that assms(2) by (auto simp: p1 whole_value_def dest!: copy_array_frame split: if_splits)
  show ?thesis
  proof (cases "if p_plcDataIsArray p1 then copy_array p1 (the (p_arrayDataBuffer p1)) bs else Done p1")
    case (Done p2)
    with ty have "update_switch lib i p2 (bs @ rest) d1 = update_switch lib i p2 bs d1"
      by (intro update_switch_append) simp
    with Done r last show ?thesis
      by (cases "p_plcDataIsArray p1") (simp_all add: adsUpdateParameter_def copy_array_append)
  qed (use r last in \<open>cases "p_plcDataIsArray p1"; simp add: adsUpdateParameter_def copy_array_append\<close>)+
qed

text \<open>
  What a response means, slot by slot: every parameter is updated with the value of its own slot and
  marked for refresh when its own status says so.
\<close>

fun deliver ::
  "('e, 'z) ads_lib_scheme \<Rightarrow> (nat \<times> nat \<times> u8 list) list \<Rightarrow> 'e driver \<Rightarrow> 'e driver run" where
  "deliver lib [] d = Done d"
| "deliver lib ((i, status, bytes) # slots) d =
     (let p = d_params d ! i;
          p1 = p\<lparr>p_refreshNeeded := p_refreshNeeded p \<or> status \<noteq> 0, p_plcTimeStampRaw := 0,
                 p_lastCallbackSize := length bytes\<rparr>
      in run_bind (adsUpdateParameter lib i p1 (Some bytes) (length bytes) d) (\<lambda>(_, p2, d1).
           deliver lib slots (d1\<lparr>d_params := (d_params d1)[i := p2]\<rparr>)))"

definition response :: "(nat \<times> nat \<times> u8 list) list \<Rightarrow> u8 list" where
  "response slots = concat (map (\<lambda>(_, status, _). le_bytes 4 status) slots) @
     concat (map (\<lambda>(_, _, bytes). bytes) slots)"

text \<open>A slot that belongs to a registered parameter, with a value of the size of the parameter.\<close>

definition slot_fits :: "'e driver \<Rightarrow> nat \<times> nat \<times> u8 list \<Rightarrow> bool" where
  "slot_fits d slot \<longleftrightarrow> (case slot of (i, status, bytes) \<Rightarrow>
     i < d_paramCount d \<and> i < length (d_params d) \<and> status < 2 ^ 32 \<and>
     length bytes = p_plcSize (d_params d ! i) \<and> whole_value (d_params d ! i) (length bytes))"

lemma update_last: "adsUpdateParameter lib i p data n d = Done (st, p2, d1) \<Longrightarrow>
    p_lastCallbackSize p2 = p_lastCallbackSize p \<and> d_bulkdata d1 = d_bulkdata d"
  by (erule update_outcome) simp

lemma slot_fits_step:
  assumes "adsUpdateParameter lib i ((d_params d ! i)\<lparr>p_refreshNeeded := a, p_plcTimeStampRaw := b,
      p_lastCallbackSize := c\<rparr>) data n d = Done (st, p2, d1)" and "slot_fits d s"
  shows "slot_fits (d1\<lparr>d_params := (d_params d1)[i := p2]\<rparr>) s"
  using assms(1)
proof (rule update_outcome)
  fix a' b' c' e f x y
  assume "p2 = (d_params d ! i)\<lparr>p_refreshNeeded := a, p_plcTimeStampRaw := b, p_lastCallbackSize := c,
      p_plcTimeStamp := a', p_epicsTimestamp := b', p_arrayDataBuffer := c', p_alarmStatus := e,
      p_alarmSeverity := f\<rparr>"
    "d1 = d\<lparr>env := x, d_arrayParams := y\<rparr>"
  then show ?thesis
    using assms(2) by (cases s; cases "i = fst s") (simp_all add: slot_fits_def whole_value_def)
qed

lemma bulk_slots_deliver:
  assumes "\<forall>s \<in> set slots. slot_fits d s"
    and "map (\<lambda>j. b_paramID b ! j) js = map (\<lambda>(i, _). int i) slots"
    and "d_bulkdata d = pre @ concat (map (\<lambda>(_, status, _). le_bytes 4 status) slots) @ mid @
           concat (map (\<lambda>(_, _, bytes). bytes) slots) @ rest"
    and "stat = length pre" and "srd = length pre + 4 * length slots + length mid"
  shows "bulk_slots lib b js stat srd d = deliver lib slots d"
  using assms
proof (induction slots arbitrary: js d pre mid stat srd)
  case Nil
  then show ?case by simp
next
  case (Cons slot slots)
  obtain i status bytes where slot: "slot = (i, status, bytes)" by (cases slot) auto
  from Cons.prems(2) obtain j js' where js: "js = j # js'" and id: "b_paramID b ! j = int i"
    and ids: "map (\<lambda>j. b_paramID b ! j) js' = map (\<lambda>(i, _). int i) slots"
    by (cases js) (auto simp: slot)
  have "slot_fits d slot" using Cons.prems(1) by simp
  then have fit: "i < d_paramCount d" "i < length (d_params d)" "status < 2 ^ 32"
      "length bytes = p_plcSize (d_params d ! i)" "whole_value (d_params d ! i) (length bytes)"
    by (auto simp: slot slot_fits_def)
  let ?sts = "concat (map (\<lambda>(_, status, _). le_bytes 4 status) slots)"
  let ?vals = "concat (map (\<lambda>(_, _, bytes). bytes) slots)"
  have data: "d_bulkdata d = pre @ le_bytes 4 status @ ?sts @ mid @ bytes @ ?vals @ rest"
    using Cons.prems(3) by (simp add: slot)
  have nsts: "length ?sts = 4 * length slots" by (induction slots) auto
  have rd: "mem_read (d_bulkdata d) stat 4 = Done (le_bytes 4 status)"
    by (simp add: data Cons.prems(4) mem_read_def)
  have dr: "drop srd (d_bulkdata d) = bytes @ ?vals @ rest" and le: "srd \<le> length (d_bulkdata d)"
    by (simp_all add: data Cons.prems(5) nsts)
  have st: "le_nat (le_bytes 4 status) = status" using fit(3) by (simp add: mem_simps)
  let ?p1 = "(d_params d ! i)\<lparr>p_refreshNeeded := p_refreshNeeded (d_params d ! i) \<or> 0 < status,
      p_plcTimeStampRaw := 0, p_lastCallbackSize := length bytes\<rparr>"
  have upd: "adsUpdateParameter lib i ?p1 (Some (bytes @ ?vals @ rest)) n d =
      adsUpdateParameter lib i ?p1 (Some bytes) (length bytes) d" for n
    using fit(5) by (intro update_append) (simp_all add: whole_value_def)
  have info: "getAdsParamInfo d (int i) = Done (Some (d_params d ! i))"
    using fit(1,2) by (simp add: getAdsParamInfo_def)
  have step: "bulk_slots lib b js stat srd d =
      run_bind (adsUpdateParameter lib i ?p1 (Some bytes) (length bytes) d)
        (\<lambda>(_, p2, d1). bulk_slots lib b js' (stat + 4) (srd + p_lastCallbackSize p2)
                        (d1\<lparr>d_params := (d_params d1)[i := p2]\<rparr>))"
    using le by (simp add: js id info rd dr st upd fit(4) [symmetric])
  show ?case
  proof (cases "adsUpdateParameter lib i ?p1 (Some bytes) (length bytes) d")
    case (Done r)
    obtain s p2 d1 where r: "r = (s, p2, d1)" by (cases r) auto
    let ?d2 = "d1\<lparr>d_params := (d_params d1)[i := p2]\<rparr>"
    from Done r have u: "adsUpdateParameter lib i ?p1 (Some bytes) (length bytes) d = Done (s, p2, d1)" by simp
    have "bulk_slots lib b js' (stat + 4) (srd + length bytes) ?d2 = deliver lib slots ?d2"
    proof (rule Cons.IH [where pre = "pre @ le_bytes 4 status" and mid = "mid @ bytes"])
      show "\<forall>s \<in> set slots. slot_fits ?d2 s" using Cons.prems(1) slot_fits_step [OF u] by simp
      show "d_bulkdata ?d2 = (pre @ le_bytes 4 status) @ ?sts @ (mid @ bytes) @ ?vals @ rest"
        using update_last [OF u] data by simp
    qed (simp_all add: ids Cons.prems(4,5))
    then show ?thesis using update_last [OF u] by (simp add: step slot u Let_def)
  qed (simp_all add: step slot Let_def)
qed

text \<open>
  C4: a bulk response that consists of one status word per slot and then one value per slot is taken
  apart correctly: every parameter is updated with exactly the bytes of its own slot, and marked for
  refresh exactly by its own status, provided that the slots belong to registered parameters and have
  their sizes.
\<close>
theorem bulk_demux:
  assumes "AdsSyncReadWriteReqEx2 lib cp (server d (b_amsPort b)) (sdk_u lib ''ADSIGRP_SUMUP_READ'') (b_cnt b)
      (nat (b_readSize b mod 2 ^ 32)) (concat (map sum_bytes (take (b_cnt b) (b_sum b)))) (env d) =
      ((0, response (hi # lo # slots), n), e)"
    and "b_cnt b = length slots + 2" and "\<forall>s \<in> set slots. slot_fits d s"
    and "map (\<lambda>j. b_paramID b ! j) [2..<b_cnt b] = map (\<lambda>(i, _). int i) slots"
    and "s_iSize (b_sum b ! 0) = length (snd (snd hi))" and "s_iSize (b_sum b ! 1) = length (snd (snd lo))"
    and "length (response (hi # lo # slots)) \<le> length (d_bulkdata d)"
  shows "bulk_request lib cp b d = deliver lib slots
    (d\<lparr>env := e, d_bulkdata := received (d_bulkdata d) (response (hi # lo # slots))\<rparr>)"
proof -
  obtain i1 s1 v1 i2 s2 v2 where hl: "hi = (i1, s1, v1)" "lo = (i2, s2, v2)" by (cases hi; cases lo) auto
  let ?R = "response (hi # lo # slots)"
  let ?d2 = "d\<lparr>env := e, d_bulkdata := received (d_bulkdata d) ?R\<rparr>"
  have R: "?R = (le_bytes 4 s1 @ le_bytes 4 s2) @ concat (map (\<lambda>(_, status, _). le_bytes 4 status) slots) @
      (v1 @ v2) @ concat (map (\<lambda>(_, _, bytes). bytes) slots)"
    unfolding response_def hl by (simp only: list.map concat.simps prod.case append_assoc)
  have rec: "received (d_bulkdata d) ?R = ?R @ drop (length ?R) (d_bulkdata d)"
    unfolding received_def take_all [OF assms(7)] ..
  have "d_bulkdata ?d2 = ?R @ drop (length ?R) (d_bulkdata d)" by (simp add: rec)
  then have data: "d_bulkdata ?d2 = (le_bytes 4 s1 @ le_bytes 4 s2) @
      concat (map (\<lambda>(_, status, _). le_bytes 4 status) slots) @ (v1 @ v2) @
      concat (map (\<lambda>(_, _, bytes). bytes) slots) @ drop (length ?R) (d_bulkdata d)"
    by (simp only: R append_assoc)
  have fits: "\<forall>s \<in> set slots. slot_fits ?d2 s" using assms(3) by (auto simp: slot_fits_def)
  have slots: "bulk_slots lib b [2..<b_cnt b] 8 (4 * b_cnt b + length v1 + length v2) ?d2 = deliver lib slots ?d2"
    by (rule bulk_slots_deliver [OF fits assms(4) data]) (simp_all add: assms(2))
  show ?thesis
    unfolding bulk_request_def Let_def call_def assms(1) prod.case
    using slots assms(7) by (simp add: assms(5) assms(6) [simplified] hl)
qed

definition demo_bulk :: BulkReadInfo where
  "demo_bulk = new_bulk\<lparr>b_cnt := 3, b_amsPort := 851,
     b_sum := [\<lparr>s_iGroup = 0x4020, s_iOffset = 0, s_iSize = 4\<rparr>, \<lparr>s_iGroup = 0x4020, s_iOffset = 0, s_iSize = 4\<rparr>,
               \<lparr>s_iGroup = 0x4020, s_iOffset = 8, s_iSize = 2\<rparr>],
     b_paramID := [0, 0, 1], b_readSize := 22\<rparr>"

definition demo_polled :: "unit driver" where
  "demo_polled = demo_driver\<lparr>d_params := [new_param, new_param\<lparr>p_plcDataType := 2, p_plcSize := 2\<rparr>],
     d_paramCount := 2, d_bulkdata := replicate 32 7\<rparr>"

lemma bulk_demux_witness:
  "bulk_request zero_lib 30000 demo_bulk demo_polled = deliver zero_lib [(1, 0, [0, 0])]
     (demo_polled\<lparr>env := (), d_bulkdata := received (d_bulkdata demo_polled)
        (response [(0, 0, [0, 0, 0, 0]), (0, 0, [0, 0, 0, 0]), (1, 0, [0, 0])])\<rparr>)"
proof (rule bulk_demux)
  have r: "response [(0, 0, [0, 0, 0, 0]), (0, 0, [0, 0, 0, 0]), (1, 0, [0, 0])] = replicate 22 0"
    by code_simp
  show "AdsSyncReadWriteReqEx2 zero_lib 30000 (server demo_polled (b_amsPort demo_bulk))
      (sdk_u zero_lib ''ADSIGRP_SUMUP_READ'') (b_cnt demo_bulk) (nat (b_readSize demo_bulk mod 2 ^ 32))
      (concat (map sum_bytes (take (b_cnt demo_bulk) (b_sum demo_bulk)))) (env demo_polled) =
      ((0, response [(0, 0, [0, 0, 0, 0]), (0, 0, [0, 0, 0, 0]), (1, 0, [0, 0])], 22), ())"
    unfolding r by (simp add: zero_lib_def demo_bulk_def)
  show "length (response [(0, 0, [0, 0, 0, 0]), (0, 0, [0, 0, 0, 0]), (1, 0, [0, 0])]) \<le> length (d_bulkdata demo_polled)"
    unfolding r by (simp add: demo_polled_def)
  have "adst_of 2 = Some ADST_INT16" using adst_of_code [of ADST_INT16] by simp
  then show "\<forall>s \<in> set [(1, 0, [0, 0])]. slot_fits demo_polled s"
    by (simp add: slot_fits_def demo_polled_def whole_value_def)
qed (simp_all add: demo_bulk_def upt_rec)

text \<open>
  The polling of a request that announces more bytes than the buffer of 4 MB holds writes beyond the
  buffer when the controller answers in full; nothing bounds the sum of the sizes in a request.
\<close>
theorem bulk_response_overflow:
  assumes "AdsSyncReadWriteReqEx2 lib cp (server d (b_amsPort b)) (sdk_u lib ''ADSIGRP_SUMUP_READ'') (b_cnt b)
      (nat (b_readSize b mod 2 ^ 32)) (concat (map sum_bytes (take (b_cnt b) (b_sum b)))) (env d) =
      ((status, bs, n), e)"
    and "length bs = nat (b_readSize b mod 2 ^ 32)"
  shows "nat (b_readSize b mod 2 ^ 32) > length (d_bulkdata d) \<Longrightarrow> bulk_request lib cp b d = Ub"
  using assms by (simp add: bulk_request_def Let_def call_def)

lemma bulk_response_overflow_witness:
  "bulk_request zero_lib 30000 (demo_bulk\<lparr>b_readSize := 33\<rparr>) demo_polled = Ub"
  by (rule bulk_response_overflow [where status = 0 and bs = "replicate 33 0" and n = 33 and e = "()"])
     (simp_all add: zero_lib_def demo_bulk_def demo_polled_def)

section \<open>The queue of notifications\<close>

text \<open>
  A history of a queue: arrivals and rounds of the thread that takes elements off.  The result lists
  the elements that were accepted and those that were taken off.
\<close>

datatype 'n queue_event = Arrive 'n | Deliver

fun play ::
  "('n \<Rightarrow> 's \<Rightarrow> 's) \<Rightarrow> ('s \<Rightarrow> 's option) \<Rightarrow> ('s \<Rightarrow> 'x list) \<Rightarrow> ('s \<Rightarrow> 'n \<Rightarrow> 'x option) \<Rightarrow> nat \<Rightarrow>
     'n queue_event list \<Rightarrow> 's \<Rightarrow> ('x list \<times> 'x list \<times> 's) option" where
  "play push pop contents accepts cap [] s = Some ([], [], s)"
| "play push pop contents accepts cap (Arrive n # es) s =
     (case play push pop contents accepts cap es (push n s) of
        None \<Rightarrow> None
      | Some (acc, out, s') \<Rightarrow>
          Some (case accepts s n of
                  Some x \<Rightarrow> (if length (contents s) \<le> cap then x # acc else acc)
                | None \<Rightarrow> acc, out, s'))"
| "play push pop contents accepts cap (Deliver # es) s =
     (case pop s of
        None \<Rightarrow> None
      | Some s1 \<Rightarrow>
          (case play push pop contents accepts cap es s1 of
             None \<Rightarrow> None
           | Some (acc, out, s') \<Rightarrow> Some (acc, take 1 (contents s) @ out, s')))"

locale bounded_queue =
  fixes push :: "'n \<Rightarrow> 's \<Rightarrow> 's" and pop :: "'s \<Rightarrow> 's option" and contents :: "'s \<Rightarrow> 'x list"
    and accepts :: "'s \<Rightarrow> 'n \<Rightarrow> 'x option" and cap :: nat
  assumes push_refused: "accepts s n = None \<or> cap < length (contents s) \<Longrightarrow> contents (push n s) = contents s"
    and push_accepted: "\<lbrakk>accepts s n = Some x; length (contents s) \<le> cap\<rbrakk> \<Longrightarrow>
           contents (push n s) = contents s @ [x]"
    and pop_front: "pop s = Some s' \<Longrightarrow> contents s' = tl (contents s)"
begin

lemma push_length: "length (contents s) \<le> cap + 1 \<Longrightarrow> length (contents (push n s)) \<le> cap + 1"
  by (cases "accepts s n"; cases "cap < length (contents s)") (simp_all add: push_refused push_accepted)

lemma conserve:
  "play push pop contents accepts cap es s = Some (acc, out, s') \<Longrightarrow> contents s @ acc = out @ contents s'"
proof (induction es arbitrary: s acc out)
  case (Cons ev es)
  show ?case
  proof (cases ev)
    case (Arrive n)
    with Cons.prems obtain acc1 where "play push pop contents accepts cap es (push n s) = Some (acc1, out, s')"
      and "acc = (case accepts s n of Some x \<Rightarrow> (if length (contents s) \<le> cap then x # acc1 else acc1) | None \<Rightarrow> acc1)"
      by (auto split: option.splits)
    with Cons.IH show ?thesis
      by (cases "accepts s n"; cases "length (contents s) \<le> cap") (fastforce simp: push_refused push_accepted)+
  next
    case Deliver
    with Cons.prems obtain s1 out1 where "pop s = Some s1"
      and "play push pop contents accepts cap es s1 = Some (acc, out1, s')" and "out = take 1 (contents s) @ out1"
      by (auto split: option.splits)
    with Cons.IH show ?thesis by (cases "contents s") (fastforce simp: pop_front)+
  qed
qed simp

lemma bounded:
  "play push pop contents accepts cap es s = Some (acc, out, s') \<Longrightarrow> length (contents s) \<le> cap + 1 \<Longrightarrow>
     length (contents s') \<le> cap + 1"
proof (induction es arbitrary: s acc out)
  case (Cons ev es)
  show ?case
  proof (cases ev)
    case (Arrive n)
    with Cons.prems obtain acc1 where "play push pop contents accepts cap es (push n s) = Some (acc1, out, s')"
      by (auto split: option.splits)
    with Cons show ?thesis by (meson push_length)
  next
    case Deliver
    with Cons.prems obtain s1 out1 where "pop s = Some s1"
      and "play push pop contents accepts cap es s1 = Some (acc, out1, s')"
      by (auto split: option.splits)
    moreover have "length (contents s1) \<le> cap + 1"
      using pop_front [OF \<open>pop s = Some s1\<close>] Cons.prems(2) by simp
    ultimately show ?thesis using Cons.IH by blast
  qed
qed simp

end


section \<open>The queue of the driver\<close>

text \<open>A notification, and the element that the callback makes of it if there is room.\<close>

type_synonym data_notification = "nat \<times> u8 list \<times> u64 \<times> nat"

definition notify :: "('e, 'z) ads_lib_scheme \<Rightarrow> data_notification \<Rightarrow> 'e driver \<Rightarrow> 'e driver" where
  "notify lib n d =
     (case n of (hUser, data, ts, sz) \<Rightarrow>
        case adsDataCallback lib hUser data ts sz d of Done d' \<Rightarrow> d' | _ \<Rightarrow> d)"

definition admits :: "('e, 'z) ads_lib_scheme \<Rightarrow> 'e driver \<Rightarrow> data_notification \<Rightarrow> datacbinfo option" where
  "admits lib d n =
     (case n of (hUser, data, ts, sz) \<Rightarrow>
        let i = wrap_signed 4 (int hUser)
        in if hUser \<le> nat ((d_paramTableSize d - 1) mod 2 ^ 32) \<and> 0 \<le> i \<and> i < int (d_paramCount d) \<and>
              nat i < length (d_params d) \<and> hUser = nat (p_paramIndex (d_params d ! nat i) mod 2 ^ 32) \<and>
              mallocOk lib sz (env d) \<and> sz \<le> length data
           then Some \<lparr>cb_param = nat i, cb_data = take sz data, cb_nTimeStamp = ts, cb_cbSampleSize = sz\<rparr>
           else None)"

definition take_off :: "('e, 'z) ads_lib_scheme \<Rightarrow> 'e driver \<Rightarrow> 'e driver option" where
  "take_off lib d =
     (case dataCallbackThread_round lib True d of Done (Cycle_next, d') \<Rightarrow> Some d' | _ \<Rightarrow> None)"

lemma update_queue: "adsUpdateParameter lib i p data n d = Done (st, p2, d1) \<Longrightarrow> d_datacbqueue d1 = d_datacbqueue d"
  by (erule update_outcome) simp

interpretation notifications: bounded_queue "notify lib" "take_off lib" d_datacbqueue "admits lib" MAXCBQSIZE
  for lib
proof unfold_locales
  fix d :: "'a driver" and n
  assume r: "admits lib d n = None \<or> MAXCBQSIZE < length (d_datacbqueue d)"
  obtain hUser data ts sz where n: "n = (hUser, data, ts, sz)" by (cases n) auto
  from r show "d_datacbqueue (notify lib n d) = d_datacbqueue d"
    by (auto simp: n notify_def adsDataCallback_def admits_def getAdsParamInfo_def mem_read_def Let_def
        split: if_splits)
next
  fix d :: "'a driver" and n x
  assume r: "admits lib d n = Some x" "length (d_datacbqueue d) \<le> MAXCBQSIZE"
  obtain hUser data ts sz where n: "n = (hUser, data, ts, sz)" by (cases n) auto
  from r show "d_datacbqueue (notify lib n d) = d_datacbqueue d @ [x]"
    by (auto simp: n notify_def adsDataCallback_def admits_def getAdsParamInfo_def mem_read_def Let_def
        split: if_splits)
next
  fix d d' :: "'a driver"
  assume r: "take_off lib d = Some d'"
  show "d_datacbqueue d' = tl (d_datacbqueue d)"
  proof (cases "d_datacbqueue d")
    case Nil
    with r show ?thesis
      by (auto simp: take_off_def dataCallbackThread_round_def split: run.splits cycle_end.splits if_splits)
  next
    case (Cons info q)
    with r obtain st p1 d1 where u: "adsUpdateParameter lib (cb_param info)
        ((d_params d ! cb_param info)\<lparr>p_plcTimeStampRaw := cb_nTimeStamp info,
           p_lastCallbackSize := cb_cbSampleSize info\<rparr>) (Some (cb_data info)) (cb_cbSampleSize info) d =
          Done (st, p1, d1)"
        "d' = d1\<lparr>d_params := (d_params d1)[cb_param info := p1], d_datacbqueue := tl (d_datacbqueue d1)\<rparr>"
      by (auto simp: take_off_def dataCallbackThread_round_def Let_def run_bind_Done_iff
          split: run.splits cycle_end.splits if_splits prod.splits)
    then show ?thesis using update_queue [OF u(1)] by simp
  qed
qed

text \<open>
  C17: whatever the order in which notifications arrive and the thread takes them off, the ones taken off
  followed by the ones still queued are the ones that were queued followed by the accepted ones: none is
  lost, repeated or overtaken once accepted, and the queue never holds more than 10001 of them.  Arrivals
  and removals are atomic here, although the code does not lock the queue.
\<close>
theorem notifications_fifo:
  assumes "play (notify lib) (take_off lib) d_datacbqueue (admits lib) MAXCBQSIZE events d = Some (acc, out, d')"
    and "length (d_datacbqueue d) \<le> 10001"
  shows "d_datacbqueue d @ acc = out @ d_datacbqueue d' \<and> length (d_datacbqueue d') \<le> 10001"
  using notifications.conserve [OF assms(1)] notifications.bounded [OF assms(1)] assms(2)
  by (simp add: MAXCBQSIZE_def)

lemma notifications_fifo_witness:
  "let d = demo_polled\<lparr>d_datacbqueue := []\<rparr>
   in \<exists>acc out d'. play (notify zero_lib) (take_off zero_lib) d_datacbqueue (admits zero_lib) MAXCBQSIZE
        [Arrive (0, [1, 2], 7, 2)] d = Some (acc, out, d') \<and> length acc = 1 \<and>
        d_datacbqueue d @ acc = out @ d_datacbqueue d' \<and> length (d_datacbqueue d') \<le> 10001"
proof -
  let ?d = "demo_polled\<lparr>d_datacbqueue := []\<rparr>"
  have "wrap_signed 4 0 = 0"
    by (simp add: wrap_signed_def le_bytes_int_def le_int_def mem_simps)
  then have a: "admits zero_lib ?d (0, [1, 2], 7, 2) =
      Some \<lparr>cb_param = 0, cb_data = [1, 2], cb_nTimeStamp = 7, cb_cbSampleSize = 2\<rparr>"
    by (simp add: admits_def demo_polled_def demo_driver_def constructed_def zero_lib_def new_param_def)
  then obtain d' where p: "play (notify zero_lib) (take_off zero_lib) d_datacbqueue (admits zero_lib) MAXCBQSIZE
      [Arrive (0, [1, 2], 7, 2)] ?d =
      Some ([\<lparr>cb_param = 0, cb_data = [1, 2], cb_nTimeStamp = 7, cb_cbSampleSize = 2\<rparr>], [], d')"
    by simp
  from notifications_fifo [OF p] have "d_datacbqueue d' = [\<lparr>cb_param = 0, cb_data = [1, 2], cb_nTimeStamp = 7,
      cb_cbSampleSize = 2\<rparr>]" by auto
  with p show ?thesis unfolding Let_def by (intro exI conjI) (rule p, simp_all)
qed

end
