(* ===== verification/Ads_Startup.thy ===== *)
theory Ads_Startup
  imports Ads_RecordTable Ads_Watch Ads_Threads
begin

text \<open>
  The life of the driver: the shell command \<^verbatim>\<open>adsAsynPortDriverConfigure\<close> with its
  checks of the arguments, the constructor of \<^verbatim>\<open>adsAsynPortDriver\<close> with its early
  returns, exceptions and the loop that waits for the PLC, the hook that follows the start of the IOC,
  and the destructor.  Until the hook has seen the end of the initialisation of the scans, the threads
  that the constructor starts do nothing, so it runs as one sequence.  Memory is sufficient; sleeping
  and measuring times are left out.
\<close>

section \<open>The environment of the start\<close>

text \<open>
  Further operations outside the repository: the creation of a thread by its name, the registration of
  the hook, and the address of the local AMS router.
\<close>

record 'e start_lib = "'e user_lib" +
  epicsThreadCreateOpt :: "string \<Rightarrow> 'e \<Rightarrow> bool \<times> 'e"
  initHookRegister :: "'e \<Rightarrow> int \<times> 'e"
  AdsSetLocalAddress :: "string \<Rightarrow> 'e \<Rightarrow> 'e"

text \<open>
  The arguments of the constructor that its code uses: \<^verbatim>\<open>unsigned int\<close> as a natural number,
  \<^verbatim>\<open>int\<close> as an integer.  The priority is only stored.
\<close>

record start_args =
  a_portName :: string
  a_ipaddr :: string
  a_amsaddr :: string
  a_amsport :: nat
  a_paramTableSize :: int
  a_autoConnect :: bool
  a_defaultSampleTimeMS :: int
  a_maxDelayTimeMS :: int
  a_adsTimeoutMS :: int
  a_defaultTimeSource :: ADSTIMESOURCE
  a_ethercatMaster :: "string option"

text \<open>
  How the constructor ends: with a connection, by an early return that leaves a half-built object, or by
  an exception.  The loop that waits for the connection has fuel, its number of rounds.
\<close>

datatype start_end = Constructed | Incomplete | Threw

section \<open>The connection\<close>

datatype start_step = Again | Ready | Raised

text \<open>One round of the loop that tries to connect.\<close>

definition start_round ::
  "('e, 'z) ads_lib_scheme \<Rightarrow> nat \<Rightarrow> nat \<Rightarrow> nat \<Rightarrow> 'e driver \<Rightarrow> (start_step \<times> 'e driver) run" where
  "start_round lib self amsClientPort amsport d =
     run_bind (connect lib self d) (\<lambda>(stat, d1).
       if stat = None then Done (Raised, d1)
       else if stat \<noteq> Some asynSuccess then Done (Again, d1)
       else
         case adsReadState lib amsClientPort (amsport mod 2 ^ 16) d1 of
           ((stat1, adsState, _), d2) \<Rightarrow>
             if stat1 \<noteq> asynSuccess then Done (Again, snd (disconnect lib d2))
             else if int adsState = sdk lib ''ADSSTATE_RUN''
             then (let d3 = (if ethercatMasterIsResolved d2 then d2
                             else snd (resolveEthercatMasterAmsNetId lib amsClientPort d2))
                   in Done (Ready, if ethercatMasterIsAvailable d3 then snd (adsAddEthercatRoute lib d3) else d3))
             else Done (Again, d2))"

fun connect_loop ::
  "('e, 'z) ads_lib_scheme \<Rightarrow> nat \<Rightarrow> nat \<Rightarrow> nat \<Rightarrow> nat \<Rightarrow> 'e driver \<Rightarrow> (start_end \<times> 'e driver) run" where
  "connect_loop lib self amsClientPort amsport 0 d = NoFuel"
| "connect_loop lib self amsClientPort amsport (Suc fuel) d =
     run_bind (start_round lib self amsClientPort amsport d) (\<lambda>(r, d1).
       case r of
         Again \<Rightarrow> connect_loop lib self amsClientPort amsport fuel d1
       | Ready \<Rightarrow> Done (Constructed, d1)
       | Raised \<Rightarrow> Done (Threw, d1))"

section \<open>The constructor\<close>

text \<open>
  The address of the controller: the bytes that \<^verbatim>\<open>sscanf\<close> stores with the format
  \<^verbatim>\<open>%hhu.%hhu. ... %hhu\<close>.
\<close>

definition scan_ams_address :: "string \<Rightarrow> AmsNetId" where
  "scan_ams_address amsaddr = map word_of_nat (fst (scan_dotted 6 amsaddr))"

text \<open>The address of the EtherCAT master from the arguments; \<open>None\<close> is the exception.\<close>

definition override_master :: "string option \<Rightarrow> 'e driver \<Rightarrow> 'e driver option" where
  "override_master text d =
     (case text of
        None \<Rightarrow> Some d
      | Some s \<Rightarrow>
          if s = [] then Some d
          else
            case parseAmsNetId (Some s) (Some (d_ethercatMasterNetId d)) of
              (True, Some master) \<Rightarrow>
                Some (d\<lparr>d_ethercatMasterNetId := master, d_ethercatMasterAvailable := True,
                        d_ethercatMasterAmsNetIdSource := ''override'', d_ethercatMasterNetIdResolved := True\<rparr>)
            | _ \<Rightarrow> None)"

text \<open>The first parameter, for the access without a record of its own.\<close>

definition default_param :: "int \<Rightarrow> adsParamInfo \<Rightarrow> adsParamInfo" where
  "default_param index p =
     p\<lparr>p_recordName := Some ''Any record'', p_recordType := Some ''No type'', p_scan := Some ''No scan'',
       p_dtyp := Some ''No dtyp'', p_inp := Some ''No inp'', p_out := Some ''No out'',
       p_drvInfo := Some ''No drvinfo'', p_asynType := asynParamNotDefined, p_paramIndex := index,
       p_plcAdrStr := ''No adr str''\<rparr>"

text \<open>The four threads; without the last one the constructor throws.\<close>

definition start_threads :: "('e, 'z) start_lib_scheme \<Rightarrow> 'e driver \<Rightarrow> start_end option \<times> 'e driver" where
  "start_threads lib d =
     (case call (epicsThreadCreateOpt lib ''adsAsynPortDriverCyclicThread'') d of
        (cyclicThreadId, d1) \<Rightarrow>
          if \<not> cyclicThreadId then (Some Incomplete, d1)
          else
            case call (epicsThreadCreateOpt lib ''adsAsynPortDriverBulkReadThread'') d1 of
              (bulkReadThreadId, d2) \<Rightarrow>
                if \<not> bulkReadThreadId then (Some Incomplete, d2)
                else
                  case call (epicsThreadCreateOpt lib ''adsAsynPortDriverDataCallbackThread'') d2 of
                    (dataCallbackThreadId, d3) \<Rightarrow>
                      if \<not> dataCallbackThreadId then (Some Incomplete, d3)
                      else
                        case call (epicsThreadCreateOpt lib
                                     ''adsAsynPortDriverTriggerEpicsIoIntrCallbacksThread'') d3 of
                          (triggerIoIntrThreadId, d4) \<Rightarrow>
                            (if triggerIoIntrThreadId then None else Some Threw, d4))"

text \<open>Behind the default parameter: the default client port, the threads and the connection.\<close>

definition start_ports ::
  "('e, 'z) start_lib_scheme \<Rightarrow> nat \<Rightarrow> nat \<Rightarrow> nat \<Rightarrow> 'e driver \<Rightarrow> (start_end \<times> 'e driver) run" where
  "start_ports lib self amsport fuel d =
     (case addAdsClientPortNumberForThreadId lib 0 d of
        (adsPort, d1) \<Rightarrow>
          let d2 = d1\<lparr>d_adsPort := adsPort\<rparr>
          in if isInvalidPortNumber adsPort then Done (Threw, d2)
             else
               run_bind (with_guard lib self (\<lambda>amsClientPort d3.
                   case start_threads lib d3 of
                     (Some r, d4) \<Rightarrow> Done (r, d4)
                   | (None, d4) \<Rightarrow> connect_loop lib self amsClientPort amsport fuel d4) d2)
                 (\<lambda>(r, d5). Done (case r of None \<Rightarrow> Threw | Some r1 \<Rightarrow> r1, d5)))"

definition adsAsynPortDriver ::
  "('e, 'z) start_lib_scheme \<Rightarrow> nat \<Rightarrow> nat \<Rightarrow> start_args \<Rightarrow> 'e \<Rightarrow> (start_end \<times> 'e driver) run" where
  "adsAsynPortDriver lib self fuel a e =
     (let d = constructed e (a_portName a) (a_ipaddr a) (a_amsport a) (nat (a_paramTableSize a)) (a_autoConnect a)
                (a_defaultSampleTimeMS a) (a_maxDelayTimeMS a) (a_adsTimeoutMS a) (a_defaultTimeSource a)
      in if a_paramTableSize a < 0 then Done (Threw, d)
         else if d_amsportDefault d = 0 then Done (Incomplete, d)
         else
           let d1 = snd (addNewAmsPortToList lib (d_amsportDefault d) d);
               bytes = scan_ams_address (a_amsaddr a);
               d2 = d1\<lparr>d_remoteNetId := received (d_remoteNetId d1) bytes\<rparr>
           in if length bytes \<noteq> 6 then Done (Incomplete, d2)
              else
                case override_master (a_ethercatMaster a) d2 of
                  None \<Rightarrow> Done (Threw, d2)
                | Some d3 \<Rightarrow>
                    if d_paramTableSize d3 < 1 then Done (Incomplete, d3)
                    else
                      case call (ab_createParam lib ''Default access'' asynParamNotDefined) d3 of
                        ((status, index), d4) \<Rightarrow>
                          if status \<noteq> asynSuccess then Done (Incomplete, d4)
                          else
                            let d5 = (set_param 0 (default_param index (d_params d4 ! 0)) d4)
                                       \<lparr>d_paramCount := d_paramCount d4 + 1\<rparr>
                            in start_ports lib self (a_amsport a) fuel d5)"

section \<open>The shell command\<close>

text \<open>
  The globals of the file: the driver object, and whether EPICS allows callbacks, with its last state.
\<close>

record 'e ioc =
  adsAsynPortObj :: "'e driver option"
  allowCallbackEpicsState :: bool
  currentEpicsState :: int

definition at_least_0 :: "int \<Rightarrow> int \<Rightarrow> int" where
  "at_least_0 standard v = (if v < 0 then standard else v)"

definition time_source :: "int \<Rightarrow> ADSTIMESOURCE" where
  "time_source v = (if v = 0 then ADS_TIME_BASE_PLC else ADS_TIME_BASE_EPICS)"

definition configure_args ::
  "string \<Rightarrow> string \<Rightarrow> string \<Rightarrow> nat \<Rightarrow> nat \<Rightarrow> int \<Rightarrow> int \<Rightarrow> int \<Rightarrow> int \<Rightarrow> int \<Rightarrow> string option \<Rightarrow> start_args" where
  "configure_args portName ipaddr amsaddr amsport asynParamTableSize noAutoConnect sampleTimeMS delayTimeMS
     timeoutMS timeSource override =
     \<lparr>a_portName = portName, a_ipaddr = ipaddr, a_amsaddr = amsaddr, a_amsport = amsport,
      a_paramTableSize = wrap_signed 4 (int asynParamTableSize), a_autoConnect = (noAutoConnect = 0),
      a_defaultSampleTimeMS = at_least_0 100 sampleTimeMS, a_maxDelayTimeMS = at_least_0 500 delayTimeMS,
      a_adsTimeoutMS = at_least_0 2000 timeoutMS, a_defaultTimeSource = time_source timeSource,
      a_ethercatMaster = override\<rparr>"

text \<open>
  The result is the status that the command returns, \<open>None\<close> for an exception.  An object that
  the constructor left half-built is kept like a complete one.
\<close>

definition adsAsynPortDriverConfigure ::
  "('e, 'z) start_lib_scheme \<Rightarrow> nat \<Rightarrow> nat \<Rightarrow> string option \<Rightarrow> string option \<Rightarrow> string option \<Rightarrow> nat \<Rightarrow> nat \<Rightarrow>
     int \<Rightarrow> int \<Rightarrow> int \<Rightarrow> int \<Rightarrow> int \<Rightarrow> string option \<Rightarrow> 'e \<Rightarrow> 'e ioc \<Rightarrow> (int option \<times> 'e ioc) run" where
  "adsAsynPortDriverConfigure lib self fuel portName ipaddr amsaddr amsport asynParamTableSize noAutoConnect
     sampleTimeMS delayTimeMS timeoutMS timeSource override e g =
     (case (portName, ipaddr, amsaddr) of
        (Some port, Some ip, Some ams) \<Rightarrow>
          if port = [] \<or> port = ''-h'' then Done (Some (- 1), g)
          else
            run_bind (adsAsynPortDriver lib self fuel
                        (configure_args port ip ams amsport asynParamTableSize noAutoConnect sampleTimeMS
                           delayTimeMS timeoutMS timeSource override) e) (\<lambda>(r, d).
              if r = Threw then Done (None, g)
              else Done (Some 0, g\<lparr>adsAsynPortObj := Some (snd (call (initHookRegister lib) d))\<rparr>))
      | _ \<Rightarrow> Done (Some (- 1), g))"

definition adsSetLocalAddress :: "('e, 'z) start_lib_scheme \<Rightarrow> string option \<Rightarrow> 'e \<Rightarrow> 'e" where
  "adsSetLocalAddress lib local_ams_id e =
     (case local_ams_id of
        None \<Rightarrow> e
      | Some s \<Rightarrow> if length s < 11 then e else AdsSetLocalAddress lib s e)"

section \<open>The hook of the IOC\<close>

definition getEpicsState :: "('e, 'z) ads_lib_scheme \<Rightarrow> int \<Rightarrow> 'e ioc \<Rightarrow> 'e ioc" where
  "getEpicsState lib state g =
     (case adsAsynPortObj g of
        None \<Rightarrow> g
      | Some d \<Rightarrow>
          (if state = sdk lib ''initHookAfterScanInit''
           then g\<lparr>allowCallbackEpicsState := True, adsAsynPortObj := Some (d\<lparr>d_bulkOK := True\<rparr>)\<rparr>
           else g)\<lparr>currentEpicsState := state\<rparr>)"

section \<open>The destructor\<close>

fun release_params :: "('e, 'z) ads_lib_scheme \<Rightarrow> nat list \<Rightarrow> 'e driver \<Rightarrow> 'e driver" where
  "release_params lib [] d = d"
| "release_params lib (i # is) d =
     release_params lib is
       (if d_connectedAds d
        then (case adsDelDataCallback lib (nat (d_adsPort d mod 2 ^ 16)) (d_params d ! i) d of
                (_, p1, d1) \<Rightarrow>
                  (case adsReleaseSymbolicHandle lib (nat (d_adsPort d mod 2 ^ 16)) p1 True d1 of
                     (_, p2, d2) \<Rightarrow> set_param i p2 d2))
        else d)"

text \<open>
  The flag ends the threads, and the destructor waits for them; the state is the one they leave.
  Freeing is not modelled, except that the objects of the AMS ports are gone.
\<close>

definition destroy :: "('e, 'z) ads_lib_scheme \<Rightarrow> 'e driver \<Rightarrow> 'e driver" where
  "destroy lib d =
     (let d1 = d\<lparr>d_stopThreads := True\<rparr>;
          d2 = (release_params lib [0..<d_paramCount d1] d1)\<lparr>d_amsPortList := []\<rparr>
      in snd (call (AdsPortCloseEx lib (d_adsPort d2)) d2))"

section \<open>What the start leaves alone\<close>

text \<open>
  The members that neither a guard of another thread than 0 nor connecting nor the discovery of the
  EtherCAT master changes.
\<close>

definition start_view ::
  "'e driver \<Rightarrow> (AmsClientPortEntry option \<times> int \<times> bool \<times> bool \<times> int \<times> bool) \<times> amsPortInfo list \<times> AmsNetId \<times>
     octet_buffer \<times> datacbinfo list \<times> (BulkReadInfo list \<times> nat \<times> tsentry list) \<times> adsParamInfo list \<times> nat \<times> (string \<rightharpoonup> int) \<times> int" where
  "start_view d = ((d_clientPorts d 0, d_adsPort d, d_bulkOK d, d_stopThreads d, d_notConnectedCounter d, d_autoConnect d), d_amsPortList d,
     d_remoteNetId d, d_octetAsciiBuffer d, d_datacbqueue d,
     (d_bulk d, d_bulkTScnt d, d_bulkTS d), table_of d)"

lemma call_result: "call f d = (r, d') \<Longrightarrow> f (env d) = (r, env d')"
  by (auto simp: call_def split: prod.splits)

lemma view_call: "call f d = (r, d') \<Longrightarrow> start_view d' = start_view d"
  by (auto simp: start_view_def table_of_def call_def split: prod.splits)

lemma view_enter: "t \<noteq> 0 \<Longrightarrow> start_view (snd (guard_enter lib t d)) = start_view d"
  by (auto simp: guard_enter_def addAdsClientPortNumberForThreadId_def start_view_def table_of_def call_def
      split: option.split prod.splits)

lemma view_leave: "t \<noteq> 0 \<Longrightarrow> start_view (guard_leave lib t d) = start_view d"
  by (auto simp: guard_leave_def delAdsClientPortNumberForThreadId_def Let_def start_view_def table_of_def
      call_def split: option.split prod.splits)

lemma enter_port: "d_clientPorts d 0 \<noteq> None \<Longrightarrow> \<exists>cp d1. guard_enter lib t d = (Some cp, d1)"
  by (auto simp: guard_enter_def addAdsClientPortNumberForThreadId_def call_def isInvalidPortNumber_def
      getAdsClientPortNumberForThreadId_def split: option.splits prod.splits)

lemma view_add_route: "start_view (snd (adsAddRoute lib d)) = start_view d"
  by (auto simp: adsAddRoute_def start_view_def table_of_def call_def split: prod.splits)

lemma view_del_route: "start_view (snd (adsDelRoute lib force d)) = start_view d"
  by (auto simp: adsDelRoute_def Let_def start_view_def table_of_def)

lemma view_connect_ads: "start_view (snd (adsConnect lib cp d)) = start_view d"
proof -
  let ?d1 = "if d_routeAdded d then d
      else case adsAddRoute lib d of (stat, d') \<Rightarrow> if stat \<noteq> asynSuccess then snd (adsDelRoute lib True d') else d'"
  have "start_view ?d1 = start_view d"
    using view_add_route [of lib d] by (auto simp: view_del_route split: prod.splits)
  moreover have "start_view (snd (adsConnect lib cp d)) = start_view ?d1"
    by (auto simp: adsConnect_def Let_def dest!: view_call split: prod.splits)
  ultimately show ?thesis by simp
qed

lemma view_ecat_route: "start_view (snd (adsAddEthercatRoute lib d)) = start_view d"
  by (auto simp: adsAddEthercatRoute_def start_view_def table_of_def call_def split: prod.splits)

lemma view_ecat: "ecat_frame d d' \<Longrightarrow> start_view d' = start_view d"
  unfolding ecat_frame_def by (erule ssubst) (simp add: start_view_def table_of_def)

lemma view_connected: "start_view (d\<lparr>d_connectedAds := c\<rparr>) = start_view d"
  by (simp add: start_view_def table_of_def)

lemma connect_body_outcome:
  assumes "connect_body lib cp d = (stat, d')"
  shows "start_view d' = start_view d \<and> (stat = asynSuccess \<longrightarrow> d_connectedAds d')"
proof -
  obtain s1 d1 where 1: "adsConnect lib cp d = (s1, d1)" by (metis prod.exhaust)
  obtain s2 d2 where 2: "(if ethercatMasterIsAvailable d1 then adsAddEthercatRoute lib d1 else (asynSuccess, d1)) = (s2, d2)"
    by (metis prod.exhaust)
  obtain s3 d3 where 3: "call (ab_connect lib) d2 = (s3, d3)" by (metis prod.exhaust)
  have "start_view d1 = start_view d" "start_view d2 = start_view d1" "start_view d3 = start_view d2"
    using view_connect_ads [of lib cp d] 1 view_ecat_route [of lib d1] 2 view_call [OF 3] by (auto split: if_splits)
  then show ?thesis
    using assms 1 2 3 by (auto simp: connect_body_def view_connected split: if_splits)
qed

text \<open>A body inside a guard of a thread other than 0, whose default port is there.\<close>

lemma with_guard_view:
  assumes "with_guard lib t body d = Done (r, d')" and "t \<noteq> 0" and "d_clientPorts d 0 \<noteq> None"
  obtains cp d1 x d2 where "guard_enter lib t d = (Some cp, d1)" and "start_view d1 = start_view d"
    and "body cp d1 = Done (x, d2)" and "r = Some x" and "d' = guard_leave lib t d2"
    and "start_view d' = start_view d2"
proof -
  obtain cp d1 where e: "guard_enter lib t d = (Some cp, d1)" using enter_port [OF assms(3)] by blast
  moreover have "start_view d1 = start_view d" using view_enter [OF assms(2), of lib d] e by simp
  moreover obtain x d2 where "body cp d1 = Done (x, d2)" "r = Some x" "d' = guard_leave lib t d2"
    using assms(1) e by (auto simp: with_guard_def run_bind_Done_iff)
  ultimately show thesis using that view_leave [OF assms(2)] by metis
qed

lemma leave_connected: "d_connectedAds (guard_leave lib t d) = d_connectedAds d"
  by (auto simp: guard_leave_def delAdsClientPortNumberForThreadId_def Let_def call_def split: option.split prod.splits)

lemma connect_outcome:
  assumes "connect lib self d = Done (r, d')" and "self \<noteq> 0" and "d_clientPorts d 0 \<noteq> None"
  shows "r \<noteq> None \<and> start_view d' = start_view d \<and> (r = Some asynSuccess \<longrightarrow> d_connectedAds d')"
  using assms(1) unfolding connect_def
proof (rule with_guard_view [OF _ assms(2,3)])
  fix cp d1 x d2
  assume v: "start_view d1 = start_view d" "r = Some x" "d' = guard_leave lib self d2" "start_view d' = start_view d2"
    and b: "(Done (connect_body lib cp d1) :: (asynStatus \<times> 'a driver) run) = Done (x, d2)"
  from b have "connect_body lib cp d1 = (x, d2)" by simp
  from connect_body_outcome [OF this] v show ?thesis by (auto simp: leave_connected)
qed

lemma resolved_master:
  fixes lib d cp
  defines "d' \<equiv> if ethercatMasterIsResolved d then d else snd (resolveEthercatMasterAmsNetId lib cp d)"
  shows "start_view d' = start_view d" "d_connectedAds d' = d_connectedAds d" "d_ethercatMasterNetIdResolved d'"
proof -
  have "ecat_frame d d' \<and> d_ethercatMasterNetIdResolved d'"
    using resolve_settled [of d lib cp]
    by (simp add: d'_def ethercatMasterIsResolved_def ecat_settled_def ecat_frame_refl)
  then show "start_view d' = start_view d" "d_connectedAds d' = d_connectedAds d" "d_ethercatMasterNetIdResolved d'"
    using view_ecat [of d d'] keep_ecat [of d d'] by (simp_all add: keep_def)
qed

lemma route_keeps:
  "start_view (snd (adsAddEthercatRoute lib d)) = start_view d"
  "d_connectedAds (snd (adsAddEthercatRoute lib d)) = d_connectedAds d"
  "d_ethercatMasterNetIdResolved (snd (adsAddEthercatRoute lib d)) = d_ethercatMasterNetIdResolved d"
  by (simp_all add: view_ecat_route) (simp_all add: adsAddEthercatRoute_def call_def case_prod_beta)

lemma start_round_outcome:
  assumes "start_round lib self cp amsport d = Done (r, d')" and "self \<noteq> 0" and "d_clientPorts d 0 \<noteq> None"
  shows "r \<noteq> Raised \<and> start_view d' = start_view d \<and>
    (r = Ready \<longrightarrow> d_connectedAds d' \<and> d_ethercatMasterNetIdResolved d')"
proof -
  obtain stat d1 where c: "connect lib self d = Done (stat, d1)"
    and k: "(if stat = None then Done (Raised, d1) else if stat \<noteq> Some asynSuccess then Done (Again, d1)
       else case adsReadState lib cp (amsport mod 2 ^ 16) d1 of
           ((stat1, adsState, _), d2) \<Rightarrow>
             if stat1 \<noteq> asynSuccess then Done (Again, snd (disconnect lib d2))
             else if int adsState = sdk lib ''ADSSTATE_RUN''
             then (let d3 = (if ethercatMasterIsResolved d2 then d2 else snd (resolveEthercatMasterAmsNetId lib cp d2))
                   in Done (Ready, if ethercatMasterIsAvailable d3 then snd (adsAddEthercatRoute lib d3) else d3))
             else Done (Again, d2)) = Done (r, d')"
    using assms(1) unfolding start_round_def by (auto simp: run_bind_Done_iff)
  note o = connect_outcome [OF c assms(2,3)]
  show ?thesis
  proof (cases "stat = Some asynSuccess")
    case False
    then show ?thesis using k o by auto
  next
    case True
    obtain s1 st er d2 where s: "adsReadState lib cp (amsport mod 2 ^ 16) d1 = ((s1, st, er), d2)" by (metis prod.exhaust)
    have v: "start_view d2 = start_view d1" "d_connectedAds d2 = d_connectedAds d1"
      using s by (auto simp: adsReadState_def start_view_def table_of_def call_def split: prod.splits)
    have dis: "start_view (snd (disconnect lib d2)) = start_view d2"
      by (auto simp: disconnect_def start_view_def table_of_def call_def split: prod.splits)
    define d3 where "d3 = (if ethercatMasterIsResolved d2 then d2 else snd (resolveEthercatMasterAmsNetId lib cp d2))"
    have e: "start_view d3 = start_view d2" "d_connectedAds d3 = d_connectedAds d2" "d_ethercatMasterNetIdResolved d3"
      unfolding d3_def using resolved_master [of d2 lib cp] by simp_all
    have "r = Again \<and> (d' = snd (disconnect lib d2) \<or> d' = d2) \<or>
        r = Ready \<and> (d' = d3 \<or> d' = snd (adsAddEthercatRoute lib d3))"
      using k True s unfolding d3_def by (auto simp: Let_def split: if_splits)
    then show ?thesis using o True v dis e route_keeps [of lib d3] by (elim disjE conjE) simp_all
  qed
qed

lemma connect_loop_outcome:
  assumes "connect_loop lib self cp amsport fuel d = Done (r, d')" and "self \<noteq> 0" and "d_clientPorts d 0 \<noteq> None"
  shows "r = Constructed \<and> start_view d' = start_view d \<and> d_connectedAds d' \<and> d_ethercatMasterNetIdResolved d'"
  using assms(1,3)
proof (induction fuel arbitrary: d)
  case (Suc fuel)
  then obtain s d1 where s: "start_round lib self cp amsport d = Done (s, d1)"
    and k: "(case s of Again \<Rightarrow> connect_loop lib self cp amsport fuel d1 | Ready \<Rightarrow> Done (Constructed, d1)
       | Raised \<Rightarrow> Done (Threw, d1)) = Done (r, d')"
    by (auto simp: run_bind_Done_iff)
  note o = start_round_outcome [OF s assms(2) Suc.prems(2)]
  then have "d_clientPorts d1 0 \<noteq> None" using Suc.prems(2) by (simp add: start_view_def)
  with o k Suc.IH [of d1] show ?case by (cases s) auto
qed simp

section \<open>A controller that comes up\<close>

text \<open>
  The controller and the library come up: \<open>wait\<close> bounds how often the driver still has to ask for
  the timeout, which it does in every round, until all requests of the start succeed.
\<close>

definition comes_up :: "('e, 'z) ads_lib_scheme \<Rightarrow> ('e \<Rightarrow> nat) \<Rightarrow> bool" where
  "comes_up lib wait \<longleftrightarrow>
     (\<forall>e. wait (snd (AdsPortOpenEx lib e)) \<le> wait e) \<and> (\<forall>p e. wait (snd (AdsPortCloseEx lib p e)) \<le> wait e) \<and>
     (\<forall>a i e. wait (snd (AdsAddRoute lib a i e)) \<le> wait e) \<and> (\<forall>a e. wait (AdsDelRoute lib a e) \<le> wait e) \<and>
     (\<forall>c e. wait (snd (AdsSyncGetTimeoutEx lib c e)) \<le> wait e - 1) \<and>
     (\<forall>c t e. wait (snd (AdsSyncSetTimeoutEx lib c t e)) \<le> wait e) \<and>
     (\<forall>e. wait (snd (ab_connect lib e)) \<le> wait e) \<and> (\<forall>e. wait (snd (ab_disconnect lib e)) \<le> wait e) \<and>
     (\<forall>c a e. wait (snd (AdsSyncReadStateReqEx lib c a e)) \<le> wait e) \<and>
     (\<forall>e. wait e = 0 \<longrightarrow>
        (\<forall>a i. fst (AdsAddRoute lib a i e) = 0) \<and> (\<forall>c. fst (AdsSyncGetTimeoutEx lib c e) = 0) \<and>
        (\<forall>c t. fst (AdsSyncSetTimeoutEx lib c t e) = 0) \<and> fst (ab_connect lib e) = asynSuccess \<and>
        (\<forall>c a. fst (fst (AdsSyncReadStateReqEx lib c a e)) = 0 \<and>
                int (snd (fst (AdsSyncReadStateReqEx lib c a e))) = sdk lib ''ADSSTATE_RUN''))"

lemma waitD:
  assumes "comes_up lib wait"
  shows "wait (snd (AdsPortOpenEx lib e)) \<le> wait e" "wait (snd (AdsPortCloseEx lib p e)) \<le> wait e"
    "wait (snd (AdsAddRoute lib a i e)) \<le> wait e" "wait (AdsDelRoute lib a e) \<le> wait e"
    "wait (snd (AdsSyncGetTimeoutEx lib c e)) \<le> wait e - 1" "wait (snd (AdsSyncSetTimeoutEx lib c t e)) \<le> wait e"
    "wait (snd (ab_connect lib e)) \<le> wait e" "wait (snd (ab_disconnect lib e)) \<le> wait e"
    "wait (snd (AdsSyncReadStateReqEx lib c aa e)) \<le> wait e"
  using assms by (simp_all add: comes_up_def)

lemma upD:
  assumes "comes_up lib wait" and "wait e = 0"
  shows "fst (AdsAddRoute lib a i e) = 0" "fst (AdsSyncGetTimeoutEx lib c e) = 0"
    "fst (AdsSyncSetTimeoutEx lib c t e) = 0" "fst (ab_connect lib e) = asynSuccess"
    "fst (fst (AdsSyncReadStateReqEx lib c aa e)) = 0"
    "int (snd (fst (AdsSyncReadStateReqEx lib c aa e))) = sdk lib ''ADSSTATE_RUN''"
  using assms by (auto simp: comes_up_def)

lemma wait_enter: "comes_up lib wait \<Longrightarrow> wait (env (snd (guard_enter lib t d))) \<le> wait (env d)"
  by (auto simp: guard_enter_def addAdsClientPortNumberForThreadId_def case_prod_beta waitD split: option.split)

lemma wait_leave: "comes_up lib wait \<Longrightarrow> wait (env (guard_leave lib t d)) \<le> wait (env d)"
  using waitD(2) [of lib wait]
  by (fastforce simp: guard_leave_def delAdsClientPortNumberForThreadId_def Let_def case_prod_beta split: option.split)

lemma wait_add_route:
  assumes "comes_up lib wait"
  shows "wait (env (snd (adsAddRoute lib d))) \<le> wait (env d)"
    and "wait (env d) = 0 \<Longrightarrow> fst (adsAddRoute lib d) = asynSuccess"
  using assms by (auto simp: adsAddRoute_def case_prod_beta waitD upD)

lemma wait_del_route: "comes_up lib wait \<Longrightarrow> wait (env (snd (adsDelRoute lib force d))) \<le> wait (env d)"
  using waitD(4) [of lib wait] by (auto simp: adsDelRoute_def Let_def intro: le_trans)

lemma wait_ecat_route:
  assumes "comes_up lib wait"
  shows "wait (env (snd (adsAddEthercatRoute lib d))) \<le> wait (env d)"
    and "wait (env d) = 0 \<Longrightarrow> fst (adsAddEthercatRoute lib d) = asynSuccess"
  using assms by (auto simp: adsAddEthercatRoute_def case_prod_beta waitD upD)

lemma wait_connect_ads:
  assumes "comes_up lib wait"
  shows "wait (env (snd (adsConnect lib cp d))) \<le> wait (env d) - 1"
    and "wait (env d) = 0 \<Longrightarrow> fst (adsConnect lib cp d) = asynSuccess"
proof -
  define d1 where "d1 = (if d_routeAdded d then d
      else case adsAddRoute lib d of (stat, d') \<Rightarrow> if stat \<noteq> asynSuccess then snd (adsDelRoute lib True d') else d')"
  have 1: "wait (env d1) \<le> wait (env d)"
    using wait_add_route(1) [OF assms, of d] wait_del_route [OF assms, of True "snd (adsAddRoute lib d)"]
    by (auto simp: d1_def case_prod_beta)
  obtain s2 d2 where g: "call (AdsSyncGetTimeoutEx lib cp) d1 = (s2, d2)" by (metis prod.exhaust)
  obtain s3 d3 where t: "call (AdsSyncSetTimeoutEx lib cp (nat (d_adsTimeoutMS d2 mod 2 ^ 32))) d2 = (s3, d3)"
    by (metis prod.exhaust)
  have e: "adsConnect lib cp d =
      (if s2 \<noteq> 0 then (asynError, d2) else (if s3 \<noteq> 0 then asynError else asynSuccess, d3))"
    using g t unfolding adsConnect_def d1_def [symmetric] Let_def by simp
  have 2: "wait (env d2) \<le> wait (env d) - 1" and u2: "wait (env d) = 0 \<Longrightarrow> s2 = 0"
    using waitD(5) [OF assms, of cp "env d1"] upD(2) [OF assms, of "env d1" cp] 1 call_result [OF g] by auto
  have 3: "wait (env d3) \<le> wait (env d2)" and u3: "wait (env d2) = 0 \<Longrightarrow> s3 = 0"
    using waitD(6) [OF assms, of cp "nat (d_adsTimeoutMS d2 mod 2 ^ 32)" "env d2"] call_result [OF t]
      upD(3) [OF assms, of "env d2" cp "nat (d_adsTimeoutMS d2 mod 2 ^ 32)"]
    by (simp, simp)
  show "wait (env (snd (adsConnect lib cp d))) \<le> wait (env d) - 1" unfolding e using 2 3 by auto
  show "fst (adsConnect lib cp d) = asynSuccess" if "wait (env d) = 0"
    unfolding e using 2 u2 u3 that by simp
qed

lemma wait_connect_body:
  assumes "comes_up lib wait"
  shows "wait (env (snd (connect_body lib cp d))) \<le> wait (env d) - 1"
    and "wait (env d) = 0 \<Longrightarrow> fst (connect_body lib cp d) = asynSuccess"
proof -
  obtain s1 d1 where 1: "adsConnect lib cp d = (s1, d1)" by (metis prod.exhaust)
  obtain s2 d2 where 2: "(if ethercatMasterIsAvailable d1 then adsAddEthercatRoute lib d1 else (asynSuccess, d1)) = (s2, d2)"
    by (metis prod.exhaust)
  obtain s3 d3 where 3: "call (ab_connect lib) d2 = (s3, d3)" by (metis prod.exhaust)
  have w1: "wait (env d1) \<le> wait (env d) - 1" and u1: "wait (env d) = 0 \<Longrightarrow> s1 = asynSuccess"
    using wait_connect_ads(1) [OF assms, of cp d] wait_connect_ads(2) [OF assms, of d cp] 1 by auto
  have w2: "wait (env d2) \<le> wait (env d1)" and u2: "wait (env d1) = 0 \<Longrightarrow> s2 = asynSuccess"
    using wait_ecat_route [OF assms, of d1] 2 by (auto split: if_splits)
  have w3: "wait (env d3) \<le> wait (env d2)" and u3: "wait (env d2) = 0 \<Longrightarrow> s3 = asynSuccess"
    using 3 waitD(7) [OF assms, of "env d2"] upD(4) [OF assms, of "env d2"] call_result [OF 3] by (auto simp: prod_eq_iff)
  have e: "connect_body lib cp d = (if s1 \<noteq> asynSuccess then (asynError, d1) else if s2 \<noteq> asynSuccess then (asynError, d2)
      else if s3 \<noteq> asynSuccess then (asynError, d3) else (asynSuccess, d3\<lparr>d_connectedAds := True\<rparr>))"
    using 1 2 3 by (simp add: connect_body_def)
  show "wait (env (snd (connect_body lib cp d))) \<le> wait (env d) - 1" unfolding e using w1 w2 w3 by auto
  show "fst (connect_body lib cp d) = asynSuccess" if "wait (env d) = 0"
    unfolding e using w1 w2 w3 u1 u2 u3 that by simp
qed

lemma start_round_progress:
  assumes "comes_up lib wait" and "d_clientPorts d 0 \<noteq> None"
  shows "\<exists>r d'. start_round lib self cp amsport d = Done (r, d') \<and> (r = Again \<longrightarrow> wait (env d') \<le> wait (env d) - 1) \<and>
    (wait (env d) = 0 \<longrightarrow> r = Ready)"
proof -
  obtain c d1 where g: "guard_enter lib self d = (Some c, d1)" using enter_port [OF assms(2)] by blast
  define d2 where "d2 = guard_leave lib self (snd (connect_body lib c d1))"
  have k: "connect lib self d = Done (Some (fst (connect_body lib c d1)), d2)"
    using g by (simp add: connect_def with_guard_def d2_def case_prod_beta)
  have w1: "wait (env d1) \<le> wait (env d)" using wait_enter [OF assms(1), of self d] g by simp
  have w2: "wait (env d2) \<le> wait (env d) - 1"
    using wait_connect_body(1) [OF assms(1), of c d1] wait_leave [OF assms(1), of self "snd (connect_body lib c d1)"] w1
    unfolding d2_def by linarith
  obtain s1 st er d3 where s: "adsReadState lib cp (amsport mod 2 ^ 16) d2 = ((s1, st, er), d3)" by (metis prod.exhaust)
  have w3: "wait (env d3) \<le> wait (env d2)"
    and u3: "wait (env d2) = 0 \<Longrightarrow> s1 = asynSuccess \<and> int st = sdk lib ''ADSSTATE_RUN''"
    using s waitD(9) [OF assms(1), of cp "server d2 (amsport mod 2 ^ 16)" "env d2"]
      upD(5,6) [OF assms(1), of "env d2" cp "server d2 (amsport mod 2 ^ 16)"]
    by (auto simp: adsReadState_def call_def split: prod.splits if_splits)
  have w4: "wait (env (snd (disconnect lib d3))) \<le> wait (env d3)"
    using waitD(8) [OF assms(1), of "env d3"] by (simp add: disconnect_def case_prod_beta)
  have u1: "wait (env d) = 0 \<Longrightarrow> fst (connect_body lib c d1) = asynSuccess"
    using wait_connect_body(2) [OF assms(1), of d1 c] w1 by simp
  have u: "wait (env d) = 0 \<Longrightarrow> s1 = asynSuccess \<and> int st = sdk lib ''ADSSTATE_RUN''" using w2 u3 by simp
  have w5: "wait (env (snd (disconnect lib d3))) \<le> wait (env d) - 1" "wait (env d3) \<le> wait (env d) - 1"
    using w2 w3 w4 by simp_all
  show ?thesis
    unfolding start_round_def k using w2 w5 u1 u s by (auto simp: Let_def)
qed

lemma connect_loop_progress:
  assumes "comes_up lib wait" and "self \<noteq> 0" and "d_clientPorts d 0 \<noteq> None" and "wait (env d) < fuel"
  shows "\<exists>d'. connect_loop lib self cp amsport fuel d = Done (Constructed, d')"
  using assms(3,4)
proof (induction fuel arbitrary: d)
  case (Suc fuel)
  obtain r d1 where r: "start_round lib self cp amsport d = Done (r, d1)"
    and a: "r = Again \<Longrightarrow> wait (env d1) \<le> wait (env d) - 1" and z: "wait (env d) = 0 \<Longrightarrow> r = Ready"
    using start_round_progress [OF assms(1) Suc.prems(1), of self cp amsport] by metis
  note o = start_round_outcome [OF r assms(2) Suc.prems(1)]
  show ?case
  proof (cases r)
    case Again
    then have "wait (env d1) < fuel" using a z Suc.prems(2) by fastforce
    moreover have "d_clientPorts d1 0 \<noteq> None" using o Suc.prems(1) by (simp add: start_view_def)
    ultimately show ?thesis using Suc.IH [of d1] r Again by simp
  qed (use o r in simp_all)
qed simp

end
