(* ===== verification/Ads_Access.thy ===== *)
theory Ads_Access
  imports Ads_SymbolIo Ads_ClientPorts
begin

text \<open>
  The entry points of asyn for values: \<^verbatim>\<open>readInt32\<close>, \<^verbatim>\<open>readInt64\<close>,
  \<^verbatim>\<open>readFloat64\<close>, \<^verbatim>\<open>writeInt32\<close>, \<^verbatim>\<open>writeInt64\<close>,
  \<^verbatim>\<open>writeFloat64\<close> and the array functions over
  \<^verbatim>\<open>adsGenericArrayRead\<close> and \<^verbatim>\<open>adsGenericArrayWrite\<close>.  Each body runs
  inside a client port guard; the thread that calls it is the argument \<open>self\<close>.
\<close>

record asynUser =
  au_reason :: int
  au_alarmStatus :: int
  au_timestamp :: epicsTimeStamp

section \<open>The image of a value\<close>

text \<open>The bytes that \<^verbatim>\<open>writeInt32\<close> stores in its buffer; \<open>None\<close>: refused type.\<close>

definition int32_image :: "ADSDATATYPEID \<Rightarrow> int \<Rightarrow> u8 list option" where
  "int32_image t value =
     (case t of
        ADST_INT8 \<Rightarrow> Some (le_bytes_int 1 value) | ADST_INT16 \<Rightarrow> Some (le_bytes_int 2 value)
      | ADST_INT32 \<Rightarrow> Some (le_bytes_int 4 value) | ADST_UINT8 \<Rightarrow> Some (le_bytes_int 1 value)
      | ADST_UINT16 \<Rightarrow> Some (le_bytes_int 2 value) | ADST_UINT32 \<Rightarrow> Some (le_bytes_int 4 value)
      | ADST_REAL32 \<Rightarrow> Some (le_bytes 4 (int_to_f32 value))
      | ADST_REAL64 \<Rightarrow> Some (le_bytes 8 (int_to_f64 value))
      | ADST_BIT \<Rightarrow> Some [if value > 0 then 1 else 0]
      | _ \<Rightarrow> None)"

definition int64_image :: "ADSDATATYPEID \<Rightarrow> int \<Rightarrow> u8 list option" where
  "int64_image t value =
     (case t of
        ADST_INT64 \<Rightarrow> Some (le_bytes_int 8 value) | ADST_UINT64 \<Rightarrow> Some (le_bytes_int 8 value)
      | _ \<Rightarrow> None)"

text \<open>A conversion of a double that is out of the range of the integer type is undefined.\<close>

definition f64_to_int :: "nat \<Rightarrow> int \<Rightarrow> int \<Rightarrow> int run" where
  "f64_to_int value lo hi =
     (case fp_trunc (f64_decode value) of
        None \<Rightarrow> Ub | Some v \<Rightarrow> if lo \<le> v \<and> v \<le> hi then Done v else Ub)"

definition f64_positive :: "nat \<Rightarrow> bool" where
  "f64_positive value =
     (case f64_decode value of FP_Nan s \<Rightarrow> False | FP_Inf s \<Rightarrow> \<not> s | FP_Fin s a k \<Rightarrow> \<not> s \<and> 0 < a)"

definition f64_signed_image :: "nat \<Rightarrow> nat \<Rightarrow> u8 list option run" where
  "f64_signed_image n value =
     run_bind (f64_to_int value (- (2 ^ (8 * n - 1))) (2 ^ (8 * n - 1) - 1)) (\<lambda>v. Done (Some (le_bytes_int n v)))"

definition f64_unsigned_image :: "nat \<Rightarrow> nat \<Rightarrow> u8 list option run" where
  "f64_unsigned_image n value =
     run_bind (f64_to_int value 0 (2 ^ (8 * n) - 1)) (\<lambda>v. Done (Some (le_bytes_int n v)))"

definition float64_image :: "ADSDATATYPEID \<Rightarrow> nat \<Rightarrow> u8 list option run" where
  "float64_image t value =
     (case t of
        ADST_INT8 \<Rightarrow> f64_signed_image 1 value | ADST_INT16 \<Rightarrow> f64_signed_image 2 value
      | ADST_INT32 \<Rightarrow> f64_signed_image 4 value | ADST_INT64 \<Rightarrow> f64_signed_image 8 value
      | ADST_UINT8 \<Rightarrow> f64_unsigned_image 1 value | ADST_UINT16 \<Rightarrow> f64_unsigned_image 2 value
      | ADST_UINT32 \<Rightarrow> f64_unsigned_image 4 value | ADST_UINT64 \<Rightarrow> f64_unsigned_image 8 value
      | ADST_REAL32 \<Rightarrow> Done (Some (le_bytes 4 (fp_to_f32 (f64_decode value))))
      | ADST_REAL64 \<Rightarrow> Done (Some (le_bytes 8 value))
      | ADST_BIT \<Rightarrow> Done (Some [if f64_positive value then 1 else 0])
      | _ \<Rightarrow> Done None)"

section \<open>Writing a scalar\<close>

text \<open>The parameter of a request, after the check of the index where the code has one.\<close>

definition param_at :: "'e driver \<Rightarrow> int \<Rightarrow> nat run" where
  "param_at d reason =
     (if 0 \<le> reason \<and> nat reason < length (d_params d) then Done (nat reason) else Ub)"

text \<open>
  Writing the state of the AMS port, for the parameter that stands for it: the alarm of an earlier
  failure is reset.
\<close>

definition write_ams_state ::
  "('e, 'z) ads_lib_scheme \<Rightarrow> nat \<Rightarrow> nat \<Rightarrow> int \<Rightarrow> 'e driver \<Rightarrow> asynStatus \<times> 'e driver" where
  "write_ams_state lib amsClientPort i value d =
     (let p = d_params d ! i
      in case adsWriteState lib amsClientPort (p_amsPort p) (nat (value mod 2 ^ 16)) d of
           (stat, d1) \<Rightarrow>
             if stat \<noteq> asynSuccess
             then (case setAlarmParam lib p (sdk lib ''WRITE_ALARM'') (sdk lib ''INVALID_ALARM'') d1 of
                     (st, p1, d2) \<Rightarrow> (st, set_param i p1 d2))
             else if p_alarmStatus p = sdk lib ''WRITE_ALARM''
             then (case setAlarmParam lib p (sdk lib ''NO_ALARM'') (sdk lib ''NO_ALARM'') d1 of
                     (st, p1, d2) \<Rightarrow> (st, set_param i p1 d2))
             else (asynSuccess, d1))"

text \<open>
  The rest of the three write functions, from the buffer on: \<open>img\<close> is what the buffer holds,
  \<open>valueSize\<close> the size of the EPICS type, \<open>base\<close> the call of the base class.
\<close>

definition write_image ::
  "('e, 'z) ads_lib_scheme \<Rightarrow> nat \<Rightarrow> nat \<Rightarrow> u8 list \<Rightarrow> nat \<Rightarrow> ('e \<Rightarrow> asynStatus \<times> 'e) \<Rightarrow> 'e driver \<Rightarrow>
     (asynStatus \<times> 'e driver) run" where
  "write_image lib amsClientPort i img valueSize base d =
     (let p = d_params d ! i;
          maxBytesToWrite = length img;
          buffer = img @ replicate (8 - length img) 0;
          p1 = (if valueSize > maxBytesToWrite \<or> valueSize > p_plcSize p
                then p\<lparr>p_plcDataTypeWarn := True\<rparr> else p)
      in if maxBytesToWrite \<noteq> p_plcSize p1 \<or> maxBytesToWrite = 0
         then (case setAlarmParam lib p1 (sdk lib ''WRITE_ALARM'') (sdk lib ''INVALID_ALARM'') d of
                 (_, p2, d1) \<Rightarrow> Done (asynError, set_param i p2 d1))
         else
           run_bind (adsWriteParam lib amsClientPort p1 buffer maxBytesToWrite d) (\<lambda>(stat, p2, d1).
             if stat \<noteq> asynSuccess
             then (case setAlarmParam lib p2 (sdk lib ''WRITE_ALARM'') (sdk lib ''INVALID_ALARM'') d1 of
                     (_, p3, d2) \<Rightarrow> Done (asynError, set_param i p3 d2))
             else
               (case (if p_alarmStatus p2 = sdk lib ''WRITE_ALARM''
                      then snd (setAlarmParam lib p2 (sdk lib ''NO_ALARM'') (sdk lib ''NO_ALARM'') d1)
                      else (p2, d1)) of
                  (p3, d2) \<Rightarrow> Done (call base (set_param i p3 d2)))))"

definition writeInt32 ::
  "('e, 'z) ads_lib_scheme \<Rightarrow> nat \<Rightarrow> asynUser \<Rightarrow> int \<Rightarrow> 'e driver \<Rightarrow>
     ((asynStatus \<times> asynUser) option \<times> 'e driver) run" where
  "writeInt32 lib self u value d0 =
     with_guard lib self (\<lambda>amsClientPort d.
       if au_reason u \<ge> int (d_paramCount d)
       then Done ((asynError, u\<lparr>au_alarmStatus := sdk lib ''WRITE_ALARM''\<rparr>), d)
       else
         run_bind (param_at d (au_reason u)) (\<lambda>i.
           let p = d_params d ! i
           in if p_isAdrCommand p \<and>
                 \<not> adsIsValidEthercatStateRequest (p_plcAbsAdrGroup p) (p_plcSize p) (p_plcDataType p) value
              then (case setAlarmParam lib p (sdk lib ''WRITE_ALARM'') (sdk lib ''INVALID_ALARM'') d of
                      (st, p1, d1) \<Rightarrow> Done ((st, u), set_param i p1 d1))
              else if p_dataSource p = ADS_DATASOURCE_AMS_STATE
              then (case write_ams_state lib amsClientPort i value d of (st, d1) \<Rightarrow> Done ((st, u), d1))
              else
                case Option.bind (adst_of (int (p_plcDataType p))) (\<lambda>t. int32_image t value) of
                  None \<Rightarrow> Done ((asynError, u), d)
                | Some img \<Rightarrow>
                    run_bind (write_image lib amsClientPort i img 4
                                (ab_writeValue lib asynParamInt32 (au_reason u) (nat (value mod 2 ^ 32))) d)
                      (\<lambda>(st, d1). Done ((st, u), d1)))) d0"

definition writeInt64 ::
  "('e, 'z) ads_lib_scheme \<Rightarrow> nat \<Rightarrow> asynUser \<Rightarrow> int \<Rightarrow> 'e driver \<Rightarrow>
     ((asynStatus \<times> asynUser) option \<times> 'e driver) run" where
  "writeInt64 lib self u value d0 =
     with_guard lib self (\<lambda>amsClientPort d.
       if au_reason u \<ge> int (d_paramCount d) then Done ((asynError, u), d)
       else
         run_bind (param_at d (au_reason u)) (\<lambda>i.
           let p = d_params d ! i
           in if p_dataSource p = ADS_DATASOURCE_AMS_STATE
              then (case write_ams_state lib amsClientPort i value d of (st, d1) \<Rightarrow> Done ((st, u), d1))
              else
                case Option.bind (adst_of (int (p_plcDataType p))) (\<lambda>t. int64_image t value) of
                  None \<Rightarrow> Done ((asynError, u), d)
                | Some img \<Rightarrow>
                    run_bind (write_image lib amsClientPort i img 8
                                (ab_writeValue lib asynParamInt64 (au_reason u) (nat (value mod 2 ^ 64))) d)
                      (\<lambda>(st, d1). Done ((st, u), d1)))) d0"

definition writeFloat64 ::
  "('e, 'z) ads_lib_scheme \<Rightarrow> nat \<Rightarrow> asynUser \<Rightarrow> nat \<Rightarrow> 'e driver \<Rightarrow>
     ((asynStatus \<times> asynUser) option \<times> 'e driver) run" where
  "writeFloat64 lib self u value d0 =
     with_guard lib self (\<lambda>amsClientPort d.
       if au_reason u \<ge> int (d_paramCount d) then Done ((asynError, u), d)
       else
         run_bind (param_at d (au_reason u)) (\<lambda>i.
           let p = d_params d ! i
           in if p_dataSource p = ADS_DATASOURCE_AMS_STATE
              then run_bind (f64_to_int value 0 65535) (\<lambda>v.
                     case write_ams_state lib amsClientPort i v d of (st, d1) \<Rightarrow> Done ((st, u), d1))
              else
                run_bind (case adst_of (int (p_plcDataType p)) of
                            None \<Rightarrow> Done None | Some t \<Rightarrow> float64_image t value) (\<lambda>im.
                  case im of
                    None \<Rightarrow> Done ((asynError, u), d)
                  | Some img \<Rightarrow>
                      run_bind (write_image lib amsClientPort i img 8
                                  (ab_writeValue lib asynParamFloat64 (au_reason u) value) d)
                        (\<lambda>(st, d1). Done ((st, u), d1))))) d0"

section \<open>Reading a scalar\<close>

text \<open>
  The body that the three read functions share; \<open>ty\<close> selects the function of the base class.
  The value is the bit pattern that the base class returns.
\<close>

definition read_scalar ::
  "('e, 'z) ads_lib_scheme \<Rightarrow> nat \<Rightarrow> asynParamType \<Rightarrow> asynUser \<Rightarrow> 'e driver \<Rightarrow>
     ((asynStatus \<times> nat option) \<times> 'e driver) run" where
  "read_scalar lib amsClientPort ty u d =
     run_bind (param_at d (au_reason u)) (\<lambda>i.
     run_bind (adsReadParam lib amsClientPort i (d_params d ! i) True d) (\<lambda>(stat, errorCode, p1, d1).
       if stat \<noteq> asynSuccess
       then (case setAlarmParam lib p1 (sdk lib ''READ_ALARM'') (sdk lib ''INVALID_ALARM'') d1 of
               (st, p2, d2) \<Rightarrow> Done ((st, None), set_param i p2 d2))
       else
         (case (if p_alarmStatus p1 = sdk lib ''READ_ALARM''
                then snd (setAlarmParam lib p1 (sdk lib ''NO_ALARM'') (sdk lib ''NO_ALARM'') d1)
                else (p1, d1)) of
            (p2, d2) \<Rightarrow>
              (case call (ab_readValue lib ty (au_reason u)) (set_param i p2 d2) of
                 ((st, v), d3) \<Rightarrow> Done ((st, Some v), d3)))))"

definition readInt32 ::
  "('e, 'z) ads_lib_scheme \<Rightarrow> nat \<Rightarrow> asynUser \<Rightarrow> 'e driver \<Rightarrow>
     ((asynStatus \<times> nat option) option \<times> 'e driver) run" where
  "readInt32 lib self u d0 =
     with_guard lib self (\<lambda>amsClientPort. read_scalar lib amsClientPort asynParamInt32 u) d0"

definition readFloat64 ::
  "('e, 'z) ads_lib_scheme \<Rightarrow> nat \<Rightarrow> asynUser \<Rightarrow> 'e driver \<Rightarrow>
     ((asynStatus \<times> nat option) option \<times> 'e driver) run" where
  "readFloat64 lib self u d0 =
     with_guard lib self (\<lambda>amsClientPort. read_scalar lib amsClientPort asynParamFloat64 u) d0"

definition readInt64 ::
  "('e, 'z) ads_lib_scheme \<Rightarrow> nat \<Rightarrow> asynUser \<Rightarrow> 'e driver \<Rightarrow>
     ((asynStatus \<times> nat option) option \<times> 'e driver) run" where
  "readInt64 lib self u d0 =
     with_guard lib self (\<lambda>amsClientPort d.
       if au_reason u \<ge> int (d_paramCount d) then Done ((asynError, None), d)
       else read_scalar lib amsClientPort asynParamInt64 u d) d0"

section \<open>Arrays\<close>

text \<open>The types are the same, or a 64-bit unsigned variable is accessed as a signed one.\<close>

definition extendedAllowedType :: "adsParamInfo \<Rightarrow> ADSDATATYPEID \<Rightarrow> bool" where
  "extendedAllowedType p allowed \<longleftrightarrow>
     int (p_plcDataType p) = adst_code allowed \<or>
     int (p_plcDataType p) = adst_code ADST_UINT64 \<and> allowed = ADST_INT64"

definition alarm_error ::
  "('e, 'z) ads_lib_scheme \<Rightarrow> nat \<Rightarrow> adsParamInfo \<Rightarrow> string \<Rightarrow> 'e driver \<Rightarrow> 'e driver" where
  "alarm_error lib i p alarm d =
     (case setAlarmParam lib p (sdk lib alarm) (sdk lib ''INVALID_ALARM'') d of
        (_, p1, d1) \<Rightarrow> set_param i p1 d1)"

text \<open>The alarm of an earlier failure is reset; other alarms stay.\<close>

definition alarm_reset ::
  "('e, 'z) ads_lib_scheme \<Rightarrow> nat \<Rightarrow> adsParamInfo \<Rightarrow> string \<Rightarrow> 'e driver \<Rightarrow> 'e driver" where
  "alarm_reset lib i p alarm d =
     (if p_alarmStatus p = sdk lib alarm
      then (case setAlarmParam lib p (sdk lib ''NO_ALARM'') (sdk lib ''NO_ALARM'') d of
              (_, p1, d1) \<Rightarrow> set_param i p1 d1)
      else set_param i p d)"

text \<open>
  The result: the status, the destination, \<^verbatim>\<open>*nBytesRead\<close> where it was set, and the
  asyn user with the time stamp of the data.
\<close>

definition adsGenericArrayRead ::
  "('e, 'z) ads_lib_scheme \<Rightarrow> asynUser \<Rightarrow> ADSDATATYPEID \<Rightarrow> u8 list option \<Rightarrow> nat \<Rightarrow> 'e driver \<Rightarrow>
     ((asynStatus \<times> u8 list option \<times> nat option \<times> asynUser) \<times> 'e driver) run" where
  "adsGenericArrayRead lib u allowedType epicsDataBuffer nEpicsBufferBytes d =
     (if au_reason u \<ge> int (d_paramCount d) then Done ((asynError, epicsDataBuffer, None, u), d)
      else
        run_bind (param_at d (au_reason u)) (\<lambda>i.
          let p = d_params d ! i
          in if \<not> extendedAllowedType p allowedType
             then Done ((asynError, epicsDataBuffer, None, u), alarm_error lib i p ''READ_ALARM'' d)
             else
               let bytesToWrite = min (p_plcSize p) nEpicsBufferBytes
               in case (p_arrayDataBuffer p, epicsDataBuffer) of
                    (Some buf, Some dst) \<Rightarrow>
                      run_bind (mem_read buf 0 bytesToWrite) (\<lambda>bs.
                      run_bind (mem_write dst 0 bs) (\<lambda>dst'.
                        Done ((asynSuccess, Some dst', Some bytesToWrite,
                               u\<lparr>au_timestamp := p_epicsTimestamp p\<rparr>),
                              alarm_reset lib i p ''READ_ALARM'' d)))
                  | _ \<Rightarrow> Done ((asynError, epicsDataBuffer, None, u), alarm_error lib i p ''READ_ALARM'' d)))"

definition adsGenericArrayWrite ::
  "('e, 'z) ads_lib_scheme \<Rightarrow> nat \<Rightarrow> asynUser \<Rightarrow> ADSDATATYPEID \<Rightarrow> u8 list \<Rightarrow> nat \<Rightarrow> 'e driver \<Rightarrow>
     (asynStatus \<times> 'e driver) run" where
  "adsGenericArrayWrite lib amsClientPort u allowedType data nEpicsBufferBytes d =
     (if au_reason u \<ge> int (d_paramCount d) then Done (asynError, d)
      else
        run_bind (param_at d (au_reason u)) (\<lambda>i.
          let p = d_params d ! i
          in if \<not> extendedAllowedType p allowedType
             then Done (asynError, alarm_error lib i p ''WRITE_ALARM'' d)
             else
               let bytesToWrite = min (p_plcSize p) nEpicsBufferBytes
               in run_bind (adsWriteParam lib amsClientPort p data bytesToWrite d) (\<lambda>(stat, p1, d1).
                    if stat \<noteq> asynSuccess
                    then Done (asynError, alarm_error lib i p1 ''WRITE_ALARM'' d1)
                    else
                      run_bind (case p_arrayDataBuffer p1 of
                                  None \<Rightarrow> Done p1
                                | Some buf \<Rightarrow>
                                    run_bind (mem_read data 0 bytesToWrite) (\<lambda>bs.
                                    run_bind (mem_write buf 0 bs) (\<lambda>buf'.
                                      Done (p1\<lparr>p_arrayDataBuffer := Some buf'\<rparr>)))) (\<lambda>p2.
                        Done (asynSuccess, alarm_reset lib i p2 ''WRITE_ALARM'' d1)))))"

text \<open>
  The functions of asyn: a null \<open>value\<close> is \<open>None\<close>; \<open>nIn\<close> of the result is the
  number of elements that was read.
\<close>

type_synonym array_read_result = "asynStatus \<times> u8 list option \<times> nat option \<times> asynUser"

definition array_read_as ::
  "('e, 'z) ads_lib_scheme \<Rightarrow> ADSDATATYPEID \<Rightarrow> nat \<Rightarrow> asynUser \<Rightarrow> u8 list option \<Rightarrow> nat \<Rightarrow> 'e driver \<Rightarrow>
     (array_read_result \<times> 'e driver) run" where
  "array_read_as lib allowedType w u value nElements d =
     run_bind (adsGenericArrayRead lib u allowedType value (nElements * w mod 2 ^ 64) d)
       (\<lambda>((stat, value', nBytesRead, u'), d1).
         if stat \<noteq> asynSuccess then Done ((asynError, value', None, u'), d1)
         else Done ((asynSuccess, value', map_option (\<lambda>n. n div w) nBytesRead, u'), d1))"

definition int8_allowed :: "adsParamInfo \<Rightarrow> ADSDATATYPEID" where
  "int8_allowed p =
     (if int (p_plcDataType p) = adst_code ADST_STRING then ADST_STRING
      else if int (p_plcDataType p) = adst_code ADST_BIT then ADST_BIT else ADST_INT8)"

definition readInt8Array ::
  "('e, 'z) ads_lib_scheme \<Rightarrow> nat \<Rightarrow> asynUser \<Rightarrow> u8 list option \<Rightarrow> nat \<Rightarrow> 'e driver \<Rightarrow>
     (array_read_result option \<times> 'e driver) run" where
  "readInt8Array lib self u value nElements d0 =
     with_guard lib self (\<lambda>amsClientPort d.
       if au_reason u \<ge> int (d_paramCount d) then Done ((asynError, value, None, u), d)
       else
         run_bind (param_at d (au_reason u)) (\<lambda>i.
           array_read_as lib (int8_allowed (d_params d ! i)) 1 u value nElements d)) d0"

definition readInt16Array ::
  "('e, 'z) ads_lib_scheme \<Rightarrow> nat \<Rightarrow> asynUser \<Rightarrow> u8 list option \<Rightarrow> nat \<Rightarrow> 'e driver \<Rightarrow>
     (array_read_result option \<times> 'e driver) run" where
  "readInt16Array lib self u value nElements d0 =
     with_guard lib self (\<lambda>amsClientPort. array_read_as lib ADST_INT16 2 u value nElements) d0"

definition readInt32Array ::
  "('e, 'z) ads_lib_scheme \<Rightarrow> nat \<Rightarrow> asynUser \<Rightarrow> u8 list option \<Rightarrow> nat \<Rightarrow> 'e driver \<Rightarrow>
     (array_read_result option \<times> 'e driver) run" where
  "readInt32Array lib self u value nElements d0 =
     with_guard lib self (\<lambda>amsClientPort. array_read_as lib ADST_INT32 4 u value nElements) d0"

definition readFloat32Array ::
  "('e, 'z) ads_lib_scheme \<Rightarrow> nat \<Rightarrow> asynUser \<Rightarrow> u8 list option \<Rightarrow> nat \<Rightarrow> 'e driver \<Rightarrow>
     (array_read_result option \<times> 'e driver) run" where
  "readFloat32Array lib self u value nElements d0 =
     with_guard lib self (\<lambda>amsClientPort. array_read_as lib ADST_REAL32 4 u value nElements) d0"

definition readInt64Array ::
  "('e, 'z) ads_lib_scheme \<Rightarrow> nat \<Rightarrow> asynUser \<Rightarrow> u8 list option \<Rightarrow> nat \<Rightarrow> 'e driver \<Rightarrow>
     (array_read_result option \<times> 'e driver) run" where
  "readInt64Array lib self u value nElements d0 =
     with_guard lib self (\<lambda>amsClientPort. array_read_as lib ADST_INT64 8 u value nElements) d0"

definition readFloat64Array ::
  "('e, 'z) ads_lib_scheme \<Rightarrow> nat \<Rightarrow> asynUser \<Rightarrow> u8 list option \<Rightarrow> nat \<Rightarrow> 'e driver \<Rightarrow>
     (array_read_result option \<times> 'e driver) run" where
  "readFloat64Array lib self u value nElements d0 =
     with_guard lib self (\<lambda>amsClientPort. array_read_as lib ADST_REAL64 8 u value nElements) d0"

definition writeInt8Array ::
  "('e, 'z) ads_lib_scheme \<Rightarrow> nat \<Rightarrow> asynUser \<Rightarrow> u8 list \<Rightarrow> nat \<Rightarrow> 'e driver \<Rightarrow>
     (asynStatus option \<times> 'e driver) run" where
  "writeInt8Array lib self u value nElements d0 =
     with_guard lib self (\<lambda>amsClientPort d.
       if au_reason u \<ge> int (d_paramCount d) then Done (asynError, d)
       else
         run_bind (param_at d (au_reason u)) (\<lambda>i.
           adsGenericArrayWrite lib amsClientPort u (int8_allowed (d_params d ! i)) value nElements d)) d0"

definition writeInt16Array ::
  "('e, 'z) ads_lib_scheme \<Rightarrow> nat \<Rightarrow> asynUser \<Rightarrow> u8 list \<Rightarrow> nat \<Rightarrow> 'e driver \<Rightarrow>
     (asynStatus option \<times> 'e driver) run" where
  "writeInt16Array lib self u value nElements d0 =
     with_guard lib self (\<lambda>amsClientPort.
       adsGenericArrayWrite lib amsClientPort u ADST_INT16 value (nElements * 2 mod 2 ^ 64)) d0"

definition writeInt32Array ::
  "('e, 'z) ads_lib_scheme \<Rightarrow> nat \<Rightarrow> asynUser \<Rightarrow> u8 list \<Rightarrow> nat \<Rightarrow> 'e driver \<Rightarrow>
     (asynStatus option \<times> 'e driver) run" where
  "writeInt32Array lib self u value nElements d0 =
     with_guard lib self (\<lambda>amsClientPort.
       adsGenericArrayWrite lib amsClientPort u ADST_INT32 value (nElements * 4 mod 2 ^ 64)) d0"

definition writeFloat32Array ::
  "('e, 'z) ads_lib_scheme \<Rightarrow> nat \<Rightarrow> asynUser \<Rightarrow> u8 list \<Rightarrow> nat \<Rightarrow> 'e driver \<Rightarrow>
     (asynStatus option \<times> 'e driver) run" where
  "writeFloat32Array lib self u value nElements d0 =
     with_guard lib self (\<lambda>amsClientPort.
       adsGenericArrayWrite lib amsClientPort u ADST_REAL32 value (nElements * 4 mod 2 ^ 64)) d0"

definition writeInt64Array ::
  "('e, 'z) ads_lib_scheme \<Rightarrow> nat \<Rightarrow> asynUser \<Rightarrow> u8 list \<Rightarrow> nat \<Rightarrow> 'e driver \<Rightarrow>
     (asynStatus option \<times> 'e driver) run" where
  "writeInt64Array lib self u value nElements d0 =
     with_guard lib self (\<lambda>amsClientPort.
       adsGenericArrayWrite lib amsClientPort u ADST_INT64 value (nElements * 8 mod 2 ^ 64)) d0"

text \<open>The size that the code computes is the square of the number of elements times 8.\<close>

definition writeFloat64Array ::
  "('e, 'z) ads_lib_scheme \<Rightarrow> nat \<Rightarrow> asynUser \<Rightarrow> u8 list \<Rightarrow> nat \<Rightarrow> 'e driver \<Rightarrow>
     (asynStatus option \<times> 'e driver) run" where
  "writeFloat64Array lib self u value nElements d0 =
     with_guard lib self (\<lambda>amsClientPort.
       adsGenericArrayWrite lib amsClientPort u ADST_REAL64 value (nElements * nElements * 8 mod 2 ^ 64)) d0"

section \<open>Values\<close>

text \<open>The values that a PLC type holds, as far as a 32-bit integer can express them.\<close>

definition holds_value :: "ADSDATATYPEID \<Rightarrow> int \<Rightarrow> bool" where
  "holds_value t v \<longleftrightarrow>
     (case t of
        ADST_INT8 \<Rightarrow> - 128 \<le> v \<and> v < 128 | ADST_INT16 \<Rightarrow> - 32768 \<le> v \<and> v < 32768
      | ADST_UINT8 \<Rightarrow> 0 \<le> v \<and> v < 256 | ADST_UINT16 \<Rightarrow> 0 \<le> v \<and> v < 65536
      | ADST_INT32 \<Rightarrow> - (2 ^ 31) \<le> v \<and> v < 2 ^ 31 | ADST_UINT32 \<Rightarrow> 0 \<le> v \<and> v < 2 ^ 32
      | ADST_BIT \<Rightarrow> v = 0 \<or> v = 1 | ADST_REAL64 \<Rightarrow> - (2 ^ 53) \<le> v \<and> v \<le> 2 ^ 53 | _ \<Rightarrow> False)"

lemma le_nat_le_bytes_int: "int (le_nat (le_bytes_int n v)) = v mod 256 ^ n"
  by (simp add: le_bytes_int_def mem_simps nat_mod_as_int)

lemma wrap_signed_eq:
  "wrap_signed n v = (if 2 * (v mod 256 ^ n) < 256 ^ n then v mod 256 ^ n else v mod 256 ^ n - 256 ^ n)"
  by (simp add: wrap_signed_def le_int_def le_nat_le_bytes_int Let_def)

lemma wrap_signed_iff: "0 < n \<Longrightarrow> wrap_signed n v = v \<longleftrightarrow> - (256 ^ n) \<le> 2 * v \<and> 2 * v < 256 ^ n"
proof
  assume "wrap_signed n v = v"
  then show "- (256 ^ n) \<le> 2 * v \<and> 2 * v < 256 ^ n"
    using le_int_range [of "le_bytes_int n v"] by (simp add: wrap_signed_def)
next
  assume n: "0 < n" and r: "- (256 ^ n) \<le> 2 * v \<and> 2 * v < 256 ^ n"
  show "wrap_signed n v = v"
  proof (cases "0 \<le> v")
    case True
    with r have "v mod 256 ^ n = v" by simp
    with r show ?thesis by (simp add: wrap_signed_eq)
  next
    case False
    have "v mod 256 ^ n = (v + 256 ^ n) mod 256 ^ n" by simp
    also have "\<dots> = v + 256 ^ n" using r False by (intro mod_pos_pos_trivial) auto
    finally show ?thesis using r False by (simp add: wrap_signed_eq)
  qed
qed

lemma wrap_unsigned_iff: "v mod 256 ^ n = v \<longleftrightarrow> 0 \<le> v \<and> v < (256 :: int) ^ n"
  by (metis mod_pos_pos_trivial pos_mod_bound pos_mod_sign zero_less_power zero_less_numeral)

text \<open>Reading an image back into 32 bits.\<close>

lemma back_signed:
  assumes "0 < n" and "n \<le> 4"
  shows "wrap_signed 4 (le_int (le_bytes_int n v)) = v \<longleftrightarrow> - (256 ^ n) \<le> 2 * v \<and> 2 * v < 256 ^ n"
proof -
  have le: "(256 :: int) ^ n \<le> 256 ^ 4" using assms(2) by (intro power_increasing) simp_all
  have "- (256 ^ n) \<le> 2 * wrap_signed n v \<and> 2 * wrap_signed n v < 256 ^ n"
    using le_int_range [of "le_bytes_int n v"] by (simp add: wrap_signed_def)
  with le have "wrap_signed 4 (wrap_signed n v) = wrap_signed n v" by (subst wrap_signed_iff) simp_all
  then have "wrap_signed 4 (le_int (le_bytes_int n v)) = wrap_signed n v" by (simp add: wrap_signed_def)
  then show ?thesis using wrap_signed_iff [OF assms(1)] by simp
qed

lemma back_unsigned:
  assumes "n < 4"
  shows "wrap_signed 4 (int (le_nat (le_bytes_int n v))) = v \<longleftrightarrow> 0 \<le> v \<and> v < 256 ^ n"
proof -
  define x where "x = v mod 256 ^ n"
  have "(256 :: int) ^ n \<le> 256 ^ 3" using assms by (intro power_increasing) simp_all
  moreover have "0 \<le> x" "x < (256 :: int) ^ n" by (simp_all add: x_def)
  ultimately have "0 \<le> x" "x < 256 ^ 3" by linarith+
  then have "wrap_signed 4 x = x" by (subst wrap_signed_iff) simp_all
  then have "wrap_signed 4 (v mod 256 ^ n) = v mod 256 ^ n" by (simp add: x_def)
  then show ?thesis using wrap_unsigned_iff [of v n] by (simp add: le_nat_le_bytes_int)
qed

lemma back_word: "wrap_signed 4 (int (le_nat (le_bytes_int 4 v))) = wrap_signed 4 v"
  by (simp add: le_nat_le_bytes_int wrap_signed_eq)

lemma fp_encode_bound: "fp_encode e m s a k < 2 ^ (e + m + 1)"
proof -
  have "(2 ^ e - 1) * 2 ^ m < (2 :: nat) ^ (e + m)" by (simp add: power_add diff_mult_distrib)
  then show ?thesis by (auto simp: fp_encode_def Let_def)
qed

text \<open>The bytes of an image are those of a scalar of the type, and they have a value.\<close>

lemma int32_image_back:
  assumes "- (2 ^ 31) \<le> v" and "v < 2 ^ 31" and "int32_image t v = Some img" and "t \<noteq> ADST_REAL32"
  shows "to_int_param t img = Some v \<longleftrightarrow> holds_value t v \<or> t = ADST_UINT32"
proof -
  have w4: "wrap_signed 4 v = v" using assms(1,2) by (subst wrap_signed_iff) simp_all
  have s1: "wrap_signed 4 (le_int (le_bytes_int 1 v)) = v \<longleftrightarrow> - 128 \<le> v \<and> v < 128"
    using back_signed [of 1 v] by auto
  have s2: "wrap_signed 4 (le_int (le_bytes_int 2 v)) = v \<longleftrightarrow> - 32768 \<le> v \<and> v < 32768"
    using back_signed [of 2 v] by auto
  have s4: "wrap_signed 4 (le_int (le_bytes_int 4 v)) = v" using back_signed [of 4 v] assms(1,2) by auto
  have u1: "wrap_signed 4 (int (le_nat (le_bytes_int 1 v))) = v \<longleftrightarrow> 0 \<le> v \<and> v < 256"
    using back_unsigned [of 1 v] by auto
  have u2: "wrap_signed 4 (int (le_nat (le_bytes_int 2 v))) = v \<longleftrightarrow> 0 \<le> v \<and> v < 65536"
    using back_unsigned [of 2 v] by auto
  have u4: "wrap_signed 4 (int (le_nat (le_bytes_int 4 v))) = v" by (simp add: back_word w4)
  show ?thesis
  proof (cases t)
    case ADST_REAL64
    have f: "fp_trunc (f64_decode (int_to_f64 v)) = Some v" using assms(1,2) by (intro int_f64_exact) simp
    have "int_to_f64 v < 2 ^ 64" using fp_encode_bound [of 11 52] by (simp add: int_to_f64_def)
    then have "le_nat (le_bytes 8 (int_to_f64 v)) = int_to_f64 v" by (simp add: mem_simps)
    moreover have "img = le_bytes 8 (int_to_f64 v)" using ADST_REAL64 assms(3) by (simp add: int32_image_def)
    ultimately have "le_nat img = int_to_f64 v" by simp
    with ADST_REAL64 assms(1,2) f show ?thesis
      by (simp add: to_int_param_def plc_int_def holds_value_def)
  next
    case ADST_BIT
    have "wrap_signed 4 (le_int [1]) = 1" "wrap_signed 4 (le_int [0]) = 0"
      by (simp_all add: wrap_signed_eq le_int_def)
    with ADST_BIT assms(3) show ?thesis
      by (auto simp: int32_image_def to_int_param_def plc_int_def holds_value_def split: if_splits)
  qed (use assms s1 s2 s4 u1 u2 u4 in
       \<open>simp_all add: int32_image_def to_int_param_def plc_int_def holds_value_def flip: One_nat_def, (force+)?\<close>)
qed

lemma int32_image_width:
  "int32_image t v = Some img \<Longrightarrow> length img = adst_width t \<and> adst_width t \<noteq> 0 \<and> Some asynParamInt32 \<noteq> array_type_of t"
  by (cases t) (auto simp: int32_image_def array_type_of_def)

lemma int32_image_value:
  assumes "- (2 ^ 31) \<le> v" and "v < 2 ^ 31" and "int32_image t v = Some img" and "t \<noteq> ADST_REAL32"
  shows "\<exists>w. to_int_param t img = Some w"
proof (cases "t = ADST_REAL64")
  case True
  then have "to_int_param t img = Some v"
    using int32_image_back [OF assms] assms(1,2) by (simp add: holds_value_def)
  then show ?thesis by blast
next
  case False
  then show ?thesis using assms(3,4) by (cases t) (auto simp: int32_image_def to_int_param_def plc_int_def)
qed

text \<open>The parameter that a request is about.\<close>

definition requested :: "'e driver \<Rightarrow> asynUser \<Rightarrow> adsParamInfo" where
  "requested d u = d_params d ! nat (au_reason u)"

lemma enter_frame:
  "guard_enter lib t d = (c, d1) \<Longrightarrow> d_params d1 = d_params d \<and> d_remoteNetId d1 = d_remoteNetId d"
  by (auto simp: guard_enter_def addAdsClientPortNumberForThreadId_def call_def split: option.splits prod.splits if_splits)

text \<open>A successful write to a symbol is one request for its handle.\<close>

lemma write_request:
  assumes "adsWriteParam lib cp p bs n d = Done (asynSuccess, p', d')" and "known_address p" and "\<not> p_isAdrCommand p"
  shows "\<exists>e. AdsSyncWriteReqEx lib cp (server d (p_amsPort p)) (sdk_u lib ''ADSIGRP_SYM_VALBYHND'') (p_hSymbolicHandle p)
    (take (p_plcSize p) bs) (env d) = (0, e)"
  using assms
  by (auto simp: adsWriteParam_def param_address_known address_of_def checkEthercatMasterForParam_def isEthercatStateParam_def
      adsTargetNetIdForParam_def server_def Let_def run_bind_Done_iff mem_read_def call_def split: if_splits prod.splits)

lemma write_image_request:
  assumes "write_image lib cp i img n base d = Done (asynSuccess, d')" and "known_address (d_params d ! i)"
    and "\<not> p_isAdrCommand (d_params d ! i)"
  shows "length img = p_plcSize (d_params d ! i) \<and>
    (\<exists>e. AdsSyncWriteReqEx lib cp (server d (p_amsPort (d_params d ! i))) (sdk_u lib ''ADSIGRP_SYM_VALBYHND'')
       (p_hSymbolicHandle (d_params d ! i)) img (env d) = (0, e))"
proof -
  define p where "p = d_params d ! i"
  define p1 where "p1 = (if n > length img \<or> n > p_plcSize p then p\<lparr>p_plcDataTypeWarn := True\<rparr> else p)"
  have p1: "known_address p1" "\<not> p_isAdrCommand p1" "p_plcSize p1 = p_plcSize p" "p_amsPort p1 = p_amsPort p"
    "p_hSymbolicHandle p1 = p_hSymbolicHandle p"
    using assms(2,3) by (simp_all add: p1_def p_def known_address_def)
  note w = assms(1) [unfolded write_image_def Let_def, folded p_def, folded p1_def]
  have len: "length img = p_plcSize p1" using w by (auto split: if_splits prod.splits)
  obtain p2 d1 where "adsWriteParam lib cp p1 (img @ replicate (8 - length img) 0) (length img) d = Done (asynSuccess, p2, d1)"
    using w by (auto simp: run_bind_Done_iff split: if_splits prod.splits)
  from write_request [OF this p1(1,2)] show ?thesis using len p1(3-5) by (simp flip: p_def)
qed

text \<open>
  C16: a successful writeInt32 to a symbol of type SINT, INT, DINT, USINT, UINT, UDINT, BIT or LREAL, whose
  handle is known, has sent a write request for this handle to the AMS port of the parameter at the
  controller, with as many bytes as the variable has, and the controller accepted it.  Taken from an answer
  with the same bytes, the value that the parameter gets is the value that was written exactly if the type
  can hold it; a UDINT, which cannot hold negative values, gives them back as well, since values pass asyn
  as signed 32-bit integers.  Otherwise the write succeeds all the same, with another value.
\<close>
theorem int32_write_read:
  assumes "writeInt32 lib self u v d = Done (Some (asynSuccess, u'), d')" and "- (2 ^ 31) \<le> v" and "v < 2 ^ 31"
    and "known_address (requested d u)" and "\<not> p_isAdrCommand (requested d u)"
    and "p_dataSource (requested d u) = ADS_DATASOURCE_PLC"
    and "adst_of (int (p_plcDataType (requested d u))) \<noteq> Some ADST_REAL32"
  shows "\<exists>t cp d1 img e. adst_of (int (p_plcDataType (requested d u))) = Some t \<and> guard_enter lib self d = (Some cp, d1) \<and>
    AdsSyncWriteReqEx lib cp (server d (p_amsPort (requested d u))) (sdk_u lib ''ADSIGRP_SYM_VALBYHND'')
      (p_hSymbolicHandle (requested d u)) img (env d1) = (0, e) \<and> length img = p_plcSize (requested d u) \<and>
    (\<forall>i q d2. p_plcDataType q = p_plcDataType (requested d u) \<longrightarrow> p_asynType q = asynParamInt32 \<longrightarrow>
       (\<exists>w. update_switch lib i q img d2 = Done (Some (call (ab_setIntegerParam lib (p_paramIndex q) w) d2)) \<and>
            (w = v \<longleftrightarrow> holds_value t v \<or> t = ADST_UINT32)))"
proof -
  let ?p = "requested d u"
  obtain c d1 where g: "guard_enter lib self d = (c, d1)" by (metis prod.exhaust)
  then obtain cp where c: "c = Some cp" using assms(1) by (cases c) (auto simp: writeInt32_def with_guard_def)
  have d1: "d_params d1 = d_params d" "server d1 = server d" using enter_frame [OF g] by (auto simp: server_def fun_eq_iff)
  let ?i = "nat (au_reason u)"
  have p: "d_params d1 ! ?i = ?p" by (simp add: d1 requested_def)
  obtain t img d2 where t: "adst_of (int (p_plcDataType ?p)) = Some t" "int32_image t v = Some img"
    and w: "write_image lib cp ?i img 4 (ab_writeValue lib asynParamInt32 (au_reason u) (nat (v mod 2 ^ 32))) d1 =
      Done (asynSuccess, d2)"
    using assms(1,5,6) g c p
    by (auto simp: writeInt32_def with_guard_def param_at_def Let_def run_bind_Done_iff bind_eq_Some_conv
        split: if_splits option.splits prod.splits)
  have r: "t \<noteq> ADST_REAL32" using assms(7) t(1) by simp
  have sent: "length img = p_plcSize ?p" "\<exists>e. AdsSyncWriteReqEx lib cp (server d (p_amsPort ?p))
      (sdk_u lib ''ADSIGRP_SYM_VALBYHND'') (p_hSymbolicHandle ?p) img (env d1) = (0, e)"
    using write_image_request [OF w] assms(4,5) unfolding p d1(2) by simp_all
  obtain x where x: "to_int_param t img = Some x" using int32_image_value [OF assms(2,3) t(2) r] by blast
  note same = int32_image_back [OF assms(2,3) t(2) r]
  note width = int32_image_width [OF t(2)]
  have "update_switch lib i q img d2 = Done (Some (call (ab_setIntegerParam lib (p_paramIndex q) x) d2))"
    if "p_plcDataType q = p_plcDataType ?p" "p_asynType q = asynParamInt32" for i q d2
    using that t(1) width x by (simp add: update_switch_def mem_read_def)
  then show ?thesis using t(1) g c sent x same by fastforce
qed

text \<open>A driver with one symbol of type INT; 40000 is too much for it and is written as another value.\<close>

definition one_symbol :: "unit driver" where
  "one_symbol = demo_driver\<lparr>d_paramCount := 1,
     d_params := [new_param\<lparr>p_plcAbsAdrValid := True, p_bSymbolicHandleValid := True, p_hSymbolicHandle := 5,
       p_amsPort := 851, p_plcSize := 2, p_plcDataType := 2\<rparr>]\<rparr>"

lemma int32_write_read_witness:
  "\<exists>u' d'. writeInt32 zero_lib 7 \<lparr>au_reason = 0, au_alarmStatus = 0, au_timestamp = \<lparr>secPastEpoch = 0, nsec = 0\<rparr>\<rparr> 40000
     one_symbol = Done (Some (asynSuccess, u'), d') \<and>
   (\<exists>w img. w \<noteq> 40000 \<and> length img = 2 \<and>
     update_switch zero_lib 0 ((d_params one_symbol ! 0)\<lparr>p_asynType := asynParamInt32\<rparr>) img one_symbol =
       Done (Some (call (ab_setIntegerParam zero_lib 0 w) one_symbol)))"
proof -
  let ?u = "\<lparr>au_reason = 0, au_alarmStatus = 0, au_timestamp = \<lparr>secPastEpoch = 0, nsec = 0\<rparr>\<rparr>"
  have t: "adst_of 2 = Some ADST_INT16" by code_simp
  note s = one_symbol_def demo_driver_def constructed_def zero_lib_def new_param_def
  obtain u' d' where w: "writeInt32 zero_lib 7 ?u 40000 one_symbol = Done (Some (asynSuccess, u'), d')"
    using t by (simp add: writeInt32_def with_guard_def guard_enter_def addAdsClientPortNumberForThreadId_def call_def
      isInvalidPortNumber_def param_at_def Let_def int32_image_def write_image_def adsWriteParam_def
      checkEthercatMasterForParam_def isEthercatStateParam_def param_address_def mem_read_def s)
  have r: "requested one_symbol ?u = d_params one_symbol ! 0" by (simp add: requested_def)
  let ?p = "d_params one_symbol ! 0"
  have p: "p_plcDataType ?p = 2" "p_plcSize ?p = 2" "p_paramIndex ?p = 0" "known_address ?p" "\<not> p_isAdrCommand ?p"
    "p_dataSource ?p = ADS_DATASOURCE_PLC"
    by (simp_all add: known_address_def s)
  obtain img where i: "length img = 2" "\<forall>i q d2. p_plcDataType q = 2 \<longrightarrow> p_asynType q = asynParamInt32 \<longrightarrow>
       (\<exists>w. update_switch (zero_lib :: unit ads_lib) i q img d2 =
             Done (Some (call (ab_setIntegerParam zero_lib (p_paramIndex q) w) d2)) \<and>
            (w = 40000 \<longleftrightarrow> holds_value ADST_INT16 40000))"
    using int32_write_read [OF w] p t by (auto simp: r)
  from i(2) [rule_format, of "?p\<lparr>p_asynType := asynParamInt32\<rparr>" 0 one_symbol] obtain x where
    "update_switch zero_lib 0 (?p\<lparr>p_asynType := asynParamInt32\<rparr>) img one_symbol =
       Done (Some (call (ab_setIntegerParam zero_lib 0 x) one_symbol))" "x \<noteq> 40000"
    using p by (auto simp: holds_value_def)
  then show ?thesis using w i(1) by blast
qed

section \<open>Properties of arrays and reads\<close>

lemma write_param_known:
  assumes "known_address p" and "adsWriteParam lib cp p bs n d = Done (asynSuccess, p', d')"
  shows "p' = p \<and> d_params d' = d_params d \<and> d_paramCount d' = d_paramCount d \<and> p_plcSize p \<le> length bs"
proof -
  obtain av d1 where chk: "checkEthercatMasterForParam lib cp p d = (av, d1)" by fastforce
  then have d1: "d_params d1 = d_params d" "d_paramCount d1 = d_paramCount d"
    by (auto dest!: check_frame elim!: ecat_frameE)
  from assms chk show ?thesis
    by (auto simp: adsWriteParam_def param_address_known Let_def run_bind_Done_iff mem_read_def call_def d1
        split: if_splits prod.splits)
qed

lemma alarm_reset_param:
  assumes "i < length (d_params d)"
  shows "\<exists>a s. d_params (alarm_reset lib i p alarm d) ! i = p\<lparr>p_alarmStatus := a, p_alarmSeverity := s\<rparr> \<and>
    length (d_params (alarm_reset lib i p alarm d)) = length (d_params d) \<and>
    d_paramCount (alarm_reset lib i p alarm d) = d_paramCount d"
proof (cases "p_alarmStatus p = sdk lib alarm")
  case False
  then show ?thesis
    using assms by (intro exI [of _ "p_alarmStatus p"] exI [of _ "p_alarmSeverity p"])
      (simp add: alarm_reset_def set_param_def)
next
  case True
  obtain st p1 d1 where al: "setAlarmParam lib p (sdk lib ''NO_ALARM'') (sdk lib ''NO_ALARM'') d = (st, p1, d1)"
    by (cases "setAlarmParam lib p (sdk lib ''NO_ALARM'') (sdk lib ''NO_ALARM'') d") auto
  from setAlarmParam_frame [OF al] obtain a s e where
    "p1 = p\<lparr>p_alarmStatus := a, p_alarmSeverity := s\<rparr>" "d1 = d\<lparr>env := e\<rparr>"
    unfolding alarm_frame_def env_frame_def by blast
  with True al assms show ?thesis by (auto simp: alarm_reset_def set_param_def)
qed

text \<open>
  C36: an array that was written successfully is what a following read of the array returns: the first
  \<^verbatim>\<open>plcSize\<close> bytes of the written data, in a destination that is long enough, with the
  rest of the destination unchanged, when the caller passes at least that many bytes.
\<close>
theorem array_write_read:
  assumes "adsGenericArrayWrite lib cp u t data n d = Done (asynSuccess, d')"
    and "known_address (requested d u)" and "p_arrayDataBuffer (requested d u) = Some buf"
    and "length buf = p_plcSize (requested d u)" and "p_plcSize (requested d u) \<le> n"
    and "p_plcSize (requested d u) \<le> length dst"
  shows "\<exists>u' d''. adsGenericArrayRead lib u t (Some dst) n d' =
    Done ((asynSuccess, Some (take (p_plcSize (requested d u)) data @ drop (p_plcSize (requested d u)) dst),
           Some (p_plcSize (requested d u)), u'), d'')"
proof -
  let ?i = "nat (au_reason u)" and ?p = "requested d u"
  from assms(1) have r: "0 \<le> au_reason u" "?i < length (d_params d)" "au_reason u < int (d_paramCount d)"
      and ext: "extendedAllowedType ?p t"
    by (auto simp: adsGenericArrayWrite_def param_at_def requested_def Let_def run_bind_Done_iff
        split: if_splits)
  have m: "min (p_plcSize ?p) n = p_plcSize ?p" using assms(5) by simp
  from assms(1) r ext obtain stat p1 d1 where
    w: "adsWriteParam lib cp ?p data (p_plcSize ?p) d = Done (stat, p1, d1)"
      "stat \<noteq> asynSuccess \<Longrightarrow> False"
    and fin: "stat = asynSuccess \<Longrightarrow> (case p_arrayDataBuffer p1 of
         None \<Rightarrow> Done p1
       | Some buf \<Rightarrow> run_bind (mem_read data 0 (p_plcSize ?p)) (\<lambda>bs.
           run_bind (mem_write buf 0 bs) (\<lambda>buf'. Done (p1\<lparr>p_arrayDataBuffer := Some buf'\<rparr>)))) =
       Done p2 \<Longrightarrow> d' = alarm_reset lib ?i p2 ''WRITE_ALARM'' d1" for p2
    by (auto simp: adsGenericArrayWrite_def param_at_def requested_def [symmetric] m Let_def run_bind_Done_iff
        not_le split: if_splits)
  have st: "stat = asynSuccess" using w(2) by blast
  from write_param_known [OF assms(2) w(1) [unfolded st]] have p1: "p1 = ?p" and d1: "d_params d1 = d_params d"
    "d_paramCount d1 = d_paramCount d" and len: "p_plcSize ?p \<le> length data" by auto
  let ?p2 = "?p\<lparr>p_arrayDataBuffer := Some (take (p_plcSize ?p) data)\<rparr>"
  have d': "d' = alarm_reset lib ?i ?p2 ''WRITE_ALARM'' d1"
    by (rule fin [OF st]) (simp add: p1 assms(3,4) len mem_read_def mem_write_def)
  obtain a s where q: "d_params d' ! ?i = ?p2\<lparr>p_alarmStatus := a, p_alarmSeverity := s\<rparr>"
      "length (d_params d') = length (d_params d)" "d_paramCount d' = d_paramCount d"
    using alarm_reset_param [of ?i d1 lib ?p2 "''WRITE_ALARM''"] r(2) d1 unfolding d' by auto
  show ?thesis
    using r q ext len assms(6)
    by (simp add: adsGenericArrayRead_def param_at_def m Let_def extendedAllowedType_def mem_read_def mem_write_def)
qed


text \<open>A driver with one parameter, an array of two 16-bit integers at an absolute address.\<close>

definition two_words :: "unit driver" where
  "two_words = demo_driver\<lparr>d_paramCount := 1,
     d_params := [new_param\<lparr>p_isAdrCommand := True, p_plcAbsAdrValid := True, p_plcAbsAdrGroup := 0x4020,
       p_amsPort := 851, p_plcSize := 4, p_plcDataType := 2, p_plcDataIsArray := True,
       p_arrayDataBuffer := Some [0, 0, 0, 0]\<rparr>]\<rparr>"

definition user0 :: asynUser where
  "user0 = \<lparr>au_reason = 0, au_alarmStatus = 0, au_timestamp = \<lparr>secPastEpoch = 0, nsec = 0\<rparr>\<rparr>"

lemmas two_words_simps = two_words_def user0_def demo_driver_def constructed_def zero_lib_def new_param_def
  requested_def known_address_def

lemma array_write_read_witness:
  "\<exists>d' u' d''. adsGenericArrayWrite zero_lib 1 user0 ADST_INT16 [1, 0, 2, 0] 4 two_words = Done (asynSuccess, d') \<and>
     adsGenericArrayRead zero_lib user0 ADST_INT16 (Some [9, 9, 9, 9, 9]) 4 d' =
       Done ((asynSuccess, Some [1, 0, 2, 0, 9], Some 4, u'), d'')"
proof -
  obtain d' where w: "adsGenericArrayWrite zero_lib 1 user0 ADST_INT16 [1, 0, 2, 0] 4 two_words = Done (asynSuccess, d')"
    by (simp add: adsGenericArrayWrite_def param_at_def extendedAllowedType_def adsWriteParam_def Let_def
        checkEthercatMasterForParam_def isEthercatStateParam_def ADSIGRP_ECAT_SLAVE_STATE_def
        param_address_def mem_read_def mem_write_def call_def alarm_reset_def set_param_def two_words_simps)
  have size: "p_plcSize (requested two_words user0) = 4" by (simp add: two_words_simps)
  have "\<exists>u' d''. adsGenericArrayRead zero_lib user0 ADST_INT16 (Some [9, 9, 9, 9, 9]) 4 d' =
    Done ((asynSuccess, Some (take (p_plcSize (requested two_words user0)) [1, 0, 2, 0] @
             drop (p_plcSize (requested two_words user0)) [9, 9, 9, 9, 9]),
           Some (p_plcSize (requested two_words user0)), u'), d'')"
    by (rule array_write_read [OF w, where buf = "[0, 0, 0, 0]"]) (simp_all add: two_words_simps)
  with w show ?thesis by (auto simp: size)
qed

text \<open>
  Writing an array with fewer bytes than the PLC variable has reads beyond the caller's data: the
  request always carries the size of the variable, whatever number of bytes the caller announced.
\<close>
theorem short_write_overreads:
  assumes "known_address (requested d u)" and "length data < p_plcSize (requested d u)"
    and "0 \<le> au_reason u" and "au_reason u < int (d_paramCount d)" and "nat (au_reason u) < length (d_params d)"
    and "extendedAllowedType (requested d u) t" and "\<not> d_stopThreads d"
    and "\<not> isEthercatStateParam (requested d u)"
  shows "adsGenericArrayWrite lib cp u t data (length data) d = Ub"
proof -
  have "adsWriteParam lib cp (requested d u) data n d = Ub" for n
    using assms(1,2,7,8)
    by (simp add: adsWriteParam_def checkEthercatMasterForParam_def Let_def param_address_known mem_read_def
        split: prod.splits)
  then show ?thesis
    using assms by (simp add: adsGenericArrayWrite_def param_at_def Let_def requested_def [symmetric])
qed

lemma short_write_overreads_witness:
  "adsGenericArrayWrite zero_lib 1 user0 ADST_INT16 [1, 0] (length [1 :: u8, 0]) two_words = Ub"
  by (rule short_write_overreads)
     (simp_all add: two_words_simps extendedAllowedType_def isEthercatStateParam_def ADSIGRP_ECAT_SLAVE_STATE_def)

text \<open>
  The read of a scalar whose request fails returns the status of setting the alarm: success whenever
  the alarm could be set, with no value.  So a failed read is visible in the alarm of the parameter only.
\<close>
theorem failed_scalar_read:
  assumes "adsReadParam lib cp (nat (au_reason u)) (requested d u) True d = Done (stat, err, p1, d1)"
    and "stat \<noteq> asynSuccess" and "0 \<le> au_reason u" and "nat (au_reason u) < length (d_params d)"
    and "setAlarmParam lib p1 (sdk lib ''READ_ALARM'') (sdk lib ''INVALID_ALARM'') d1 = (asynSuccess, p2, d2)"
  shows "read_scalar lib cp ty u d = Done ((asynSuccess, None), set_param (nat (au_reason u)) p2 d2)"
  using assms by (simp add: read_scalar_def param_at_def requested_def)

lemma failed_scalar_read_witness:
  "let d = two_words\<lparr>d_stopThreads := True\<rparr>
   in \<exists>d2. read_scalar zero_lib 1 asynParamInt32 user0 d = Done ((asynSuccess, None), d2)"
proof -
  let ?d = "two_words\<lparr>d_stopThreads := True\<rparr>"
  have r: "adsReadParam zero_lib 1 (nat (au_reason user0)) (requested ?d user0) True ?d =
      Done (asynError, 0, requested ?d user0, ?d)"
    by (simp add: adsReadParam_def)
  have "\<exists>p2 d2. setAlarmParam zero_lib (requested ?d user0) (sdk (zero_lib :: unit ads_lib) ''READ_ALARM'')
      (sdk (zero_lib :: unit ads_lib) ''INVALID_ALARM'') ?d = (asynSuccess, p2, d2)"
    by (simp add: setAlarmParam_def call_def Let_def zero_lib_def)
  then obtain p2 d2 where al: "setAlarmParam zero_lib (requested ?d user0) (sdk (zero_lib :: unit ads_lib) ''READ_ALARM'')
      (sdk (zero_lib :: unit ads_lib) ''INVALID_ALARM'') ?d = (asynSuccess, p2, d2)" by blast
  have "read_scalar zero_lib 1 asynParamInt32 user0 ?d = Done ((asynSuccess, None), set_param (nat (au_reason user0)) p2 d2)"
    by (rule failed_scalar_read [OF r _ _ _ al]) (simp_all add: two_words_simps)
  then show ?thesis unfolding Let_def by blast
qed

end
