(* ===== verification/Ads_Lifetime.thy ===== *)
theory Ads_Lifetime
  imports Ads_Startup Ads_Access
begin

text \<open>
  Properties of the life of the driver: what a finished constructor has established, that it finishes
  when the controller comes up, that nothing happens before EPICS has initialised its scans, what the
  shell command hides, and what the destructor gives back.
\<close>

section \<open>The constructed driver\<close>

text \<open>The object behind the default parameter: nothing is opened or started yet.\<close>

definition prepared :: "start_args \<Rightarrow> 'e driver \<Rightarrow> bool" where
  "prepared a d \<longleftrightarrow>
     created_ok d \<and> d_paramCount d = 1 \<and> d_createdParamsMap d = Map.empty \<and> d_clientPorts d = Map.empty \<and>
     map port_amsPort (d_amsPortList d) = [a_amsport a mod 2 ^ 16] \<and> a_amsport a mod 2 ^ 16 \<noteq> 0 \<and>
     d_remoteNetId d = scan_ams_address (a_amsaddr a) \<and> length (d_remoteNetId d) = 6 \<and>
     \<not> d_bulkOK d \<and> \<not> d_stopThreads d \<and> d_notConnectedCounter d = 0 \<and> d_autoConnect d = a_autoConnect a \<and>
     d_octetAsciiBuffer d = fresh_obuf \<and> d_datacbqueue d = [] \<and> map port_paramInfo (d_amsPortList d) = [None] \<and>
     d_bulk d = replicate MAXBULK new_bulk \<and> d_bulkTScnt d = 0"

definition start_object :: "start_args \<Rightarrow> 'e \<Rightarrow> 'e driver" where
  "start_object a e = constructed e (a_portName a) (a_ipaddr a) (a_amsport a) (nat (a_paramTableSize a))
     (a_autoConnect a) (a_defaultSampleTimeMS a) (a_maxDelayTimeMS a) (a_adsTimeoutMS a) (a_defaultTimeSource a)"

text \<open>The arguments with which the constructor does not end before it opens a port.\<close>

definition args_ok :: "start_args \<Rightarrow> bool" where
  "args_ok a \<longleftrightarrow> a_amsport a mod 2 ^ 16 \<noteq> 0 \<and> length (scan_ams_address (a_amsaddr a)) = 6 \<and> 1 \<le> a_paramTableSize a \<and>
     (case a_ethercatMaster a of None \<Rightarrow> True
      | Some s \<Rightarrow> s = [] \<or> fst (parseAmsNetId (Some s) (Some [0, 0, 0, 0, 0, 0])))"

text \<open>
  Six numbers with points between them are an address for the constructor, however large they are: they
  are taken modulo 256, where the override of the EtherCAT master is checked.
\<close>

lemma scan_ams_address_dotted:
  assumes "length vs = 6" and "\<forall>v \<in> set vs. v < 2 ^ 64"
  shows "scan_ams_address (dotted vs) = map word_of_nat vs"
proof -
  have "vs \<noteq> []" using assms(1) by auto
  from scan_dotted_show [OF this assms(2)] have "scan_dotted 6 (dotted vs) = (map (\<lambda>v. v mod 2 ^ 32) vs, Some [])"
    by (simp only: assms(1))
  then have "scan_ams_address (dotted vs) = map (word_of_nat \<circ> (\<lambda>v. v mod 2 ^ 32)) vs"
    by (simp add: scan_ams_address_def)
  moreover have "(word_of_nat (v mod 2 ^ 32) :: u8) = word_of_nat v" for v
    by (simp add: word_of_nat_eq_iff take_bit_eq_mod mod_mod_cancel)
  ultimately show ?thesis by (simp add: comp_def)
qed

lemma override_master_keeps:
  "override_master text d = Some d' \<Longrightarrow>
     start_view d' = start_view d \<and> d_clientPorts d' = d_clientPorts d \<and> env d' = env d"
  by (auto simp: override_master_def start_view_def table_of_def split: option.splits if_splits prod.splits bool.splits)

lemma override_master_ok:
  "d_ethercatMasterNetId d = [0, 0, 0, 0, 0, 0] \<Longrightarrow>
     override_master text d \<noteq> None \<longleftrightarrow>
     (case text of None \<Rightarrow> True | Some s \<Rightarrow> s = [] \<or> fst (parseAmsNetId (Some s) (Some [0, 0, 0, 0, 0, 0])))"
  by (auto simp: override_master_def parseAmsNetId_def split: option.splits prod.splits if_splits)

lemma prepared_default:
  assumes "start_view d = start_view ((snd (addNewAmsPortToList lib (a_amsport a mod 2 ^ 16) (start_object a e)))
      \<lparr>d_remoteNetId := received [0, 0, 0, 0, 0, 0] (scan_ams_address (a_amsaddr a))\<rparr>)"
    and "d_clientPorts d = Map.empty" and "args_ok a"
  shows "prepared a ((set_param 0 (default_param index (d_params d ! 0)) d)\<lparr>d_paramCount := d_paramCount d + 1\<rparr>)"
  using assms
  by (auto simp: prepared_def start_view_def table_of_def start_object_def constructed_def addNewAmsPortToList_def
      set_param_def created_ok_def links_def new_port_def args_ok_def received_def)

lemma constructor_reaches_ports:
  fixes lib :: "('e, 'z) start_lib_scheme"
  assumes "args_ok a"
  shows "(\<exists>r d. adsAsynPortDriver lib self fuel a e = Done (r, d) \<and> r = Incomplete \<and>
            fst (fst (ab_createParam lib ''Default access'' asynParamNotDefined e)) \<noteq> asynSuccess) \<or>
    (\<exists>d. prepared a d \<and> env d = snd (ab_createParam lib ''Default access'' asynParamNotDefined e) \<and>
         adsAsynPortDriver lib self fuel a e = start_ports lib self (a_amsport a) fuel d)"
proof -
  let ?d0 = "start_object a e"
  let ?d1 = "snd (addNewAmsPortToList lib (a_amsport a mod 2 ^ 16) ?d0)"
  let ?d2 = "?d1\<lparr>d_remoteNetId := received (d_remoteNetId ?d1) (scan_ams_address (a_amsaddr a))\<rparr>"
  have f: "d_amsportDefault ?d0 = a_amsport a mod 2 ^ 16" "d_remoteNetId ?d1 = [0, 0, 0, 0, 0, 0]"
    "d_ethercatMasterNetId ?d2 = [0, 0, 0, 0, 0, 0]" "d_clientPorts ?d2 = Map.empty" "env ?d2 = e"
    "d_paramTableSize ?d2 = a_paramTableSize a"
    using assms by (simp_all add: start_object_def constructed_def addNewAmsPortToList_def args_ok_def)
  have "override_master (a_ethercatMaster a) ?d2 \<noteq> None"
    using assms override_master_ok [OF f(3), of "a_ethercatMaster a"] by (simp add: args_ok_def)
  then obtain d3 where d3: "override_master (a_ethercatMaster a) ?d2 = Some d3" by blast
  note k = override_master_keeps [OF d3]
  have size: "\<not> d_paramTableSize d3 < 1" using k f(6) assms by (simp add: start_view_def table_of_def args_ok_def)
  obtain st index d4 where c: "call (ab_createParam lib ''Default access'' asynParamNotDefined) d3 = ((st, index), d4)"
    by (metis prod.exhaust)
  have st: "fst (fst (ab_createParam lib ''Default access'' asynParamNotDefined e)) = st"
    "env d4 = snd (ab_createParam lib ''Default access'' asynParamNotDefined e)"
    using call_result [OF c] k f(5) by (simp_all add: prod_eq_iff)
  let ?d5 = "(set_param 0 (default_param index (d_params d4 ! 0)) d4)\<lparr>d_paramCount := d_paramCount d4 + 1\<rparr>"
  have "d_clientPorts d4 = Map.empty" using c k f(4) by (auto simp: call_def split: prod.splits)
  then have p: "prepared a ?d5"
    using prepared_default [where lib = lib and a = a and e = e and index = index and d = d4] view_call [OF c] k f(2) assms
    by simp
  have e: "adsAsynPortDriver lib self fuel a e =
      (if st \<noteq> asynSuccess then Done (Incomplete, d4) else start_ports lib self (a_amsport a) fuel ?d5)"
    using assms f d3 size c unfolding adsAsynPortDriver_def start_object_def [symmetric]
    by (simp add: Let_def args_ok_def)
  show ?thesis
  proof (cases "st = asynSuccess")
    case True
    have "env ?d5 = snd (ab_createParam lib ''Default access'' asynParamNotDefined e)"
      using st(2) by (simp add: set_param_def)
    then show ?thesis using e p True by auto
  qed (use e st in auto)
qed

lemma constructed_args:
  assumes "adsAsynPortDriver lib self fuel a e = Done (Constructed, d)"
  shows "args_ok a"
proof -
  define d1 where "d1 = snd (addNewAmsPortToList lib (d_amsportDefault (start_object a e)) (start_object a e))"
  define d2 where "d2 = d1\<lparr>d_remoteNetId := received (d_remoteNetId d1) (scan_ams_address (a_amsaddr a))\<rparr>"
  have z: "d_ethercatMasterNetId d2 = [0, 0, 0, 0, 0, 0]" "d_paramTableSize d2 = int (nat (a_paramTableSize a))"
    "d_amsportDefault (start_object a e) = a_amsport a mod 2 ^ 16"
    by (simp_all add: d2_def d1_def start_object_def constructed_def addNewAmsPortToList_def)
  note c = assms [unfolded adsAsynPortDriver_def start_object_def [symmetric] Let_def, folded d1_def, folded d2_def]
  then obtain d3 where d3: "override_master (a_ethercatMaster a) d2 = Some d3"
    by (auto split: if_splits option.splits)
  note k = override_master_keeps [OF this]
  have "1 \<le> a_paramTableSize a" using c d3 k z(2) by (auto simp: start_view_def table_of_def split: if_splits)
  moreover have "a_amsport a mod 2 ^ 16 \<noteq> 0" "length (scan_ams_address (a_amsaddr a)) = 6"
    using c z(3) by (auto split: if_splits)
  ultimately show ?thesis using override_master_ok [OF z(1), of "a_ethercatMaster a"] d3 by (simp add: args_ok_def)
qed

lemma start_threads_keeps: "start_threads lib d = (r, d') \<Longrightarrow> start_view d' = start_view d"
  by (auto simp: start_threads_def dest!: view_call split: prod.splits if_splits)

lemma leave_resolved: "d_ethercatMasterNetIdResolved (guard_leave lib t d) = d_ethercatMasterNetIdResolved d"
  by (auto simp: guard_leave_def delAdsClientPortNumberForThreadId_def Let_def call_def split: option.split prod.splits)

lemma start_ports_outcome:
  assumes "start_ports lib self amsport fuel d = Done (Constructed, d')" and "self \<noteq> 0" and "d_clientPorts d = Map.empty"
  shows "d_connectedAds d' \<and> d_ethercatMasterNetIdResolved d' \<and> \<not> isInvalidPortNumber (d_adsPort d') \<and>
    d_clientPorts d' 0 = Some \<lparr>cp_port = d_adsPort d', cp_liveCount = 1\<rparr> \<and>
    start_view d' = start_view (d\<lparr>d_adsPort := d_adsPort d', d_clientPorts := d_clientPorts d'\<rparr>)"
proof -
  obtain p d1 where a: "addAdsClientPortNumberForThreadId lib 0 d = (p, d1)" by (metis prod.exhaust)
  let ?d2 = "d1\<lparr>d_adsPort := p\<rparr>"
  obtain r d5 where v: "\<not> isInvalidPortNumber p"
    and w: "with_guard lib self (\<lambda>amsClientPort d3. case start_threads lib d3 of (Some r, d4) \<Rightarrow> Done (r, d4)
        | (None, d4) \<Rightarrow> connect_loop lib self amsClientPort amsport fuel d4) ?d2 = Done (r, d5)"
    and r: "(case r of None \<Rightarrow> Threw | Some r1 \<Rightarrow> r1) = Constructed" "d5 = d'"
    using assms(1) a by (auto simp: start_ports_def Let_def run_bind_Done_iff split: if_splits)
  have d1: "d_clientPorts d1 0 = Some \<lparr>cp_port = p, cp_liveCount = 1\<rparr>"
      "start_view d1 = start_view (d\<lparr>d_clientPorts := d_clientPorts d1\<rparr>)"
    using a v assms(3) by (auto simp: addAdsClientPortNumberForThreadId_def start_view_def table_of_def call_def
        isInvalidPortNumber_def split: prod.splits if_splits)
  have "d_clientPorts ?d2 0 \<noteq> None" using d1 by simp
  from w assms(2) this show ?thesis
  proof (rule with_guard_view)
    fix cp d3 x d4
    assume g: "start_view d3 = start_view ?d2" and b: "(case start_threads lib d3 of (Some r, d4) \<Rightarrow> Done (r, d4)
        | (None, d4) \<Rightarrow> connect_loop lib self cp amsport fuel d4) = Done (x, d4)"
      and e: "r = Some x" "d5 = guard_leave lib self d4" "start_view d5 = start_view d4"
    have x: "x = Constructed" using r e by simp
    obtain q dt where t: "start_threads lib d3 = (q, dt)" by (metis prod.exhaust)
    have q: "q \<noteq> Some Constructed" using t by (auto simp: start_threads_def split: prod.splits if_splits)
    then have l: "connect_loop lib self cp amsport fuel dt = Done (Constructed, d4)"
      using b t x by (auto split: option.splits)
    have "start_view dt = start_view ?d2" using start_threads_keeps [OF t] g by simp
    moreover from this d1 have "d_clientPorts dt 0 \<noteq> None" by (simp add: start_view_def)
    ultimately show ?thesis
      using connect_loop_outcome [OF l assms(2)] e r d1 v
      by (auto simp: leave_connected leave_resolved start_view_def table_of_def)
  qed
qed

text \<open>
  C10: a constructor that returns with a connection has established everything that the entry points rely
  on, whatever the controller, the operating system and asyn answered: the driver is connected, its
  table holds the default parameter only and agrees with the empty map of created parameters, the
  default AMS port is the only one listed, the address of the controller is the one of the argument, the
  question of the EtherCAT master is settled, and thread 0 owns one valid client port, the default one.
\<close>
theorem driver_ready:
  assumes "adsAsynPortDriver lib self fuel a e = Done (Constructed, d)" and "self \<noteq> 0"
  shows "d_connectedAds d \<and> created_ok d \<and> d_paramCount d = 1 \<and> d_createdParamsMap d = Map.empty \<and>
    map port_amsPort (d_amsPortList d) = [a_amsport a mod 2 ^ 16] \<and>
    d_remoteNetId d = scan_ams_address (a_amsaddr a) \<and> length (d_remoteNetId d) = 6 \<and>
    d_ethercatMasterNetIdResolved d \<and> \<not> isInvalidPortNumber (d_adsPort d) \<and>
    d_clientPorts d 0 = Some \<lparr>cp_port = d_adsPort d, cp_liveCount = 1\<rparr>"
proof -
  obtain d0 where p: "prepared a d0" and s: "start_ports lib self (a_amsport a) fuel d0 = Done (Constructed, d)"
    using constructor_reaches_ports [OF constructed_args [OF assms(1)], of lib self fuel e] assms(1) by auto
  have "d_clientPorts d0 = Map.empty" using p by (simp add: prepared_def)
  note o = start_ports_outcome [OF s assms(2) this]
  then have "created_ok d" using p created_ok_table [of d d0] by (simp add: prepared_def start_view_def table_of_def)
  then show ?thesis using o p by (auto simp: prepared_def start_view_def table_of_def)
qed

section \<open>The end of the start\<close>

text \<open>The operating system and asyn grant what the constructor asks for.\<close>

definition grants :: "('e, 'z) start_lib_scheme \<Rightarrow> ('e \<Rightarrow> nat) \<Rightarrow> bool" where
  "grants lib wait \<longleftrightarrow>
     (\<forall>n e. fst (epicsThreadCreateOpt lib n e) \<and> wait (snd (epicsThreadCreateOpt lib n e)) \<le> wait e) \<and>
     (\<forall>s t e. fst (fst (ab_createParam lib s t e)) = asynSuccess \<and> wait (snd (ab_createParam lib s t e)) \<le> wait e) \<and>
     (\<forall>e. \<not> isInvalidPortNumber (fst (AdsPortOpenEx lib e)))"

lemma start_threads_granted:
  assumes "grants lib wait"
  obtains d' where "start_threads lib d = (None, d')" and "wait (env d') \<le> wait (env d)" and "start_view d' = start_view d"
proof -
  obtain r d' where t: "start_threads lib d = (r, d')" by (metis prod.exhaust)
  have g: "fst (epicsThreadCreateOpt lib n e)" "wait (snd (epicsThreadCreateOpt lib n e)) \<le> wait e" for n e
    using assms by (simp_all add: grants_def)
  have "r = None \<and> wait (env d') \<le> wait (env d)"
    using t g by (auto simp: start_threads_def case_prod_beta) (meson g(2) order_trans)
  then show thesis using that t start_threads_keeps [OF t] by auto
qed

lemma start_ports_progress:
  assumes "comes_up lib wait" and "grants lib wait" and "self \<noteq> 0" and "d_clientPorts d = Map.empty" and "wait (env d) < fuel"
  shows "\<exists>d'. start_ports lib self amsport fuel d = Done (Constructed, d')"
proof -
  obtain p d1 where a: "addAdsClientPortNumberForThreadId lib 0 d = (p, d1)" by (metis prod.exhaust)
  have "\<not> isInvalidPortNumber (fst (AdsPortOpenEx lib (env d)))" using assms(2) by (simp add: grants_def)
  then have v: "\<not> isInvalidPortNumber p" and d1: "d_clientPorts d1 0 \<noteq> None" and w1: "wait (env d1) \<le> wait (env d)"
    using a assms(4) waitD(1) [OF assms(1), of "env d"]
    by (auto simp: addAdsClientPortNumberForThreadId_def case_prod_beta split: if_splits)
  let ?d2 = "d1\<lparr>d_adsPort := p\<rparr>"
  have "d_clientPorts ?d2 0 \<noteq> None" using d1 by simp
  then obtain cp d3 where g: "guard_enter lib self ?d2 = (Some cp, d3)" using enter_port by blast
  have 3: "wait (env d3) \<le> wait (env ?d2)" "start_view d3 = start_view ?d2"
    using wait_enter [OF assms(1), of self ?d2] view_enter [OF assms(3), of lib ?d2] g by simp_all
  obtain d4 where t: "start_threads lib d3 = (None, d4)" and 4: "wait (env d4) \<le> wait (env d3)" "start_view d4 = start_view d3"
    using start_threads_granted [OF assms(2)] by blast
  have "d_clientPorts d4 0 \<noteq> None" using 3 4 d1 by (simp add: start_view_def)
  moreover have "wait (env d4) < fuel" using 3 4 w1 assms(5) by simp
  ultimately obtain d5 where "connect_loop lib self cp amsport fuel d4 = Done (Constructed, d5)"
    using connect_loop_progress [OF assms(1,3)] by blast
  then have "start_ports lib self amsport fuel d = Done (Constructed, guard_leave lib self d5)"
    using a v g t by (simp add: start_ports_def Let_def with_guard_def)
  then show ?thesis by blast
qed

text \<open>
  C11: the constructor does not wait for ever: if the controller comes up after any number of requests, it
  returns a connected driver, after at most one round more than the number of timeout requests that were
  still needed when it started, provided that the arguments are valid and the operating system and asyn
  grant threads, ports and the default parameter.
\<close>
theorem start_ends:
  assumes "comes_up lib wait" and "grants lib wait" and "args_ok a" and "self \<noteq> 0" and "wait e < fuel"
  shows "\<exists>d. adsAsynPortDriver lib self fuel a e = Done (Constructed, d)"
proof -
  have g: "fst (fst (ab_createParam lib s t e)) = asynSuccess" "wait (snd (ab_createParam lib s t e)) \<le> wait e" for s t
    using assms(2) by (simp_all add: grants_def)
  obtain d where p: "prepared a d" and w: "wait (env d) \<le> wait e"
    and e: "adsAsynPortDriver lib self fuel a e = start_ports lib self (a_amsport a) fuel d"
    using constructor_reaches_ports [OF assms(3), of lib self fuel e] g by metis
  have "d_clientPorts d = Map.empty" using p by (simp add: prepared_def)
  then show ?thesis unfolding e using start_ports_progress [OF assms(1,2,4)] w assms(5) by simp
qed

section \<open>The time before EPICS has started\<close>

lemma constructed_quiet:
  assumes "adsAsynPortDriver lib self fuel a e = Done (Constructed, d)" and "self \<noteq> 0"
  shows "\<not> d_bulkOK d \<and> \<not> d_stopThreads d"
proof -
  obtain d0 where p: "prepared a d0" and s: "start_ports lib self (a_amsport a) fuel d0 = Done (Constructed, d)"
    using constructor_reaches_ports [OF constructed_args [OF assms(1)], of lib self fuel e] assms(1) by auto
  have "d_clientPorts d0 = Map.empty" using p by (simp add: prepared_def)
  from start_ports_outcome [OF s assms(2) this] show ?thesis using p by (auto simp: prepared_def start_view_def)
qed

lemma hooks_outcome:
  assumes "adsAsynPortObj g = Some d"
  shows "\<exists>d'. adsAsynPortObj (fold (getEpicsState lib) hs g) = Some d' \<and>
    allowCallbackEpicsState (fold (getEpicsState lib) hs g) =
      (allowCallbackEpicsState g \<or> sdk lib ''initHookAfterScanInit'' \<in> set hs) \<and>
    d' = (if sdk lib ''initHookAfterScanInit'' \<in> set hs then d\<lparr>d_bulkOK := True\<rparr> else d)"
  using assms
proof (induction hs arbitrary: g d)
  case (Cons h hs)
  let ?g1 = "getEpicsState lib h g"
  obtain d1 where d1: "adsAsynPortObj ?g1 = Some d1" "d1 = (if h = sdk lib ''initHookAfterScanInit'' then d\<lparr>d_bulkOK := True\<rparr> else d)"
    and a: "allowCallbackEpicsState ?g1 = (allowCallbackEpicsState g \<or> h = sdk lib ''initHookAfterScanInit'')"
    using Cons.prems by (simp add: getEpicsState_def)
  show ?case using Cons.IH [OF d1(1)] d1(2) a by auto
qed simp

text \<open>
  C13: until the hook has reported the end of the initialisation of the scans, the four threads of a
  constructed driver do nothing: whatever other states of EPICS are reported, the driver is the one that
  the constructor left, the rounds of three threads end without a request or a change, and the thread for
  bulk reads still waits.  The report allows callbacks and polling at once.
\<close>
theorem threads_wait_for_scan_init:
  assumes "adsAsynPortDriver lib self fuel a e = Done (Constructed, d)" and "self \<noteq> 0"
    and "adsAsynPortObj g = Some d" and "\<not> allowCallbackEpicsState g" and "g' = fold (getEpicsState lib) hs g"
  shows "if sdk lib ''initHookAfterScanInit'' \<in> set hs
    then allowCallbackEpicsState g' \<and> adsAsynPortObj g' = Some (d\<lparr>d_bulkOK := True\<rparr>) \<and>
      bulkReadThread_wait (d\<lparr>d_bulkOK := True\<rparr>) = Some True
    else adsAsynPortObj g' = Some d \<and> bulkReadThread_wait d = None \<and>
      cyclicThread_round lib t cp (allowCallbackEpicsState g') d = Done (Cycle_next, d) \<and>
      dataCallbackThread_round lib (allowCallbackEpicsState g') d = Done (Cycle_next, d) \<and>
      triggerEpicsIoIntrCallbacksThread_round lib (allowCallbackEpicsState g') d = Done (Cycle_next, d)"
  using hooks_outcome [OF assms(3), of lib hs] constructed_quiet [OF assms(1,2)] assms(4,5)
  by (auto simp: bulkReadThread_wait_def cyclicThread_round_def dataCallbackThread_round_def
      triggerEpicsIoIntrCallbacksThread_round_def split: list.split)

section \<open>The shell command\<close>

text \<open>Negative times are replaced by their standard values, and an unknown source of time by EPICS.\<close>

lemma configure_standard:
  assumes "a = configure_args port ip ams amsport tableSize noAutoConnect sampleTimeMS delayTimeMS timeoutMS timeSource override"
  shows "0 \<le> a_defaultSampleTimeMS a \<and> 0 \<le> a_maxDelayTimeMS a \<and> 0 \<le> a_adsTimeoutMS a \<and>
    (0 \<le> sampleTimeMS \<longrightarrow> a_defaultSampleTimeMS a = sampleTimeMS) \<and>
    (a_defaultTimeSource a = ADS_TIME_BASE_PLC \<longleftrightarrow> timeSource = 0)"
  using assms by (simp add: configure_args_def at_least_0_def time_source_def)

text \<open>
  C30: the command reports success for a driver that was never built: an address of the controller
  without six numbers makes the constructor return early, and the command returns 0 and keeps the
  object, which has no parameter, no client port, no thread and no connection.
\<close>
theorem configure_hides_failure:
  assumes "port \<noteq> []" and "port \<noteq> ''-h''" and "amsport mod 2 ^ 16 \<noteq> 0" and "tableSize < 2 ^ 31"
    and "length (scan_ams_address ams) \<noteq> 6"
  shows "\<exists>g' d. adsAsynPortDriverConfigure lib self fuel (Some port) (Some ip) (Some ams) amsport tableSize noAutoConnect
      sampleTimeMS delayTimeMS timeoutMS timeSource override e g = Done (Some 0, g') \<and> adsAsynPortObj g' = Some d \<and>
    \<not> d_connectedAds d \<and> d_paramCount d = 0 \<and> d_clientPorts d = Map.empty \<and>
    env d = snd (initHookRegister lib e)"
proof -
  let ?a = "configure_args port ip ams amsport tableSize noAutoConnect sampleTimeMS delayTimeMS timeoutMS timeSource override"
  let ?o = "start_object ?a e"
  let ?d = "(snd (addNewAmsPortToList lib (d_amsportDefault ?o) ?o))
    \<lparr>d_remoteNetId := received (d_remoteNetId (snd (addNewAmsPortToList lib (d_amsportDefault ?o) ?o))) (scan_ams_address ams)\<rparr>"
  have a: "a_amsaddr ?a = ams" "a_amsport ?a = amsport" "\<not> a_paramTableSize ?a < 0"
    using assms(4) by (simp_all add: configure_args_def wrap_signed_eq)
  have k: "d_amsportDefault ?o = amsport mod 2 ^ 16" "\<not> d_connectedAds ?d" "d_paramCount ?d = 0"
    "d_clientPorts ?d = Map.empty" "env ?d = e"
    using a by (simp_all add: start_object_def constructed_def addNewAmsPortToList_def)
  have c: "adsAsynPortDriver lib self fuel ?a e = Done (Incomplete, ?d)"
    using a k(1) assms(3,5) unfolding adsAsynPortDriver_def start_object_def [symmetric] by (simp add: Let_def)
  show ?thesis
    using assms(1,2) k(2-) c by (simp add: adsAsynPortDriverConfigure_def call_def case_prod_beta)
qed

section \<open>The destructor\<close>

text \<open>What the library is asked to give back for the parameters: notification first, then the handle.\<close>

definition give_back :: "('e, 'z) ads_lib_scheme \<Rightarrow> nat \<Rightarrow> AmsNetId \<Rightarrow> adsParamInfo \<Rightarrow> 'e \<Rightarrow> 'e" where
  "give_back lib cp remote p e =
     (let plc = \<lparr>netId = remote, addr_port = p_amsPort p\<rparr>
      in snd (AdsSyncWriteReqEx lib cp plc (sdk_u lib ''ADSIGRP_SYM_RELEASEHND'') 0 (le_bytes 4 (p_hSymbolicHandle p))
                (snd (AdsSyncDelDeviceNotificationReqEx lib cp plc (p_hCallbackNotify p) e))))"

definition given_back :: "adsParamInfo \<Rightarrow> adsParamInfo" where
  "given_back p = p\<lparr>p_bCallbackNotifyValid := False, p_hCallbackNotify := no_handle,
     p_bSymbolicHandleValid := False, p_hSymbolicHandle := no_handle\<rparr>"

lemma release_step:
  "(case adsDelDataCallback lib cp p d of
      (_, p1, d1) \<Rightarrow> (case adsReleaseSymbolicHandle lib cp p1 True d1 of (_, p2, d2) \<Rightarrow> set_param i p2 d2)) =
   set_param i (given_back p) (d\<lparr>env := give_back lib cp (d_remoteNetId d) p (env d)\<rparr>)"
  by (simp add: adsDelDataCallback_def adsReleaseSymbolicHandle_def call_def case_prod_beta give_back_def
      given_back_def server_def Let_def)

lemma release_all:
  assumes "d_connectedAds d" and "n \<le> length (d_params d)" and "i \<le> n"
  shows "release_params lib [i..<n] d =
    d\<lparr>d_params := take i (d_params d) @ map given_back (drop i (take n (d_params d))) @ drop n (d_params d),
      env := fold (give_back lib (nat (d_adsPort d mod 2 ^ 16)) (d_remoteNetId d)) (drop i (take n (d_params d))) (env d)\<rparr>"
  using assms
proof (induction "n - i" arbitrary: i d)
  case (Suc m)
  let ?cp = "nat (d_adsPort d mod 2 ^ 16)"
  let ?p = "d_params d ! i"
  let ?d1 = "set_param i (given_back ?p) (d\<lparr>env := give_back lib ?cp (d_remoteNetId d) ?p (env d)\<rparr>)"
  have i: "i < n" "i < length (d_params d)" using Suc.hyps(2) Suc.prems(2) by simp_all
  have l: "release_params lib [i..<n] d = release_params lib [Suc i..<n] ?d1"
    using i Suc.prems(1) by (simp add: upt_conv_Cons release_step del: upt_Suc)
  have t: "drop i (take n (d_params d)) = ?p # drop (Suc i) (take n (d_params d))"
    using i by (simp add: Cons_nth_drop_Suc [symmetric])
  have "drop (Suc i) (take n ((d_params d)[i := x])) = drop (Suc i) (take n (d_params d))" for x
    by (simp add: take_update_swap)
  moreover have "take (Suc i) ((d_params d)[i := x]) = take i (d_params d) @ [x]" for x
    using i by (simp add: take_Suc_conv_app_nth)
  moreover have "drop n ((d_params d)[i := x]) = drop n (d_params d)" for x using i by simp
  ultimately show ?case
    unfolding l using Suc.hyps(1) [of "Suc i" ?d1] Suc.hyps(2) Suc.prems i t by (simp add: set_param_def)
qed simp

lemma release_disconnected: "\<not> d_connectedAds d \<Longrightarrow> release_params lib is d = d"
  by (induction "is") simp_all

text \<open>
  C12: the destructor ends every thread and gives back exactly what is in use: with the flag set, the next
  round of each thread ends it without a request, also the one that waits for its first bulk request.
  While connected, the notification and then the handle of every parameter in use are given back, in order, at the
  parameter's own AMS port, and no parameter keeps a valid handle; without a connection nothing is asked of
  the controller.  The default client port is closed last.
\<close>
theorem destroy_gives_back:
  assumes "d_paramCount d \<le> length (d_params d)" and "s = d\<lparr>d_stopThreads := True\<rparr>" and "d' = destroy lib d"
  shows "cyclicThread_round lib t cp allow s = Done (Cycle_break, s) \<and> bulkReadThread_round lib cp s = Done (Cycle_break, s) \<and>
    dataCallbackThread_round lib allow s = Done (Cycle_break, s) \<and>
    triggerEpicsIoIntrCallbacksThread_round lib allow s = Done (Cycle_break, s) \<and> bulkReadThread_wait s \<noteq> None \<and>
    env d' = snd (AdsPortCloseEx lib (d_adsPort d)
      (if d_connectedAds d
       then fold (give_back lib (nat (d_adsPort d mod 2 ^ 16)) (d_remoteNetId d)) (take (d_paramCount d) (d_params d)) (env d)
       else env d)) \<and>
    (d_connectedAds d \<longrightarrow>
      (\<forall>p \<in> set (take (d_paramCount d) (d_params d')). \<not> p_bCallbackNotifyValid p \<and> \<not> p_bSymbolicHandleValid p))"
proof -
  let ?used = "take (d_paramCount d) (d_params d)"
  let ?e = "if d_connectedAds d then fold (give_back lib (nat (d_adsPort d mod 2 ^ 16)) (d_remoteNetId d)) ?used (env d) else env d"
  have c: "d_paramCount s = d_paramCount d" "d_adsPort s = d_adsPort d" by (simp_all add: assms(2))
  obtain ps where r: "release_params lib [0..<d_paramCount d] s = s\<lparr>d_params := ps, env := ?e\<rparr>"
    and ps: "d_connectedAds d \<Longrightarrow> take (d_paramCount d) ps = map given_back ?used"
  proof (cases "d_connectedAds d")
    case True
    show thesis
      using release_all [of s "d_paramCount d" 0 lib] assms(1) True unfolding assms(2)
      by (intro that [of "map given_back ?used @ drop (d_paramCount d) (d_params d)"]) (simp_all add: assms(2))
  next
    case False
    show thesis
      using release_disconnected [of s lib "[0..<d_paramCount d]"] False unfolding assms(2)
      by (intro that [of "d_params d"]) (simp_all add: assms(2))
  qed
  have u: "env (s\<lparr>d_params := ps, env := e1, d_amsPortList := []\<rparr>) = e1"
    "d_params (s\<lparr>d_params := ps, env := e1, d_amsPortList := []\<rparr>) = ps" for e1 by simp_all
  have "d' = snd (call (AdsPortCloseEx lib (d_adsPort d)) (s\<lparr>d_params := ps, env := ?e, d_amsPortList := []\<rparr>))"
    unfolding assms(3) destroy_def Let_def assms(2) [symmetric] c r by (simp add: c)
  then have "env d' = snd (AdsPortCloseEx lib (d_adsPort d) ?e)" and "d_params d' = ps"
    by (simp_all only: call_simps call_params [OF prod.collapse [symmetric]] u)
  then have "env d' = snd (AdsPortCloseEx lib (d_adsPort d) ?e) \<and>
      (d_connectedAds d \<longrightarrow> take (d_paramCount d) (d_params d') = map given_back ?used)"
    using ps by simp
  moreover have "d_stopThreads s" by (simp add: assms(2))
  ultimately show ?thesis
    by (auto simp: cyclicThread_round_def bulkReadThread_round_def dataCallbackThread_round_def
        triggerEpicsIoIntrCallbacksThread_round_def bulkReadThread_wait_def given_back_def)
qed

section \<open>Examples\<close>

text \<open>A controller that refuses requests until the driver has asked for the timeout often enough.\<close>

definition late_lib :: "nat start_lib" where
  "late_lib = user_lib.extend
     (ads_lib.extend (zero_lib\<lparr>AdsSyncGetTimeoutEx := \<lambda>c e. (if e = 0 then 0 else 1, e - 1),
         AdsSyncReadStateReqEx := \<lambda>c a e. ((0, if e = 0 then 12 else 5), e)\<rparr>)
       (user_lib.fields (\<lambda>s t e. ((asynSuccess, 0), e)) (\<lambda>e. ((asynSuccess, 0), e)) (\<lambda>s e. (asynSuccess, e))))
     (start_lib.fields (\<lambda>n e. (True, e)) (\<lambda>e. (0, e)) (\<lambda>s e. e))"

definition demo_args :: start_args where
  "demo_args = configure_args ''PLC1'' ''10.0.0.1'' (dotted [10, 0, 0, 1, 1, 1]) 851 10 0 1000 100 500 1 None"

lemma late_comes_up: "comes_up late_lib (\<lambda>e. e)"
  by (simp add: comes_up_def late_lib_def user_lib.defs ads_lib.defs start_lib.defs zero_lib_def)

lemma late_grants: "grants late_lib (\<lambda>e. e)"
  by (simp add: grants_def late_lib_def user_lib.defs ads_lib.defs start_lib.defs zero_lib_def isInvalidPortNumber_def)

lemma demo_args_ok: "args_ok demo_args"
  by (simp add: args_ok_def demo_args_def configure_args_def scan_ams_address_dotted wrap_signed_eq)

lemma demo_constructed: "\<exists>d. adsAsynPortDriver late_lib 1 4 demo_args 3 = Done (Constructed, d)"
proof -
  have g: "fst (fst (ab_createParam late_lib s t e)) = asynSuccess" "snd (ab_createParam late_lib s t e) = e" for s t e
    by (simp_all add: late_lib_def user_lib.defs ads_lib.defs start_lib.defs)
  obtain d :: "nat driver" where "prepared demo_args d" and "env d = 3"
    and e: "adsAsynPortDriver late_lib 1 4 demo_args 3 = start_ports late_lib 1 (a_amsport demo_args) 4 d"
    using constructor_reaches_ports [OF demo_args_ok, of late_lib 1 4 3] g by auto
  then show ?thesis
    using start_ports_progress [OF late_comes_up late_grants, of 1 d 4] by (simp add: prepared_def)
qed

lemma driver_ready_witness:
  "\<exists>d. adsAsynPortDriver late_lib 1 4 demo_args 3 = Done (Constructed, d) \<and> d_connectedAds d \<and> created_ok d \<and>
     d_remoteNetId d = map word_of_nat [10, 0, 0, 1, 1, 1]"
proof -
  obtain d where d: "adsAsynPortDriver late_lib 1 4 demo_args 3 = Done (Constructed, d)" using demo_constructed by blast
  have "scan_ams_address (a_amsaddr demo_args) = map word_of_nat [10, 0, 0, 1, 1, 1]"
    by (simp add: demo_args_def configure_args_def scan_ams_address_dotted)
  then show ?thesis using d driver_ready [OF d] by simp
qed

lemma start_ends_witness: "\<exists>d. adsAsynPortDriver late_lib 1 4 demo_args 3 = Done (Constructed, d)"
  by (rule start_ends [OF late_comes_up late_grants demo_args_ok]) simp_all

lemma threads_wait_for_scan_init_witness:
  "\<exists>d. adsAsynPortDriver late_lib 1 4 demo_args 3 = Done (Constructed, d) \<and>
     adsAsynPortObj (fold (getEpicsState late_lib) [1, 2, 3]
       \<lparr>adsAsynPortObj = Some d, allowCallbackEpicsState = False, currentEpicsState = 0\<rparr>) = Some d"
proof -
  obtain d where d: "adsAsynPortDriver late_lib 1 4 demo_args 3 = Done (Constructed, d)" using demo_constructed by blast
  have "sdk late_lib ''initHookAfterScanInit'' \<notin> set [1, 2, 3]"
    by (simp add: late_lib_def user_lib.defs ads_lib.defs start_lib.defs zero_lib_def)
  then show ?thesis
    using d threads_wait_for_scan_init [OF d, where hs = "[1, 2, 3]" and
        g = "\<lparr>adsAsynPortObj = Some d, allowCallbackEpicsState = False, currentEpicsState = 0\<rparr>"] by simp
qed

lemma configure_hides_failure_witness:
  "\<exists>g' d. adsAsynPortDriverConfigure late_lib 1 4 (Some ''PLC1'') (Some ''10.0.0.1'') (Some ''plc.local'') 851 10 0
      1000 100 500 1 None 3 \<lparr>adsAsynPortObj = None, allowCallbackEpicsState = False, currentEpicsState = 0\<rparr> =
      Done (Some 0, g') \<and> adsAsynPortObj g' = Some d \<and> \<not> d_connectedAds d"
proof -
  have "length (scan_ams_address ''plc.local'') \<noteq> 6" by code_simp
  then show ?thesis
    using configure_hides_failure [of "''PLC1''" 851 10 "''plc.local''" late_lib 1 4 "''10.0.0.1''" 0 1000 100 500 1 None 3
        "\<lparr>adsAsynPortObj = None, allowCallbackEpicsState = False, currentEpicsState = 0\<rparr>"] by auto
qed

lemma destroy_gives_back_witness:
  "bulkReadThread_wait (linked_driver\<lparr>d_stopThreads := True\<rparr>) \<noteq> None \<and>
   \<not> p_bSymbolicHandleValid (hd (d_params (destroy zero_lib linked_driver)))"
proof -
  have l: "d_paramCount linked_driver = 1" "d_connectedAds linked_driver" "length (d_params linked_driver) = 10"
    by (simp_all add: linked_driver_def demo_driver_def constructed_def)
  have "release_params zero_lib [0..<1] (linked_driver\<lparr>d_stopThreads := True\<rparr>) =
      set_param 0 (given_back (d_params linked_driver ! 0)) (linked_driver\<lparr>d_stopThreads := True, env :=
        give_back zero_lib (nat (d_adsPort linked_driver mod 2 ^ 16)) (d_remoteNetId linked_driver)
          (d_params linked_driver ! 0) (env linked_driver)\<rparr>)"
    using l by (simp add: release_step)
  then have "d_params (destroy zero_lib linked_driver) \<noteq> []"
    using l by (auto simp: destroy_def Let_def call_params [OF prod.collapse [symmetric]] set_param_def)
  then have "hd (d_params (destroy zero_lib linked_driver)) \<in>
      set (take (d_paramCount linked_driver) (d_params (destroy zero_lib linked_driver)))"
    using l by (cases "d_params (destroy zero_lib linked_driver)") simp_all
  then show ?thesis
    using destroy_gives_back [where lib = zero_lib and d = linked_driver, OF _ refl refl] l by simp
qed

end
