(* ===== verification/Ads_Slots.thy ===== *)
theory Ads_Slots
  imports Ads_Watch
begin

text \<open>
  The places of parameters in the bulk requests, over the whole table: which operations leave them
  alone, and that completing parameters keeps them apart, also when the supervision refreshes them.
\<close>

section \<open>Placed parameters\<close>

definition own :: "'e driver \<Rightarrow> adsParamInfo \<Rightarrow> bool" where
  "own d p \<longleftrightarrow> p_bulkIndex p < 0 \<or> slot_ok d p"

text \<open>
  The bulk requests are well-formed, and every parameter in use behind the default one has no place in
  them or one that is its own: under its index, in a request of its port, shared with no other.
\<close>

definition placed :: "'e driver \<Rightarrow> bool" where
  "placed d \<longleftrightarrow> bulk_inv d \<and> d_paramCount d \<le> length (d_params d) \<and>
     (\<forall>i \<in> {1..<d_paramCount d}. own d (d_params d ! i)) \<and>
     (\<forall>i \<in> {1..<d_paramCount d}. \<forall>j \<in> {1..<d_paramCount d}. i \<noteq> j \<longrightarrow> 0 \<le> p_bulkIndex (d_params d ! i) \<longrightarrow>
        0 \<le> p_bulkIndex (d_params d ! j) \<longrightarrow> slot_of (d_params d ! i) \<noteq> slot_of (d_params d ! j))"

text \<open>What this depends on.\<close>

definition slot_key :: "adsParamInfo \<Rightarrow> int \<times> nat \<times> int \<times> int" where
  "slot_key p = (p_paramIndex p, p_amsPort p, p_bulkIndex p, p_bulkOffset p)"

definition bulk_key :: "BulkReadInfo \<Rightarrow> nat \<times> nat \<times> int list \<times> nat" where
  "bulk_key b = (b_cnt b, b_amsPort b, b_paramID b, length (b_sum b))"

definition bulk_view :: "'e driver \<Rightarrow> (nat \<times> nat \<times> int list \<times> nat) list \<times> nat \<times> nat" where
  "bulk_view d = (map bulk_key (d_bulk d), d_bulkTScnt d, length (d_bulkTS d))"

definition slot_view ::
  "'e driver \<Rightarrow> ((int \<times> nat \<times> int \<times> int) list \<times> nat) \<times> (nat \<times> nat \<times> int list \<times> nat) list \<times> nat \<times> nat" where
  "slot_view d = ((map slot_key (d_params d), d_paramCount d), bulk_view d)"

lemma slot_key_eq: "same_slot p q \<Longrightarrow> slot_key q = slot_key p"
  by (simp add: slot_defs slot_key_def)

lemma bulk_keys:
  assumes "bulk_view d' = bulk_view d"
  shows "length (d_bulk d') = length (d_bulk d)"
    and "i < length (d_bulk d) \<Longrightarrow> bulk_key (d_bulk d' ! i) = bulk_key (d_bulk d ! i)"
proof -
  have e: "map bulk_key (d_bulk d') = map bulk_key (d_bulk d)" using assms by (simp add: bulk_view_def)
  then show l: "length (d_bulk d') = length (d_bulk d)" by (rule map_eq_imp_length_eq)
  show "bulk_key (d_bulk d' ! i) = bulk_key (d_bulk d ! i)" if "i < length (d_bulk d)"
    using arg_cong [OF e, of "\<lambda>xs. xs ! i"] that l by simp
qed

lemma bulk_inv_view: "bulk_view d' = bulk_view d \<Longrightarrow> bulk_inv d' = bulk_inv d"
proof -
  assume v: "bulk_view d' = bulk_view d"
  have "bulk_ok (d_bulk d' ! i) = bulk_ok (d_bulk d ! i)" "b_cnt (d_bulk d' ! i) = b_cnt (d_bulk d ! i)"
    if "i < length (d_bulk d)" for i
    using bulk_keys(2) [OF v that] by (simp_all add: bulk_key_def bulk_ok_def)
  then show ?thesis
    using v bulk_keys(1) [OF v]
    by (auto simp: bulk_inv_def bulk_prefix_def all_set_conv_all_nth bulk_view_def)
qed

lemma slot_ok_view: "bulk_view d' = bulk_view d \<Longrightarrow> slot_key p' = slot_key p \<Longrightarrow> slot_ok d' p' = slot_ok d p"
proof -
  assume v: "bulk_view d' = bulk_view d" and k: "slot_key p' = slot_key p"
  have s: "slot_of p' = slot_of p" using k by (simp add: slot_key_def slot_of_def)
  show ?thesis
  proof (cases "fst (slot_of p) < length (d_bulk d)")
    case True
    then show ?thesis
      using bulk_keys [OF v] k s by (auto simp: slot_ok_def slot_key_def bulk_key_def split: prod.splits)
  next
    case False
    then show ?thesis using bulk_keys(1) [OF v] s by (auto simp: slot_ok_def split: prod.splits)
  qed
qed

lemma placed_view: "slot_view d' = slot_view d \<Longrightarrow> placed d' = placed d"
proof -
  assume v: "slot_view d' = slot_view d"
  then have b: "bulk_view d' = bulk_view d" and c: "d_paramCount d' = d_paramCount d"
    and e: "map slot_key (d_params d') = map slot_key (d_params d)" by (simp_all add: slot_view_def)
  have l: "length (d_params d') = length (d_params d)" using e by (rule map_eq_imp_length_eq)
  have k: "slot_key (d_params d' ! i) = slot_key (d_params d ! i)" if "i < length (d_params d)" for i
    using arg_cong [OF e, of "\<lambda>xs. xs ! i"] that l by simp
  have f: "own d' (d_params d' ! i) = own d (d_params d ! i)" "slot_of (d_params d' ! i) = slot_of (d_params d ! i)"
    "p_bulkIndex (d_params d' ! i) = p_bulkIndex (d_params d ! i)" if "i < length (d_params d)" for i
    using slot_ok_view [OF b k [OF that]] k [OF that] by (simp_all add: own_def slot_key_def slot_of_def)
  show ?thesis
  proof (cases "d_paramCount d \<le> length (d_params d)")
    case True
    then show ?thesis using f bulk_inv_view [OF b] c l by (simp add: placed_def)
  next
    case False
    then show ?thesis using c l by (simp add: placed_def)
  qed
qed

section \<open>One parameter\<close>

text \<open>
  An operation on a parameter that may give it a place: whoever had a place keeps it, and the parameter
  keeps its own or gets one that nobody had.
\<close>

definition seated :: "adsParamInfo \<Rightarrow> 'e driver \<Rightarrow> adsParamInfo \<Rightarrow> 'e driver \<Rightarrow> bool" where
  "seated p d p' d' \<longleftrightarrow> (bulk_inv d \<and> own d p \<longrightarrow>
     bulk_inv d' \<and> own d' p' \<and> (\<forall>q. slot_ok d q \<longrightarrow> slot_ok d' q) \<and>
     (p_bulkIndex p' < 0 \<or> 0 \<le> p_bulkIndex p \<and> slot_of p' = slot_of p \<or>
      (\<forall>q. slot_ok d q \<longrightarrow> slot_of q \<noteq> slot_of p')))"

lemma seated_trans: "seated p d p1 d1 \<Longrightarrow> seated p1 d1 p2 d2 \<Longrightarrow> seated p d p2 d2"
  unfolding seated_def by (smt (verit, best))

lemma seated_same: "same_slot p q \<Longrightarrow> bulk_view d' = bulk_view d \<Longrightarrow> seated p d q d'"
proof -
  assume a: "same_slot p q" "bulk_view d' = bulk_view d"
  note k = slot_key_eq [OF a(1)]
  have "slot_ok d' x = slot_ok d x" "slot_ok d' q = slot_ok d p" for x
    using slot_ok_view [OF a(2) k] slot_ok_view [OF a(2) refl] by simp_all
  then show ?thesis using bulk_inv_view [OF a(2)] k by (auto simp: seated_def own_def slot_key_def slot_of_def)
qed

lemma bulk_view_env [simp]:
  "bulk_view (d\<lparr>env := e\<rparr>) = bulk_view d" "bulk_view (d\<lparr>d_amsPortList := x\<rparr>) = bulk_view d"
  "bulk_view (d\<lparr>d_params := y\<rparr>) = bulk_view d" "bulk_view (d\<lparr>d_bulkOK := b\<rparr>) = bulk_view d"
  "bulk_view (d\<lparr>d_arrayParams := z\<rparr>) = bulk_view d"
  by (simp_all add: bulk_view_def)

lemma bulk_view_call: "call f d = (r, d') \<Longrightarrow> bulk_view d' = bulk_view d"
  by (auto simp: call_def split: prod.splits)

lemma seated_syminfo: "adsGetSymInfoByName lib cp p d = (st, p', d') \<Longrightarrow> seated p d p' d'"
  by (rule seated_same [OF slot_syminfo], assumption)
     (auto simp: adsGetSymInfoByName_def adsGetSymInfoByName_entry_def Let_def split: prod.splits if_splits
       dest!: bulk_view_call)

lemma seated_symhandle: "adsGetSymHandleByName lib cp p d = (st, p', d') \<Longrightarrow> seated p d p' d'"
  by (rule seated_same [OF slot_symhandle], assumption)
     (auto simp: adsGetSymHandleByName_def split: prod.splits if_splits dest!: bulk_view_call)

lemma seated_release: "adsReleaseSymbolicHandle lib cp p b d = (st, p', d') \<Longrightarrow> seated p d p' d'"
  by (rule seated_same [OF slot_release], assumption)
     (auto simp: adsReleaseSymbolicHandle_def Let_def split: prod.splits if_splits dest!: bulk_view_call)

lemma bulk_view_address: "param_address lib cp p d = (r, p', d') \<Longrightarrow> bulk_view d' = bulk_view d"
  by (auto simp: param_address_def adsGetSymInfoByName_def adsGetSymInfoByName_entry_def adsGetSymHandleByName_def
      Let_def split: prod.splits if_splits dest!: bulk_view_call)

lemma seated_add_data: "adsAddDataCallback lib cp p d = (st, p', d') \<Longrightarrow> seated p d p' d'"
  by (rule seated_same [OF slot_add_data], assumption)
     (auto simp: adsAddDataCallback_def Let_def split: prod.splits option.splits if_splits
       dest!: bulk_view_call bulk_view_address)

lemma seated_del_data: "adsDelDataCallback lib cp p d = (st, p', d') \<Longrightarrow> seated p d p' d'"
  by (rule seated_same [OF slot_del_data], assumption)
     (auto simp: adsDelDataCallback_def split: prod.splits dest!: bulk_view_call)

lemma seated_add_bulk:
  assumes "adsAddToBulkRead lib cp p d = Done (st, p', d')"
  shows "seated p d p' d'"
proof -
  have "bulk_inv d' \<and> own d' p' \<and> (\<forall>q. slot_ok d q \<longrightarrow> slot_ok d' q) \<and>
      (p_bulkIndex p' < 0 \<or> 0 \<le> p_bulkIndex p \<and> slot_of p' = slot_of p \<or>
       (\<forall>q. slot_ok d q \<longrightarrow> slot_of q \<noteq> slot_of p'))" if "bulk_inv d" "own d p"
    using bulk_add_done [OF assms that(1) that(2) [unfolded own_def]] that(2)
    by (auto simp: bulk_added_def own_def not_less)
  then show ?thesis by (simp add: seated_def)
qed

lemma seated_subscribe: "subscribe lib cp p d = Done (st, p', d') \<Longrightarrow> seated p d p' d'"
  by (auto simp: subscribe_def slot_defs split: if_splits prod.splits
      intro: seated_same seated_add_bulk seated_trans [OF seated_del_data seated_add_data])

lemma seated_update_info: "updateParamInfoWithPLCInfo lib cp p d = Done (st, p', d') \<Longrightarrow> seated p d p' d'"
  by (erule update_info_rule [where R = seated])
     (auto intro: seated_trans seated_same seated_syminfo seated_symhandle seated_release seated_subscribe)

section \<open>The table\<close>

definition settles :: "'e driver \<Rightarrow> 'e driver \<Rightarrow> bool" where
  "settles d d' \<longleftrightarrow> (placed d \<longrightarrow> placed d')"

lemma settles_refl [simp, intro]: "settles d d"
  by (simp add: settles_def)

lemma settles_trans [trans]: "settles d d1 \<Longrightarrow> settles d1 d2 \<Longrightarrow> settles d d2"
  by (simp add: settles_def)

lemma settles_view: "slot_view d' = slot_view d \<Longrightarrow> settles d d'"
  unfolding settles_def using placed_view by blast

text \<open>A parameter behind the default one that is put back after it may have got a place.\<close>

lemma placed_put_back:
  assumes "placed d" and "seated (d_params d ! i) d p d1" and "i \<in> {1..<d_paramCount d}"
    and "d_params d1 = d_params d" and "d_paramCount d1 = d_paramCount d"
  shows "placed (d1\<lparr>d_params := (d_params d1)[i := p]\<rparr>)" (is "placed ?d")
proof -
  have inv: "bulk_inv d" "\<And>j. j \<in> {1..<d_paramCount d} \<Longrightarrow> own d (d_params d ! j)"
    using assms(1) by (simp_all add: placed_def)
  note s = assms(2) [unfolded seated_def, rule_format, OF conjI [OF inv(1) inv(2) [OF assms(3)]]]
  have i: "i < length (d_params d)" using assms(1,3) by (simp add: placed_def)
  have at: "d_params ?d ! j = (if j = i then p else d_params d ! j)" for j
    using i assms(4) by (simp add: nth_list_update)
  have bulk: "slot_ok ?d q = slot_ok d1 q" "own ?d q = own d1 q" for q
    using slot_ok_view [of ?d d1 q q] by (simp_all add: own_def)
  have kept: "own d1 (d_params d ! j)" if "j \<in> {1..<d_paramCount d}" for j
    using inv(2) [OF that] s by (auto simp: own_def)
  have apart: "slot_of p \<noteq> slot_of (d_params d ! j)"
    if j: "j \<in> {1..<d_paramCount d}" "j \<noteq> i" and b: "0 \<le> p_bulkIndex p" "0 \<le> p_bulkIndex (d_params d ! j)" for j
  proof -
    have "slot_ok d (d_params d ! j)" using inv(2) [OF j(1)] b(2) by (simp add: own_def)
    moreover have "0 \<le> p_bulkIndex (d_params d ! i) \<Longrightarrow> slot_of (d_params d ! i) \<noteq> slot_of (d_params d ! j)"
      using assms(1,3) j b(2) by (simp add: placed_def)
    ultimately show ?thesis using s b(1) by auto
  qed
  have "bulk_inv ?d" using s bulk_inv_view [of ?d d1] by simp
  then show ?thesis
    using assms(1,4,5) s kept apart unfolding placed_def at bulk
    by (auto simp: eq_commute [of "slot_of (d_params d ! _)" "slot_of p"])
qed

lemma view_put_back:
  assumes "bulk_view d1 = bulk_view d" and "d_params d1 = d_params d" and "d_paramCount d1 = d_paramCount d"
    and "same_slot (d_params d ! i) p"
  shows "slot_view (d1\<lparr>d_params := (d_params d1)[i := p]\<rparr>) = slot_view d"
proof -
  have "map slot_key ((d_params d)[i := p]) = (map slot_key (d_params d))[i := slot_key (d_params d ! i)]"
    using slot_key_eq [OF assms(4)] by (simp add: map_update)
  also have "\<dots> = map slot_key (d_params d)"
    by (cases "i < length (d_params d)") (simp_all add: list_update_same_conv list_update_beyond)
  finally show ?thesis using assms(1-3) by (simp add: slot_view_def)
qed

lemma settles_refresh_params:
  "refresh_params lib cp n is d = Done d' \<Longrightarrow> set is \<subseteq> {1..<d_paramCount d} \<Longrightarrow> settles d d'"
proof (induction "is" arbitrary: d)
  case (Cons i "is")
  show ?case
  proof (cases "on_port n (p_amsPort (d_params d ! i)) \<and> p_refreshNeeded (d_params d ! i)")
    case False
    then show ?thesis using Cons by (auto simp: Let_def)
  next
    case True
    with Cons.prems obtain stat p1 d1 where
      u: "updateParamInfoWithPLCInfo lib cp (d_params d ! i) d = Done (stat, p1, d1)"
        "refresh_params lib cp n is (d1\<lparr>d_params := (d_params d1)[i := p1]\<rparr>) = Done d'"
      by (auto simp: Let_def run_bind_Done_iff)
    let ?d = "d1\<lparr>d_params := (d_params d1)[i := p1]\<rparr>"
    have k: "d_params d1 = d_params d" "d_paramCount d1 = d_paramCount d"
      using table_update_info [OF u(1)] by (simp_all add: keep_table_def keep_def)
    have "settles d ?d"
      using placed_put_back [OF _ seated_update_info [OF u(1)] _ k] Cons.prems(2) by (simp add: settles_def)
    moreover have "settles ?d d'" using Cons.IH [OF u(2)] Cons.prems(2) k by simp
    ultimately show ?thesis by (rule settles_trans)
  qed
qed simp

lemma slot_view_snd [simp]: "slot_view (snd (call f d)) = slot_view d"
  by (cases "f (env d)") (simp add: call_def slot_view_def)

lemma slot_view_call: "call f d = (r, d') \<Longrightarrow> slot_view d' = slot_view d"
  using slot_view_snd [of f d] by simp

lemma slot_view_port [simp]: "slot_view (set_port k port d) = slot_view d"
  by (simp add: set_port_def slot_view_def)

lemma view_add_symbols: "adsAddSymbolsChangedCallback lib cp port d = (stat, port', d') \<Longrightarrow> slot_view d' = slot_view d"
  by (auto simp: adsAddSymbolsChangedCallback_def Let_def split: prod.splits if_splits dest!: slot_view_call)

lemma view_del_symbols: "adsDelSymbolsChangedCallback lib cp port d = (stat, port', d') \<Longrightarrow> slot_view d' = slot_view d"
  by (auto simp: adsDelSymbolsChangedCallback_def split: prod.splits dest!: slot_view_call)

lemma view_refresh_ports: "slot_view (refresh_ports lib cp n ks d) = slot_view d"
proof (induction ks arbitrary: d)
  case (Cons k ks)
  let ?port = "d_amsPortList d ! k"
  obtain port1 d1 where del: "(if port_bCallbackNotifyValid ?port
                 then snd (adsDelSymbolsChangedCallback lib cp ?port d) else (?port, d)) = (port1, d1)"
    by (metis surj_pair)
  obtain st port2 d2 where add: "adsAddSymbolsChangedCallback lib cp port1 d1 = (st, port2, d2)"
    by (metis prod.exhaust)
  have "slot_view d1 = slot_view d"
    using del by (cases "adsDelSymbolsChangedCallback lib cp ?port d") (auto split: if_splits dest!: view_del_symbols)
  moreover have "slot_view d2 = slot_view d1" by (rule view_add_symbols [OF add])
  ultimately show ?case using Cons.IH by (auto simp: Let_def del add set_port_def')
qed simp

lemma slot_view_bulkOK [simp]: "slot_view (d\<lparr>d_bulkOK := b\<rparr>) = slot_view d"
  by (simp add: slot_view_def)

lemma settles_refresh:
  assumes "refreshParams lib cp n d = Done (stat, d')"
  shows "settles d d'"
proof (cases "d_connectedAds d")
  case True
  with assms obtain d1 where d1: "refresh_params lib cp n [1..<d_paramCount d] d = Done d1"
      and d': "d' = (refresh_ports lib cp n [0..<length (d_amsPortList d1)] d1)\<lparr>d_bulkOK := True\<rparr>"
    by (auto simp: refreshParams_def run_bind_Done_iff)
  have "settles d d1" by (rule settles_refresh_params [OF d1]) simp
  moreover have "settles d1 d'" unfolding d' by (rule settles_view) (simp add: view_refresh_ports)
  ultimately show ?thesis by (rule settles_trans)
next
  case False
  with assms show ?thesis by (auto simp: refreshParams_def intro: settles_view)
qed

lemma view_invalidate: "slot_view (snd (invalidateParams n d)) = slot_view d"
proof -
  have p: "map slot_key (map_params (\<lambda>p. if on_port n (p_amsPort p) then p\<lparr>p_refreshNeeded := True\<rparr> else p) c ps) =
      map slot_key ps" for c ps
    by (intro nth_equalityI) (auto simp: map_params_def slot_key_def)
  have "map bulk_key (invalidate_bulk n bs) = map bulk_key bs" for bs
  proof -
    let ?u = "takeWhile (\<lambda>b. b_cnt b \<noteq> 0) bs"
    have "map bulk_key (invalidate_bulk n bs) = map bulk_key ?u @ map bulk_key (drop (length ?u) bs)"
      unfolding invalidate_bulk_def Let_def by (simp add: bulk_key_def cong: if_cong)
    also have "\<dots> = map bulk_key bs" by (simp flip: map_append dropWhile_eq_drop)
    finally show ?thesis .
  qed
  then show ?thesis
    using p by (simp add: invalidateParams_def slot_view_def bulk_view_def)
qed

section \<open>The supervision\<close>

lemma bulk_view_frame: "env_frame d d' \<Longrightarrow> bulk_view d' = bulk_view d"
  by (elim env_frameE) simp

lemma view_alarm_loop: "setAlarmPort_loop lib n a s is d = (stat, d') \<Longrightarrow> slot_view d' = slot_view d"
proof (induction "is" arbitrary: d)
  case (Cons i "is")
  obtain st p d1 where al: "setAlarmParam lib (d_params d ! i) a s d = (st, p, d1)" by (metis prod.exhaust)
  have f: "env_frame d d1" using setAlarmParam_frame [OF al] by simp
  have "slot_view (d1\<lparr>d_params := (d_params d1)[i := p]\<rparr>) = slot_view d"
    by (rule view_put_back [OF bulk_view_frame [OF f] _ _ slot_alarm [OF al]])
       (use table_env [OF f] in \<open>simp_all add: keep_table_def keep_def\<close>)
  then show ?case using Cons al by (auto simp: Let_def split: if_splits)
qed simp

lemma view_port_lost: "slot_view (port_lost lib k d) = slot_view d"
proof -
  have "slot_view (snd (setAlarmPort lib n a s d1)) = slot_view d1" for n a s and d1 :: "'a driver"
    unfolding setAlarmPort_def
    by (cases "setAlarmPort_loop lib n a s [0..<d_paramCount d1] d1") (simp add: view_alarm_loop)
  then show ?thesis by (simp add: port_lost_def Let_def view_invalidate)
qed

lemma view_state: "adsReadState lib cp n d = (r, d') \<Longrightarrow> slot_view d' = slot_view d"
  by (auto simp: adsReadState_def split: prod.splits dest!: slot_view_call)

lemma view_version: "adsReadVersion lib cp port d = (stat, port', d') \<Longrightarrow> slot_view d' = slot_view d"
  by (auto simp: adsReadVersion_def split: prod.splits if_splits dest!: slot_view_call)

lemma settles_cyclic_port:
  assumes "cyclic_port lib cp k d = Done (c, d')"
  shows "settles d d'"
  using assms
proof (rule cyclic_port_parts)
  fix stat st e d1 port d2 d3 d4
  assume rd: "adsReadState lib cp (port_amsPort (d_amsPortList d ! k)) d = ((stat, st, e), d1)"
    and d2: "d2 = set_port k port d1"
    and d3: "(if port_connected port \<and> port_refreshNeeded port
      then run_bind (refreshParams lib cp (port_amsPort (d_amsPortList d ! k)) d2) (\<lambda>(_, d'). Done d')
      else Done d2) = Done d3"
    and d4: "d4 = (if port_connectedOld port \<and> \<not> port_connected port then port_lost lib k d3 else d3)"
    and d': "d' = (if \<not> port_connectedOld port \<and> port_connected port
           then (case adsReadVersion lib cp (d_amsPortList d4 ! k) d4 of (_, port', d') \<Rightarrow> set_port k port' d')
           else d4)"
  have "settles d d2" by (rule settles_view) (simp add: d2 view_state [OF rd])
  moreover have "settles d2 d3" using d3 by (auto simp: run_bind_Done_iff split: if_splits dest!: settles_refresh)
  moreover have "settles d3 d4" by (rule settles_view) (simp add: d4 view_port_lost)
  moreover have "settles d4 d'"
    by (rule settles_view) (auto simp: d' dest!: view_version split: prod.split)
  ultimately show ?thesis by (meson settles_trans)
qed

lemma settles_cyclic_ports: "cyclic_ports lib cp ks one d = Done (c, d') \<Longrightarrow> settles d d'"
proof (induction ks arbitrary: one d)
  case (Cons k ks)
  then show ?case by (auto simp: run_bind_Done_iff dest!: settles_cyclic_port intro: settles_trans)
qed simp

lemma view_update:
  assumes "adsUpdateParameter lib i p data n d = Done (st, p1, d1)" and "same_slot (d_params d ! i) p"
  shows "slot_view (d1\<lparr>d_params := (d_params d1)[i := p1]\<rparr>) = slot_view d"
proof -
  have "bulk_view d1 = bulk_view d" by (rule update_outcome [OF assms(1)]) simp
  then show ?thesis
    by (rule view_put_back) (use table_update [OF assms(1)] same_slot_trans [OF assms(2) slot_update [OF assms(1)]]
        in \<open>simp_all add: keep_table_def keep_def\<close>)
qed

lemma same_slot_refl [simp]: "same_slot p p"
  by (simp add: slot_defs)

lemma view_publish: "publish_states lib ks d = Done d' \<Longrightarrow> slot_view d' = slot_view d"
  by (erule publish_steps [where P = "\<lambda>x. slot_view x = slot_view d"]) (simp_all add: view_update)

end
