(* ===== verification/Ads_OctetSession.thy ===== *)
theory Ads_OctetSession
  imports Ads_Octet
begin

text \<open>
  What the octet interface promises to its users: a session with a variable of the controller, in which
  a line of commands writes the variable and reads it back as text, and the syntax of commands by
  address.  The controller is a library that keeps what is written to the variable
  (\<open>plc_variable\<close>).
\<close>

section \<open>A session with a variable of the controller\<close>

text \<open>
  What the controller documents about a variable: as long as it holds some bytes, its symbol information
  is found by name, a read returns these bytes, and after a write it holds the written ones.
\<close>

definition plc_answers ::
  "('e, 'z) ads_lib_scheme \<Rightarrow> nat \<Rightarrow> AmsAddr \<Rightarrow> string \<Rightarrow> ADSDATATYPEID \<Rightarrow> nat \<Rightarrow> (u8 list \<Rightarrow> 'e \<Rightarrow> bool) \<Rightarrow>
     nat \<Rightarrow> nat \<Rightarrow> u8 list \<Rightarrow> 'e \<Rightarrow> bool" where
  "plc_answers lib cp a name t n holds g off bs e \<longleftrightarrow>
     length bs = n * adst_width t \<and>
     (\<exists>img k e'. AdsSyncReadWriteReqEx2 lib cp a (sdk_u lib ''ADSIGRP_SYM_INFOBYNAMEEX'') 0
          sizeof_adsSymbolEntry (text_bytes name) e = ((0, img, k), e') \<and> holds bs e' \<and>
        length img = sizeof_adsSymbolEntry \<and> se_iGroup (symbol_entry_of img) = g \<and>
        se_iOffset (symbol_entry_of img) = off \<and>
        se_dataType (symbol_entry_of img) = nat (adst_code t) \<and>
        se_size (symbol_entry_of img) = n * adst_width t \<and> se_nameLength (symbol_entry_of img) < 767) \<and>
     (\<exists>k e'. AdsSyncReadReqEx2 lib cp a g off (n * adst_width t) e = ((0, bs, k), e') \<and> holds bs e') \<and>
     (\<forall>bs'. length bs' = n * adst_width t \<longrightarrow>
        (\<exists>e'. AdsSyncWriteReqEx lib cp a g off bs' e = (0, e') \<and> holds bs' e'))"

definition plc_variable ::
  "('e, 'z) ads_lib_scheme \<Rightarrow> nat \<Rightarrow> AmsAddr \<Rightarrow> string \<Rightarrow> ADSDATATYPEID \<Rightarrow> nat \<Rightarrow> (u8 list \<Rightarrow> 'e \<Rightarrow> bool) \<Rightarrow> bool" where
  "plc_variable lib cp a name t n holds \<longleftrightarrow>
     (\<exists>g off. \<forall>bs e. holds bs e \<longrightarrow> plc_answers lib cp a name t n holds g off bs e)"

text \<open>A name that no option, address or separator of the command syntax is part of.\<close>

definition plain_name :: "string \<Rightarrow> bool" where
  "plain_name name \<longleftrightarrow> length name < 255 \<and> set name \<inter> {CHR ''='', CHR ''?'', CHR '';''} = {} \<and>
     \<not> is_prefix ADS_OPTION_ADSPORT name \<and> name \<noteq> ''.THIS.sFeatures'' \<and>
     strstr name ADS_ADR_COMMAND_PREFIX = None"

text \<open>The state between two commands: the text in the output buffer and the bytes of the variable.\<close>

definition session ::
  "AmsAddr \<Rightarrow> (u8 list \<Rightarrow> 'e \<Rightarrow> bool) \<Rightarrow> string \<Rightarrow> u8 list \<Rightarrow> 'e driver \<Rightarrow> bool" where
  "session a holds txt bs d \<longleftrightarrow>
     server d (d_amsportDefault d) = a \<and> \<not> d_octetReturnVarName d \<and>
     obuf_inv (d_octetAsciiBuffer d) \<and> bufferSize (d_octetAsciiBuffer d) = ADS_CMD_BUFFER_SIZE \<and>
     obuf_contents (d_octetAsciiBuffer d) = txt \<and> holds bs (env d)"

lemma session_room:
  "session a holds txt bs d \<Longrightarrow> obuf_room (d_octetAsciiBuffer d) = ADS_CMD_BUFFER_SIZE - length txt - 1"
  using obuf_contents_length [of "d_octetAsciiBuffer d"] by (auto simp: session_def obuf_room_def)

lemma session_say:
  assumes "session a holds txt bs d" and "length txt + length t < 65535" and "length t \<le> 4094"
    and "nul \<notin> set t"
  obtains d' where "say t d = Done d'" and "session a holds (txt @ t) bs d'"
proof -
  have "length t < obuf_room (d_octetAsciiBuffer d)"
    using session_room [OF assms(1)] assms(2) by (simp add: ADS_CMD_BUFFER_SIZE_def)
  from emit_inv [OF _ this assms(3,4)] assms(1) obtain b where b: "emit (d_octetAsciiBuffer d) t = Done b"
    "obuf_inv b" "obuf_contents b = txt @ t" "bufferSize b = ADS_CMD_BUFFER_SIZE"
    by (auto simp: session_def)
  show ?thesis
    by (rule that [of "d\<lparr>d_octetAsciiBuffer := b\<rparr>"])
       (use assms(1) b in \<open>auto simp: say_def session_def server_def\<close>)
qed

lemma comma_list_cong:
  assumes "take (n * adst_width t) m = take (n * adst_width t) m'"
  shows "comma_list t m 0 n = comma_list t m' 0 n"
proof -
  have "elem_text t m j = elem_text t m' j" if "j < n" for j
  proof -
    have "j * adst_width t + adst_width t \<le> n * adst_width t"
      using elem_in_bounds [OF that, of "adst_width t" "n * adst_width t"] by simp
    then have "elem t x j = take (adst_width t) (drop (j * adst_width t) (take (n * adst_width t) x))" for x
      by (simp add: elem_def drop_take min_def)
    then show ?thesis using assms by (simp add: elem_text_def)
  qed
  then have "map (\<lambda>j. (if j = 0 then [] else '','') @ elem_text t m j) [0..<n] =
      map (\<lambda>j. (if j = 0 then [] else '','') @ elem_text t m' j) [0..<n]"
    by (intro map_cong) auto
  then show ?thesis by (simp only: comma_list_def)
qed

lemma comma_list_length:
  assumes "conv_int t" and "n * adst_width t \<le> length m"
  shows "length (comma_list t m i n) \<le> 12 * (n - i)"
proof (induction "n - i" arbitrary: i)
  case 0
  then show ?case by (simp add: comma_list_def)
next
  case (Suc d)
  then have i: "i < n" "d = n - Suc i" by auto
  have "n - i = Suc (n - Suc i)" using i(1) by simp
  with elem_text_facts(2) [OF assms(1) i(1) assms(2)] Suc.hyps(1) [OF i(2)] show ?case
    by (auto simp: comma_list_step [OF i(1)])
qed

lemma comma_list_chars:
  assumes "conv_int t" and "n * adst_width t \<le> length m" and "c \<in> set (comma_list t m i n)"
  shows "is_digit c \<or> c \<in> {CHR ''-'', CHR '',''}"
proof -
  from assms(3) obtain j where j: "j < n" "c \<in> set (elem_text t m j) \<or> c = CHR '',''"
    by (auto simp: comma_list_def split: if_splits)
  have "length (elem t m j) = adst_width t"
    using elem_in_bounds [OF j(1) assms(2)] by (simp add: elem_def)
  from conv_int_text [OF assms(1) this] obtain v where "elem_text t m j = show_int v"
    by (metis elem_text_def option.sel)
  with j(2) show ?thesis by (auto dest: show_int_chars)
qed

lemma is_prefix_D: "is_prefix p s \<Longrightarrow> \<exists>post. s = p @ post"
  by (induction p s rule: is_prefix.induct) auto

lemma strstr_SomeD: "strstr s p = Some r \<Longrightarrow> \<exists>pre post. s = pre @ p @ post"
proof (induction s)
  case Nil
  then show ?case by (auto split: if_splits)
next
  case (Cons x xs)
  show ?case
  proof (cases "is_prefix p (x # xs)")
    case True
    then have "\<exists>post. x # xs = p @ post" by (rule is_prefix_D)
    then show ?thesis by (metis append_Nil)
  next
    case False
    with Cons obtain pre post where "xs = pre @ p @ post" by auto
    then have "x # xs = (x # pre) @ p @ post" by simp
    then show ?thesis by blast
  qed
qed


lemma strstr_None_D: "strstr (pre @ p @ post) p \<noteq> None"
proof (induction pre)
  case Nil
  have "is_prefix p (p @ post)" by (induction p) auto
  then show ?case by (cases "p @ post") auto
next
  case (Cons x pre)
  then show ?case by simp
qed

lemma strstr_append_None:
  assumes "p \<noteq> []" and "last p \<notin> set b" and "strstr a p = None"
  shows "strstr (a @ b) p = None"
proof (rule ccontr)
  assume "strstr (a @ b) p \<noteq> None"
  then obtain pre post where e: "a @ b = pre @ p @ post" using strstr_SomeD by fastforce
  then have "(\<exists>us. a = (pre @ p) @ us) \<or> (\<exists>us. pre @ p = a @ us \<and> us @ post = b \<and> us \<noteq> [])"
    by (metis append_eq_append_conv2 append.assoc append.right_neutral)
  then show False
  proof
    assume "\<exists>us. a = (pre @ p) @ us"
    then have "\<exists>us. a = pre @ p @ us" by simp
    then show False using assms(3) strstr_None_D by blast
  next
    assume "\<exists>us. pre @ p = a @ us \<and> us @ post = b \<and> us \<noteq> []"
    then obtain us where us: "pre @ p = a @ us" "us @ post = b" "us \<noteq> []" by blast
    then have "last p = last us" using assms(1) by (metis last_appendR)
    then have "last p \<in> set b" using us(2,3) by (metis UnI1 last_in_set set_append)
    with assms(2) show False by blast
  qed
qed

lemma wrap_signed_0: "wrap_signed 4 0 = 0"
  by code_simp

lemma session_info:
  assumes "plc_variable lib cp a name t n holds" and "session a holds txt bs d"
  obtains info e d1 where "adsGetSymInfoByName_entry lib cp (d_amsportDefault d) name d =
      ((asynSuccess, e, info), d1)"
    and "session a holds txt bs d1" and "d_amsportDefault d1 = d_amsportDefault d"
    and "se_dataType info = nat (adst_code t)" and "se_size info = n * adst_width t"
    and "length bs = n * adst_width t"
    and "\<exists>k e'. AdsSyncReadReqEx2 lib cp a (se_iGroup info) (se_iOffset info) (n * adst_width t) (env d1)
           = ((0, bs, k), e') \<and> holds bs e'"
    and "\<And>bs'. length bs' = n * adst_width t \<Longrightarrow>
           \<exists>e'. AdsSyncWriteReqEx lib cp a (se_iGroup info) (se_iOffset info) bs' (env d1) = (0, e') \<and> holds bs' e'"
proof -
  have a: "server d (d_amsportDefault d) = a" "holds bs (env d)" using assms(2) by (auto simp: session_def)
  obtain g off where "\<forall>bs e. holds bs e \<longrightarrow> plc_answers lib cp a name t n holds g off bs e"
    using assms(1) unfolding plc_variable_def by (elim exE)
  note V = this [rule_format]
  from V [OF a(2)] obtain img k e' where v: "AdsSyncReadWriteReqEx2 lib cp a
      (sdk_u lib ''ADSIGRP_SYM_INFOBYNAMEEX'') 0 sizeof_adsSymbolEntry (text_bytes name) (env d) = ((0, img, k), e')"
    "holds bs e'" "length img = sizeof_adsSymbolEntry" "se_iGroup (symbol_entry_of img) = g"
    "se_iOffset (symbol_entry_of img) = off" "se_dataType (symbol_entry_of img) = nat (adst_code t)"
    "se_size (symbol_entry_of img) = n * adst_width t" "se_nameLength (symbol_entry_of img) < 767"
    unfolding plc_answers_def by (elim exE conjE)
  note r = V [unfolded plc_answers_def, THEN conjunct2, THEN conjunct2]
    and lb = V [unfolded plc_answers_def, THEN conjunct1, OF a(2)]
  let ?i = "symbol_entry_of img"
  let ?info = "?i\<lparr>se_variableName := Some (bytes_text (se_buffer ?i)),
      se_symDataType := Some (bytes_text (drop (se_nameLength ?i + 1) (se_buffer ?i))),
      se_symComment := Some (bytes_text (drop (se_nameLength ?i + 1 + se_typeLength ?i + 1) (se_buffer ?i)))\<rparr>"
  have "adsGetSymInfoByName_entry lib cp (d_amsportDefault d) name d =
      ((asynSuccess, 0, ?info), d\<lparr>env := e'\<rparr>)"
    using v a by (simp add: adsGetSymInfoByName_entry_def call_def Let_def)
  then show thesis
  proof (rule that)
    show "session a holds txt bs (d\<lparr>env := e'\<rparr>)"
      using assms(2) v(2) by (simp add: session_def server_def)
    have g: "se_iGroup ?info = g" "se_iOffset ?info = off" using v(4,5) by simp_all
    show "\<exists>k e''. AdsSyncReadReqEx2 lib cp a (se_iGroup ?info) (se_iOffset ?info) (n * adst_width t)
        (env (d\<lparr>env := e'\<rparr>)) = ((0, bs, k), e'') \<and> holds bs e''"
      using r [OF v(2)] unfolding g by simp
    show "\<exists>e''. AdsSyncWriteReqEx lib cp a (se_iGroup ?info) (se_iOffset ?info) bs' (env (d\<lparr>env := e'\<rparr>)) =
        (0, e'') \<and> holds bs' e''" if "length bs' = n * adst_width t" for bs'
      using r [OF v(2)] that unfolding g by simp
  qed (use v(6,7) lb in simp_all)
qed


lemma octetBinary2ascii_ints:
  assumes "conv_int t" and "se_dataType info = nat (adst_code t)" and "se_size info = n * adst_width t"
    and "(n + 1) * adst_width t \<le> length m" and "length m < 2 ^ 32" and "length m = bsize"
    and "obuf_inv b" and "12 * n + 20 \<le> obuf_room b" and "n < fuel"
  obtains b' where "octetBinary2ascii fuel False m bsize info b = Done (0, b')"
    and "obuf_inv b'" and "obuf_contents b' = obuf_contents b @ comma_list t m 0 n"
proof -
  have "12 * (n - 0) + 20 \<le> obuf_room b" "n - 0 < fuel" using assms(8,9) by simp_all
  from b2a_loop_ints [OF assms(1-5) le0 assms(7) this, of 0]
  obtain b' where b': "b2a_loop fuel False m (length m) info 0 (0 * adst_width t) 0 0 b = Done (0, b')"
    "obuf_inv b'" "obuf_contents b' = obuf_contents b @ comma_list t m 0 n" by blast
  show thesis
    by (rule that [OF _ b'(2,3)]) (use b'(1) in \<open>simp only: octetBinary2ascii_def assms(6) mult_0\<close>)
qed

lemma session_out_ok: "session a holds txt bs d \<Longrightarrow> out_ok (d_octetAsciiBuffer d)"
  by (auto simp: session_def obuf_inv_def out_ok_def)

text \<open>Reading the variable by name prints its elements.\<close>

lemma session_read:
  assumes "plc_variable lib cp a name t n holds" and "session a holds txt bs d" and "conv_int t"
    and "(n + 1) * adst_width t \<le> ADS_CMD_BUFFER_SIZE"
    and "length txt + 12 * n + 20 < 65536"
  obtains d' where "octetAdsReadByName lib cp (d_amsportDefault d) name d = Done (0, d')"
    and "session a holds (txt @ comma_list t bs 0 n) bs d'"
proof -
  obtain info e d1 where i: "adsGetSymInfoByName_entry lib cp (d_amsportDefault d) name d =
        ((asynSuccess, e, info), d1)"
    "session a holds txt bs d1" "d_amsportDefault d1 = d_amsportDefault d"
    "se_dataType info = nat (adst_code t)" "se_size info = n * adst_width t" "length bs = n * adst_width t"
    and rr: "\<exists>k e'. AdsSyncReadReqEx2 lib cp a (se_iGroup info) (se_iOffset info) (n * adst_width t) (env d1)
           = ((0, bs, k), e') \<and> holds bs e'"
    by (rule session_info [OF assms(1,2)]) rule
  from rr obtain k e' where rd: "AdsSyncReadReqEx2 lib cp a (se_iGroup info) (se_iOffset info)
      (n * adst_width t) (env d1) = ((0, bs, k), e')" "holds bs e'" by blast
  have w: "0 < adst_width t" using conv_int_width [OF assms(3)] by simp
  let ?m = "bs @ replicate (ADS_CMD_BUFFER_SIZE - n * adst_width t) 0"
  have sz: "n * adst_width t \<le> ADS_CMD_BUFFER_SIZE" using assms(4) by simp
  then have lm: "length ?m = ADS_CMD_BUFFER_SIZE" using i(6) by simp
  let ?b = "d_octetAsciiBuffer d1"
  have inv: "obuf_inv ?b" using i(2) by (simp add: session_def)
  have room: "12 * n + 20 \<le> obuf_room ?b"
    using session_room [OF i(2)] assms(5) by (simp add: ADS_CMD_BUFFER_SIZE_def)
  have "n * 1 \<le> n * adst_width t" using w by (intro mult_le_mono2) simp
  then have fuel: "n < se_size info + 2" unfolding i(5) by linarith
  have fits: "(n + 1) * adst_width t \<le> length ?m" "length ?m < 2 ^ 32"
    using assms(4) unfolding lm by (simp_all add: ADS_CMD_BUFFER_SIZE_def)
  obtain b' where b': "octetBinary2ascii (se_size info + 2) False ?m ADS_CMD_BUFFER_SIZE info ?b = Done (0, b')"
    "obuf_inv b'" "obuf_contents b' = obuf_contents ?b @ comma_list t ?m 0 n"
    by (rule octetBinary2ascii_ints [OF assms(3) i(4,5) fits lm inv room fuel]) rule
  have c: "comma_list t ?m 0 n = comma_list t bs 0 n"
    by (rule comma_list_cong) (simp add: i(6))
  have bsz: "bufferSize b' = ADS_CMD_BUFFER_SIZE"
    using octetBinary2ascii_out [OF b'(1)] session_out_ok [OF i(2)] i(2)
    by (auto simp: out_step_def session_def)
  let ?d' = "d1\<lparr>env := e', d_octetBinaryBuffer := ?m, d_octetAsciiBuffer := b'\<rparr>"
  have srv: "server d1 (d_amsportDefault d) = a" using i(2,3) by (simp add: session_def)
  have nv: "d_octetReturnVarName d1 = False" using i(2) by (simp add: session_def)
  have rc: "received (replicate (n * adst_width t) 0) bs = bs" using i(6) by simp
  have res: "octetAdsReadByName lib cp (d_amsportDefault d) name d = Done (0, ?d')"
    using i(1) b'(1) rd sz
    by (simp add: octetAdsReadByName_def octetAdsReadByGroupOffset_def call_def Let_def srv i(5) nv rc wrap_signed_0)
  show thesis
    by (rule that [OF res]) (use i(2) rd(2) b' c bsz in \<open>auto simp: session_def server_def\<close>)
qed

text \<open>Writing the elements as text stores their bytes.\<close>

lemma session_write:
  assumes "plc_variable lib cp a name t n holds" and "session a holds txt bs d" and "conv_int t"
    and "0 < n" and "(n + 1) * adst_width t \<le> ADS_CMD_BUFFER_SIZE" and "length m = n * adst_width t"
  obtains d' where "octetAdsWriteByName lib scan_real cp (d_amsportDefault d) name (comma_list t m 0 n) d = Done (0, d')"
    and "session a holds txt m d'"
proof -
  obtain info e d1 where i: "adsGetSymInfoByName_entry lib cp (d_amsportDefault d) name d =
        ((asynSuccess, e, info), d1)"
    "session a holds txt bs d1" "d_amsportDefault d1 = d_amsportDefault d"
    "se_dataType info = nat (adst_code t)" "se_size info = n * adst_width t"
    and wr: "\<And>bs'. length bs' = n * adst_width t \<Longrightarrow>
           \<exists>e'. AdsSyncWriteReqEx lib cp a (se_iGroup info) (se_iOffset info) bs' (env d1) = (0, e') \<and> holds bs' e'"
    by (rule session_info [OF assms(1,2)]) rule
  from wr [OF assms(6)] obtain e' where w: "AdsSyncWriteReqEx lib cp a (se_iGroup info) (se_iOffset info) m (env d1)
      = (0, e')" "holds m e'" by blast
  let ?z = "replicate ADS_CMD_BUFFER_SIZE (0 :: u8)"
  let ?m = "m @ replicate (ADS_CMD_BUFFER_SIZE - n * adst_width t) 0"
  have sz: "n * adst_width t \<le> ADS_CMD_BUFFER_SIZE" using assms(5) by simp
  then have lm: "length ?m = ADS_CMD_BUFFER_SIZE" using assms(6) by simp
  have fits: "(n + 1) * adst_width t \<le> length ?m" "length ?m < 2 ^ 32" "length ?z = length ?m"
    using assms(5) unfolding lm by (simp_all add: ADS_CMD_BUFFER_SIZE_def)
  have c: "comma_list t ?m 0 n = comma_list t m 0 n" by (rule comma_list_cong) (simp add: assms(6))
  have "elem_text t ?m 0 @ comma_list t ?m (Suc 0) n = comma_list t m 0 n"
    using c comma_list_step [OF assms(4), of t ?m] by simp
  with a2b_loop_ints [OF assms(3) fits(1,2,3) assms(4), of scan_real 0]
  have conv: "octetAscii2binary scan_real (comma_list t m 0 n) (nat (adst_code t)) ?z ADS_CMD_BUFFER_SIZE 0 =
      Done (0, n * adst_width t, ?m)"
    using assms(6) sz by (simp add: octetAscii2binary_def lm ADS_CMD_BUFFER_SIZE_def [symmetric])
  have ty: "nat (adst_code t) mod 65536 = nat (adst_code t)" by (cases t) simp_all
  have srv: "server (d1\<lparr>d_octetBinaryBuffer := ?m\<rparr>) (d_amsportDefault d) = a"
    using i(2,3) by (simp add: session_def server_def)
  have rd: "mem_read ?m 0 (n * adst_width t) = Done m"
    using assms(6) by (simp add: mem_read_def)
  let ?d' = "d1\<lparr>env := e', d_octetBinaryBuffer := ?m\<rparr>"
  have res: "octetAdsWriteByName lib scan_real cp (d_amsportDefault d) name (comma_list t m 0 n) d = Done (0, ?d')"
    using i(1) conv w(1)
    by (simp add: octetAdsWriteByName_def octetAdsWriteByGroupOffset_def call_def Let_def srv i(4,5) ty rd wrap_signed_0)
  show thesis
    by (rule that [OF res]) (use i(2) w(2) in \<open>auto simp: session_def server_def\<close>)
qed

lemma is_prefix_append: "\<lbrakk>\<not> is_prefix p s; r = [] \<or> hd r \<notin> set p\<rbrakk> \<Longrightarrow> \<not> is_prefix p (s @ r)"
proof (induction p s rule: is_prefix.induct)
  case (2 p ps)
  then show ?case by (cases r) auto
qed auto

lemma plain_option:
  assumes "plain_name name" and "hd r \<notin> set ADS_OPTION_ADSPORT"
  shows "adsport_option (name @ r) p = Done (Some (name @ r, p))"
  using is_prefix_append [of ADS_OPTION_ADSPORT name r] assms
  by (simp add: adsport_option_def plain_name_def)

lemma plain_no_address:
  assumes "plain_name name" and "CHR ''.'' \<notin> set r"
  shows "strstr (name @ r) ADS_ADR_COMMAND_PREFIX = None"
  by (rule strstr_append_None)
     (use assms in \<open>simp_all add: plain_name_def ADS_ADR_COMMAND_PREFIX_def\<close>)

lemma plain_variable: "plain_name name \<Longrightarrow> variable_name (name @ r) r = Done name"
  by (simp add: plain_name_def variable_name_def)

text \<open>The two commands.\<close>

lemma command_read:
  assumes "plain_name name" and "octetAdsReadByName lib cp (d_amsportDefault d) name d = Done (0, d')"
  shows "octetMotorHandleOneArg lib sr cp (name @ ''?'') d = Done (0, d')"
proof -
  have f: "CHR ''='' \<notin> set (name @ ''?'')" "CHR ''?'' \<notin> set name" "name \<noteq> ''.THIS.sFeatures''"
    using assms(1) by (auto simp: plain_name_def)
  have "ADS_OCTET_FEATURES_COMMAND = ''.THIS.sFeatures'' @ ''?''"
    by (simp add: ADS_OCTET_FEATURES_COMMAND_def)
  with f(3) have c: "name @ ''?'' \<noteq> ADS_OCTET_FEATURES_COMMAND" by (metis append1_eq_conv)
  have s: "strchr (name @ ''?'') CHR ''='' = None" "strchr (name @ ''?'') CHR ''?'' = Some ''?''"
    using f(1) strchr_append_sep [OF f(2), of "[]"] by (simp_all only: strchr_None_iff not_False_eq_True)
  show ?thesis
    using plain_option [OF assms(1), of "''?''"] plain_no_address [OF assms(1), of "''?''"]
      plain_variable [OF assms(1), of "''?''"] c s assms(2)
    by (simp add: octetMotorHandleOneArg_def ADS_OPTION_ADSPORT_def)
qed

lemma command_write:
  assumes "plain_name name" and "CHR ''.'' \<notin> set txt"
    and "octetAdsWriteByName lib sr cp (d_amsportDefault d) name txt d = Done (0, d1)"
    and "say ''OK'' d1 = Done d2"
  shows "octetMotorHandleOneArg lib sr cp (name @ CHR ''='' # txt) d = Done (0, d2)"
proof -
  have e: "CHR ''='' \<notin> set name" using assms(1) by (auto simp: plain_name_def)
  have "CHR ''='' \<in> set (name @ CHR ''='' # txt)" "CHR ''='' \<notin> set ADS_OCTET_FEATURES_COMMAND"
    by (simp_all add: ADS_OCTET_FEATURES_COMMAND_def)
  then have c: "name @ CHR ''='' # txt \<noteq> ADS_OCTET_FEATURES_COMMAND" by metis
  show ?thesis
    using plain_option [OF assms(1), of "CHR ''='' # txt"] plain_no_address [OF assms(1), of "CHR ''='' # txt"]
      plain_variable [OF assms(1), of "CHR ''='' # txt"] c assms(2-4) strchr_append_sep [OF e]
    by (simp add: octetMotorHandleOneArg_def ADS_OPTION_ADSPORT_def)
qed

text \<open>A line of commands that end with a semicolon is executed command by command.\<close>

lemma line_of_commands:
  assumes "cmds \<noteq> []" and "\<forall>c \<in> set cmds. CHR '';'' \<notin> set c"
  shows "octetCmdHandleInputLine lib sr cp (concat (map (\<lambda>c. c @ '';'') cmds)) d =
    handle_args lib sr cp (map (\<lambda>c. (c, '';'')) cmds) 0 d"
proof -
  let ?line = "concat (map (\<lambda>c. c @ '';'') cmds)"
  obtain c cs where "cmds = c # cs" using assms(1) by (cases cmds) auto
  then have "CHR '';'' \<in> set ?line" and ne: "?line \<noteq> []" by auto
  then have "strchr ?line CHR '';'' \<noteq> None" by (simp add: strchr_None_iff)
  moreover have "argv_loop CHR '';'' ?line = map (\<lambda>a. (a, '';'')) cmds"
    using argv_loop_join [OF assms] .
  ultimately have s: "octetCreateArgvSepv ?line = (length cmds, ?line # cmds, [] # map (\<lambda>_. '';'') cmds)"
    using ne by (simp add: octetCreateArgvSepv_def Let_def comp_def)
  have "map (\<lambda>i. ((?line # cmds) ! i, ([] # map (\<lambda>_. '';'') cmds) ! i)) [1..<Suc (length cmds)] =
      map (\<lambda>c. (c, '';'')) cmds"
    by (intro nth_equalityI) (simp_all del: upt_Suc)
  with s show ?thesis by (simp only: octetCmdHandleInputLine_def case_prod_conv)
qed

text \<open>
  C15: what is written to a variable is what is read back, through the whole interpreter: a line that
  assigns the text of the elements of an array of 8-, 16- or 32-bit integers to a variable and then asks
  for the variable is answered by \<^verbatim>\<open>OK\<close> and the same text, and the controller holds the bytes of
  these elements.  The variable has a plain name (no option, no command, none of the separators) on the
  default AMS port, the array leaves room for one element in the binary buffer and 12 characters for each
  in the output buffer, which is empty, and the controller keeps what is written to the variable.
\<close>
theorem octet_write_then_read:
  assumes "plc_variable lib cp a name t n holds" and "session a holds [] bs d" and "plain_name name"
    and "conv_int t" and "0 < n" and "(n + 1) * adst_width t \<le> ADS_CMD_BUFFER_SIZE" and "12 * n < 65000"
    and "length m = n * adst_width t"
  shows "\<exists>d'. octetCmdHandleInputLine lib scan_real cp
       (name @ ''='' @ comma_list t m 0 n @ '';'' @ name @ ''?;'') d = Done (0, d') \<and>
     session a holds (''OK;'' @ comma_list t m 0 n @ '';'') m d'"
proof -
  let ?txt = "comma_list t m 0 n"
  have ch: "c \<in> set ?txt \<Longrightarrow> is_digit c \<or> c \<in> {CHR ''-'', CHR '',''}" for c
    using comma_list_chars [OF assms(4), of n m] assms(8) by simp
  have "\<not> is_digit CHR '';''" "\<not> is_digit CHR ''.''" by (simp_all add: is_digit_def)
  then have no: "CHR '';'' \<notin> set ?txt" "CHR ''.'' \<notin> set ?txt" using ch by fastforce+
  have len: "length ?txt \<le> 12 * n" using comma_list_length [OF assms(4), of n m 0] assms(8) by simp
  obtain d1 where w: "octetAdsWriteByName lib scan_real cp (d_amsportDefault d) name ?txt d = Done (0, d1)"
    "session a holds [] m d1"
    by (rule session_write [OF assms(1,2,4,5,6,8)])
  obtain d2 where ok: "say ''OK'' d1 = Done d2" "session a holds ''OK'' m d2"
    by (rule session_say [OF w(2), of "''OK''"]) simp_all
  obtain d3 where s1: "say '';'' d2 = Done d3" "session a holds ''OK;'' m d3"
    by (rule session_say [OF ok(2), of "'';''"]) simp_all
  obtain d4 where r: "octetAdsReadByName lib cp (d_amsportDefault d3) name d3 = Done (0, d4)"
    "session a holds (''OK;'' @ ?txt) m d4"
    by (rule session_read [OF assms(1) s1(2) assms(4,6)]) (use assms(7) in simp_all)
  obtain d5 where s2: "say '';'' d4 = Done d5" "session a holds ((''OK;'' @ ?txt) @ '';'') m d5"
    by (rule session_say [OF r(2), of "'';''"]) (use len assms(7) in simp_all)
  have cmds: "\<forall>c \<in> set [name @ CHR ''='' # ?txt, name @ ''?'']. CHR '';'' \<notin> set c"
    using assms(3) no by (auto simp: plain_name_def)
  have "handle_args lib scan_real cp [(name @ CHR ''='' # ?txt, '';''), (name @ ''?'', '';'')] 0 d = Done (0, d5)"
    using command_write [OF assms(3) no(2) w(1) ok(1)] s1(1) command_read [OF assms(3) r(1)] s2(1) by simp
  with line_of_commands [OF _ cmds, of lib scan_real cp d] s2(2) show ?thesis by simp
qed

section \<open>Addresses as text\<close>

definition hex_char :: "nat \<Rightarrow> char" where
  "hex_char k = (if k < 10 then digit_char k else char_of (87 + k))"

lemma hex_char_facts:
  assumes "k < 16"
  shows "is_hex (hex_char k)" and "hex_val (hex_char k) = k" and "\<not> is_space (hex_char k)"
    and "hex_char k \<noteq> CHR ''-''" and "hex_char k \<noteq> CHR ''+''" and "hex_char k = CHR ''0'' \<longleftrightarrow> k = 0"
proof -
  have o: "(of_char (hex_char k) :: nat) = (if k < 10 then 48 + k else 87 + k)"
    using assms by (simp add: hex_char_def of_digit_char)
  have ne: "hex_char k \<noteq> c" if "(of_char c :: nat) \<noteq> (if k < 10 then 48 + k else 87 + k)" for c
    using o that by auto
  show "is_hex (hex_char k)" "hex_val (hex_char k) = k"
    using assms by (auto simp: is_hex_def hex_val_def is_digit_def digit_val_def o)
  show "\<not> is_space (hex_char k)" "hex_char k \<noteq> CHR ''-''" "hex_char k \<noteq> CHR ''+''"
    by (auto simp: is_space_def intro!: ne split: if_splits)
  show "hex_char k = CHR ''0'' \<longleftrightarrow> k = 0"
  proof
    assume "hex_char k = CHR ''0''"
    with ne [of "CHR ''0''"] have "48 = (if k < 10 then 48 + k else 87 + k)" by fastforce
    then show "k = 0" by (simp split: if_splits)
  next
    have "char_of (of_char (CHR ''0'') :: nat) = CHR ''0''" by (rule char_of_char)
    then show "k = 0 \<Longrightarrow> hex_char k = CHR ''0''" by (simp add: hex_char_def digit_char_def)
  qed
qed

lemma show_hex_step:
  "show_hex n = (if n < 16 then [hex_char n] else show_hex (n div 16) @ [hex_char (n mod 16)])"
  by (subst show_hex.simps) (simp add: hex_char_def Let_def)

lemma hex_value_snoc: "hex_value (s @ [c]) = 16 * hex_value s + hex_val c"
  by (simp add: hex_value_def)

lemma show_hex_facts:
  "\<exists>k s. show_hex n = hex_char k # s \<and> k < 16 \<and> (k = 0 \<longrightarrow> n = 0 \<and> s = []) \<and> hex_value (show_hex n) = n \<and>
     (\<forall>c \<in> set (show_hex n). is_hex c)"
proof (induction n rule: less_induct)
  case (less n)
  show ?case
  proof (cases "n < 16")
    case True
    then show ?thesis
      by (subst (1 2 3) show_hex_step) (auto simp: hex_value_def hex_char_facts)
  next
    case False
    then obtain k s where s: "show_hex (n div 16) = hex_char k # s" "k < 16" "k = 0 \<longrightarrow> n div 16 = 0 \<and> s = []"
      "hex_value (show_hex (n div 16)) = n div 16" "\<forall>c \<in> set (show_hex (n div 16)). is_hex c"
      using less.IH [of "n div 16"] by auto
    have e: "show_hex n = show_hex (n div 16) @ [hex_char (n mod 16)]"
      using False by (subst show_hex_step) simp
    have "n div 16 \<noteq> 0" using False by simp
    with s(3) have k: "k \<noteq> 0" by blast
    have "hex_value (show_hex n) = n"
      by (simp add: e hex_value_snoc s(4) hex_char_facts)
    moreover have "\<forall>c \<in> set (show_hex n). is_hex c"
      using s(5) by (simp add: e hex_char_facts)
    moreover have "show_hex n = hex_char k # (s @ [hex_char (n mod 16)])" by (simp add: e s(1))
    ultimately show ?thesis using s(2) k by blast
  qed
qed

lemma scan_hex_show_hex:
  assumes "r = [] \<or> \<not> is_hex (hd r) \<and> hd r \<notin> {CHR ''x'', CHR ''X''}"
  shows "scan_hex (show_hex n @ r) = Scan_Ok (False, n) r"
proof -
  obtain k s where s: "show_hex n = hex_char k # s" "k < 16" "k = 0 \<longrightarrow> n = 0 \<and> s = []"
    "hex_value (show_hex n) = n" "\<forall>c \<in> set (show_hex n). is_hex c"
    using show_hex_facts by blast
  note f = hex_char_facts [OF s(2)]
  have sk: "skip_space (show_hex n @ r) = show_hex n @ r" using f by (simp add: skip_space_def s(1))
  have sg: "scan_sign (show_hex n @ r) = (False, show_hex n @ r)" using f by (simp add: s(1))
  have px: "\<not> is_prefix ''0x'' (show_hex n @ r)" "\<not> is_prefix ''0X'' (show_hex n @ r)"
  proof -
    have p: "is_prefix [c] r \<Longrightarrow> r \<noteq> [] \<and> hd r = c" for c by (cases r) auto
    have "\<not> is_prefix ''x'' r" "\<not> is_prefix ''X'' r" using assms by (auto dest: p)
    moreover have "hex_char k \<noteq> CHR ''0'' \<or> s = []" using f(6) s(3) by blast
    ultimately show "\<not> is_prefix ''0x'' (show_hex n @ r)" "\<not> is_prefix ''0X'' (show_hex n @ r)"
      unfolding s(1) by auto
  qed
  have tw: "takeWhile is_hex (show_hex n @ r) = show_hex n" "dropWhile is_hex (show_hex n @ r) = r"
    using s(5) assms by (cases r; simp add: takeWhile_append2 dropWhile_append2)+
  have "show_hex n @ r \<noteq> []" "show_hex n \<noteq> []" by (simp_all add: s(1))
  then show ?thesis
    by (simp only: scan_hex_def sk sg px tw s(4) Let_def case_prod_conv if_False simp_thms)
qed

lemma scan_dec_show_nat:
  assumes "r = [] \<or> \<not> is_digit (hd r)"
  shows "scan_dec (show_nat n @ r) = Scan_Ok (False, n) r"
  using scan_dec_show_int [OF assms, of "int n"] by (simp add: show_int_def)

lemma scan_to_small: "n < 2 ^ 32 \<Longrightarrow> scan_to 32 (Scan_Ok (False, n) r) = Some (n, r)"
  by (simp add: scan_to_def strtoul64_def nat_mod_distrib)

definition adr_text :: "nat \<Rightarrow> nat \<Rightarrow> nat \<Rightarrow> nat \<Rightarrow> string" where
  "adr_text g off n t = ''.ADR.16#'' @ show_hex g @ '',16#'' @ show_hex off @ '','' @ show_nat n @ '','' @ show_nat t"

text \<open>
  C23: the address of a command is read as it is written: the text of a group and an offset in hexadecimal
  digits, each behind the prefix \<^verbatim>\<open>16#\<close>, of a size and of a type, each below \<open>2^32\<close>, is
  scanned to these numbers whatever follows the type.  The prefix of the offset is needed: without it, as the
  comments of the code show the command, nothing is accepted.
\<close>
theorem adr_command_syntax:
  assumes "g < 2 ^ 32" and "off < 2 ^ 32" and "n < 2 ^ 32" and "t < 2 ^ 32"
    and "r = [] \<or> \<not> is_digit (hd r)"
  shows "scan_adr (adr_text g off n t @ r) = Some (g, off, n, t) \<and>
    scan_adr (''.ADR.16#'' @ show_hex g @ '','' @ show_hex off @ '','' @ r') = None"
proof -
  have c: "\<not> is_hex CHR '',''" "\<not> is_digit CHR '',''" by code_simp+
  have h: "scan_to 32 (scan_hex (show_hex k @ CHR '','' # x)) = Some (k, CHR '','' # x)" if "k < 2 ^ 32" for k x
    using scan_hex_show_hex [of "CHR '','' # x" k] scan_to_small [OF that] c(1) by simp
  have d: "scan_to 32 (scan_dec (show_nat k @ x)) = Some (k, x)" if "k < 2 ^ 32" "x = [] \<or> \<not> is_digit (hd x)" for k x
    using scan_dec_show_nat [OF that(2), of k] scan_to_small [OF that(1)] by simp
  have 1: "scan_adr (adr_text g off n t @ r) = Some (g, off, n, t)"
    using assms h [OF assms(1)] h [OF assms(2)] d [OF assms(3)] d [OF assms(4,5)] c(2)
    by (simp add: scan_adr_def adr_text_def scan_lit_def)
  have "\<not> is_prefix ''16#'' (l @ CHR '','' # r')" if "\<forall>c \<in> set l. is_hex c" for l
  proof -
    have "\<not> is_hex CHR ''#''" by code_simp
    then show ?thesis
      using that by (cases l; cases "tl l"; cases "tl (tl l)") auto
  qed
  then have "\<not> is_prefix ''16#'' (show_hex off @ CHR '','' # r')" using show_hex_facts by blast
  then have "scan_adr (''.ADR.16#'' @ show_hex g @ '','' @ show_hex off @ '','' @ r') = None"
    using h [OF assms(1)] by (simp add: scan_adr_def scan_lit_def)
  with 1 show ?thesis by blast
qed

lemma adr_command_syntax_witness:
  "scan_adr (adr_text 16385 13 8 5 @ ''?'') = Some (16385, 13, 8, 5)"
  using adr_command_syntax [of 16385 13 8 5 "''?''" "[]"] by (simp add: is_digit_def)

text \<open>A controller with one variable of two 16-bit integers, whose bytes are its environment.\<close>

definition cell_image :: "u8 list" where
  "cell_image = le_bytes 4 824 @ le_bytes 4 1 @ le_bytes 4 2 @ le_bytes 4 4 @ le_bytes 4 2 @ replicate 804 0"

definition cell_lib :: "u8 list ads_lib" where
  "cell_lib = zero_lib\<lparr>AdsSyncReadWriteReqEx2 := (\<lambda>c a g off n w e. ((0, cell_image, n), e)),
     AdsSyncReadReqEx2 := (\<lambda>c a g off n e. ((0, e, length e), e)),
     AdsSyncWriteReqEx := (\<lambda>c a g off bs e. (0, bs))\<rparr>"

lemma cell_symbol:
  "se_iGroup (symbol_entry_of cell_image) = 1 \<and> se_iOffset (symbol_entry_of cell_image) = 2 \<and>
   se_dataType (symbol_entry_of cell_image) = 2 \<and> se_size (symbol_entry_of cell_image) = 4 \<and>
   se_nameLength (symbol_entry_of cell_image) = 0 \<and> length cell_image = sizeof_adsSymbolEntry"
  by (simp add: symbol_entry_of_def cell_image_def le_nat_le_bytes take_replicate drop_replicate
      sizeof_adsSymbolEntry_def)

lemma octet_write_then_read_witness:
  "\<exists>d'. octetCmdHandleInputLine cell_lib (\<lambda>_ _. Scan_Fail) 1
       (''x'' @ ''='' @ comma_list ADST_INT16 [254, 255, 5, 0] 0 2 @ '';'' @ ''x'' @ ''?;'')
       (constructed [0, 0, 0, 0] [] [] 851 10 True 1000 100 500 ADS_TIME_BASE_PLC) = Done (0, d') \<and>
     session (server (constructed [0, 0, 0, 0 :: u8] [] [] 851 10 True 1000 100 500 ADS_TIME_BASE_PLC) 851)
       (\<lambda>bs e. e = bs \<and> length bs = 4) (''OK;'' @ comma_list ADST_INT16 [254, 255, 5, 0] 0 2 @ '';'')
       [254, 255, 5, 0] d'"
proof (rule octet_write_then_read)
  show "plc_variable cell_lib 1 (server (constructed [0, 0, 0, 0] [] [] 851 10 True 1000 100 500 ADS_TIME_BASE_PLC) 851)
      ''x'' ADST_INT16 2 (\<lambda>bs e. e = bs \<and> length bs = 4)"
    unfolding plc_variable_def plc_answers_def
    by (intro exI [of _ 1] exI [of _ 2]) (simp add: cell_lib_def cell_symbol)
  show "session (server (constructed [0, 0, 0, 0] [] [] 851 10 True 1000 100 500 ADS_TIME_BASE_PLC) 851)
      (\<lambda>bs e. e = bs \<and> length bs = 4) [] [0, 0, 0, 0] (constructed [0, 0, 0, 0] [] [] 851 10 True 1000 100 500 ADS_TIME_BASE_PLC)"
    by (simp add: session_def constructed_def server_def) (simp add: fresh_obuf_def)
  show "plain_name ''x''"
    by (simp add: plain_name_def ADS_OPTION_ADSPORT_def ADS_ADR_COMMAND_PREFIX_def)
qed (simp_all add: conv_int_def ADS_CMD_BUFFER_SIZE_def)

end
