(* ===== verification/Ads_System.thy ===== *)
theory Ads_System
  imports Ads_Lifetime Ads_Slots Ads_OctetSession
begin

text \<open>
  What the operations of the driver leave alone, seen over the whole state: most of them keep the links,
  indices and places of all parameters, the bulk requests, the output buffer, the queue and the list of
  AMS ports; completing parameters changes places only; creating a parameter adds to the table.
\<close>

section \<open>What the invariant is about\<close>

definition port_refs :: "'e driver \<Rightarrow> (nat \<times> nat option) list" where
  "port_refs d = map (\<lambda>p. (port_amsPort p, port_paramInfo p)) (d_amsPortList d)"

definition param_ids :: "'e driver \<Rightarrow> (string option \<times> int) list" where
  "param_ids d = map (\<lambda>p. (p_drvInfo p, p_paramIndex p)) (d_params d)"

definition beside_table :: "'e driver \<Rightarrow> octet_buffer \<times> datacbinfo list \<times> (nat \<times> nat option) list" where
  "beside_table d = (d_octetAsciiBuffer d, d_datacbqueue d, port_refs d)"

definition sys_view ::
  "'e driver \<Rightarrow> ((string option \<times> int) list \<times> nat \<times> (string \<rightharpoonup> int) \<times> int) \<times>
     octet_buffer \<times> datacbinfo list \<times> (nat \<times> nat option) list" where
  "sys_view d = ((param_ids d, d_paramCount d, d_createdParamsMap d, d_paramTableSize d), beside_table d)"

lemmas view_defs = sys_view_def param_ids_def beside_table_def port_refs_def slot_view_def bulk_view_def

text \<open>
  The places of the parameters in the bulk requests are seen apart: completing a parameter changes them
  and nothing else of the view.  Most operations leave even more alone: the flag of the connection, the
  counter of the supervision and the marks for refresh; those that connect or count do not.
\<close>

definition near :: "'e driver \<Rightarrow> 'e driver \<Rightarrow> bool" where
  "near d d' \<longleftrightarrow> sys_view d' = sys_view d"

definition firm :: "'e driver \<Rightarrow> 'e driver \<Rightarrow> bool" where
  "firm d d' \<longleftrightarrow> sys_view d' = sys_view d \<and> slot_view d' = slot_view d"

definition stays :: "'e driver \<Rightarrow> 'e driver \<Rightarrow> bool" where
  "stays d d' \<longleftrightarrow> firm d d' \<and> link d d' \<and> stale_le d d'"

lemmas stays_defs = stays_def firm_def view_defs link_def stale_le_def

lemma firm_refl [simp, intro]: "firm d d"
  by (simp add: firm_def)

lemma firm_trans [trans]: "firm d d1 \<Longrightarrow> firm d1 d2 \<Longrightarrow> firm d d2"
  by (simp add: firm_def)

lemma stays_firm: "stays d d' \<Longrightarrow> firm d d'"
  by (simp add: stays_def)

named_theorems stays_dests

lemma stays_refl [simp, intro]: "stays d d"
  by (simp add: stays_def)

lemma stays_trans [trans]: "stays d d1 \<Longrightarrow> stays d1 d2 \<Longrightarrow> stays d d2"
  by (auto simp: stays_def intro: firm_trans link_trans stale_trans)

lemma firm_near: "firm d d' \<Longrightarrow> near d d'"
  by (simp add: firm_def near_def)

lemma stays_near: "stays d d' \<Longrightarrow> near d d'"
  by (rule firm_near) (rule stays_firm)

lemma stays_slots: "stays d d' \<Longrightarrow> slot_view d' = slot_view d"
  by (simp add: stays_def firm_def)

lemma near_trans [trans]: "near d d1 \<Longrightarrow> near d1 d2 \<Longrightarrow> near d d2"
  by (simp add: near_def)

lemma keep_near: "keep d d' \<Longrightarrow> near d d'"
proof -
  assume k: "keep d d'"
  then have "port_refs d' = port_refs d"
    unfolding port_refs_def using keep_ports [OF k] keep_port_length [OF k]
    by (intro nth_equalityI) (simp_all, metis nth_map)
  with k show ?thesis by (simp add: near_def sys_view_def beside_table_def param_ids_def keep_def)
qed

lemma start_view_firm: "start_view d' = start_view d \<Longrightarrow> firm d d'"
  by (simp add: firm_def view_defs start_view_def table_of_def)

lemma stays_updates [simp]:
  "stays d (d1\<lparr>d_clientPorts := c\<rparr>) = stays d d1" "stays d (d1\<lparr>d_bulkOK := b\<rparr>) = stays d d1"
  "stays d (d1\<lparr>d_oneAmsConnectionOKold := b\<rparr>) = stays d d1" "stays d (d1\<lparr>env := e\<rparr>) = stays d d1"
  "stays d (d1\<lparr>d_arrayParams := is\<rparr>) = stays d d1" "stays d (d1\<lparr>d_bulkdata := bs\<rparr>) = stays d d1"
  "stays (d\<lparr>env := e\<rparr>) d1 = stays d d1" "stays (d\<lparr>d_bulkdata := bs\<rparr>) d1 = stays d d1"
  "stays (d\<lparr>d_symbolDict := m\<rparr>) d1 = stays d d1"
  "stays d (d1\<lparr>d_symbolDict := m\<rparr>) = stays d d1" "stays d (d1\<lparr>d_symInfoResolved := b\<rparr>) = stays d d1"
  by (simp_all add: stays_defs)

lemma firm_updates [simp]:
  "firm d (d1\<lparr>d_connectedAds := b\<rparr>) = firm d d1" "firm d (d1\<lparr>d_notConnectedCounter := n\<rparr>) = firm d d1"
  "firm d (d1\<lparr>d_oneAmsConnectionOKold := b\<rparr>) = firm d d1"
  by (simp_all add: firm_def view_defs)

lemma stays_call [stays_dests]: "call f d = (r, d') \<Longrightarrow> stays d d'"
  by (auto simp: call_def split: prod.splits)

lemma stays_snd_call [simp]: "stays d (snd (call f d1)) = stays d d1"
  by (cases "f (env d1)") (simp only: call_def case_prod_conv snd_conv stays_updates)

lemma stays_ecat: "ecat_frame d d' \<Longrightarrow> stays d d'"
  unfolding ecat_frame_def by (erule ssubst) (simp add: stays_defs)

lemma stays_frame: "env_frame d d' \<Longrightarrow> stays d d'"
  by (elim env_frameE) simp

text \<open>A parameter that is put back, with the same link and the same index.\<close>

lemma stays_set_param:
  assumes "stays d d1" and "same_slot (d_params d ! i) p" and "p_refreshNeeded (d_params d ! i) \<Longrightarrow> p_refreshNeeded p"
  shows "stays d (set_param i p d1)"
proof -
  let ?f = "\<lambda>p. (p_drvInfo p, p_paramIndex p)"
  have put: "map f (d_params (set_param i p d1)) = map f (d_params d)"
    if "map f (d_params d1) = map f (d_params d)" "f p = f (d_params d ! i)" for f :: "adsParamInfo \<Rightarrow> 'b"
    using that by (cases "i < length (d_params d)")
      (auto simp: set_param_def map_update list_update_same_conv list_update_beyond dest: map_eq_imp_length_eq)
  have "map ?f (d_params (set_param i p d1)) = map ?f (d_params d)"
    "map slot_key (d_params (set_param i p d1)) = map slot_key (d_params d)"
    using assms slot_key_eq [OF assms(2)]
    by (intro put; simp add: stays_def firm_def sys_view_def param_ids_def slot_view_def slot_defs)+
  then have "firm d (set_param i p d1)"
    using assms(1) by (simp add: stays_defs) (simp add: set_param_def)
  moreover have "link d (set_param i p d1)"
    using assms(1) by (simp add: stays_def link_def set_param_def)
  moreover have "p_refreshNeeded ((d_params d1)[i := p] ! j)"
    if "j < length (d_params d)" "p_refreshNeeded (d_params d ! j)" for j
    using that assms(1,3) by (cases "i = j") (simp_all add: stays_def stale_le_def)
  then have "stale_le d (set_param i p d1)"
    using assms(1) by (simp add: stays_def stale_le_def set_param_def)
  ultimately show ?thesis by (simp add: stays_def)
qed

text \<open>The guards of the operations.\<close>

lemma stays_enter [stays_dests]: "guard_enter lib t d = (p, d') \<Longrightarrow> stays d d'"
  by (auto simp: guard_enter_def addAdsClientPortNumberForThreadId_def call_def split: option.splits prod.splits if_splits)

lemma stays_leave: "stays d (guard_leave lib t d)"
  by (auto simp: guard_leave_def delAdsClientPortNumberForThreadId_def call_def Let_def
      split: option.split prod.split)

text \<open>A relation that the guards and the body have relates the ends.\<close>

lemma with_guard_via:
  assumes "with_guard lib t body d = Done (r, d')" and "\<And>cp d1 x d2. body cp d1 = Done (x, d2) \<Longrightarrow> R d1 d2"
    and trans: "\<And>d d1 d2. R d d1 \<Longrightarrow> R d1 d2 \<Longrightarrow> R d d2" and guard: "\<And>d d1. stays d d1 \<Longrightarrow> R d d1"
  shows "R d d'"
proof -
  obtain c d1 where e: "guard_enter lib t d = (c, d1)" by (metis prod.exhaust)
  then have 1: "R d d1" by (rule guard [OF stays_enter])
  show ?thesis
  proof (cases c)
    case None
    then show ?thesis using assms(1) e trans [OF 1 guard [OF stays_leave]] by (auto simp: with_guard_def)
  next
    case (Some cp)
    then obtain x d2 where b: "body cp d1 = Done (x, d2)" and d': "d' = guard_leave lib t d2"
      using assms(1) e by (auto simp: with_guard_def run_bind_Done_iff)
    show ?thesis unfolding d' by (rule trans [OF trans [OF 1 assms(2) [OF b]] guard [OF stays_leave]])
  qed
qed

lemmas with_guard_stays = with_guard_via [where R = stays, OF _ _ stays_trans]

lemma firm_settles: "firm d d' \<Longrightarrow> settles d d'"
  by (simp add: firm_def settles_view)

lemma stays_settles: "stays d d' \<Longrightarrow> settles d d'"
  by (rule firm_settles) (rule stays_firm)

section \<open>Operations that leave it as it is\<close>

lemma firm_connect: "connect lib self d = Done (r, d') \<Longrightarrow> firm d d'"
  unfolding connect_def
  by (erule with_guard_via [where R = firm])
    (metis connect_body_outcome run.inject start_view_firm, auto intro: firm_trans stays_firm)

text \<open>Connecting leaves the counter of the supervision alone.\<close>

definition counter_kept :: "'e driver \<Rightarrow> 'e driver \<Rightarrow> bool" where
  "counter_kept d d' \<longleftrightarrow> d_notConnectedCounter d' = d_notConnectedCounter d"

lemma counter_call: "call f d = (r, d') \<Longrightarrow> counter_kept d d'"
  by (auto simp: counter_kept_def call_def split: prod.splits)

lemma counter_trans: "counter_kept d d1 \<Longrightarrow> counter_kept d1 d2 \<Longrightarrow> counter_kept d d2"
  by (simp add: counter_kept_def)

lemma counter_stays: "stays d d' \<Longrightarrow> counter_kept d d'"
  by (simp add: counter_kept_def stays_def link_def)

lemma counter_keep: "keep d d' \<Longrightarrow> counter_kept d d'"
  by (simp add: counter_kept_def keep_def)

lemma counter_connect:
  assumes "connect lib self d = Done (r, d')"
  shows "counter_kept d d'"
  using assms unfolding connect_def
proof (rule with_guard_via)
  fix cp x
  fix d1 d2 :: "'a driver"
  assume "Done (connect_body lib cp d1) = Done (x, d2)"
  then have "start_view d2 = start_view d1" by (metis connect_body_outcome run.inject)
  then show "counter_kept d1 d2" by (simp add: counter_kept_def start_view_def)
qed (auto intro: counter_trans counter_stays)

lemma stays_disconnect [simp]: "stays d (snd (disconnect lib d))"
  by (auto simp: disconnect_def split: prod.split dest: stays_call)

lemma firm_finish:
  assumes "cyclic_finish lib self one d = Done (c, d')"
  shows "firm d d'"
proof -
  define d1 where "d1 = d\<lparr>d_notConnectedCounter := count_connection one (d_notConnectedCounter d)\<rparr>"
  have 1: "firm d d1" by (simp add: d1_def)
  have off: "firm d1 (snd (disconnect lib (d1\<lparr>d_connectedAds := False\<rparr>)))"
    by (rule firm_trans [OF _ stays_firm [OF stays_disconnect]]) simp
  have "firm d1 d'"
    using assms off unfolding cyclic_finish_def Let_def d1_def [symmetric]
    by (auto simp: run_bind_Done_iff split: if_splits dest!: firm_connect intro: firm_trans)
  with 1(1) show ?thesis by (rule firm_trans)
qed

lemma near_cyclic:
  assumes "cyclicThread_round lib self cp allow d = Done (c, d')"
  shows "near d d' \<and> settles d d'"
  using assms
proof (cases rule: round_parts)
  case (work one d1 d2)
  have f: "firm d2 d'" by (rule firm_finish [OF work(3)])
  have "settles d d1" "settles d1 d2" "settles d2 d'"
    using settles_cyclic_ports [OF work(1)] settles_view [OF view_publish [OF work(2)]] firm_settles [OF f] by simp_all
  then have "settles d d'" by (meson settles_trans)
  then show ?thesis using near_trans [OF keep_near [OF work(4)] firm_near [OF f]] by simp
qed (auto simp: near_def)

lemma near_symbols_changed:
  assumes "adsSymbolsChangedCallback lib t n d = Done (x, d')"
  shows "near d d' \<and> settles d d'"
  using assms unfolding adsSymbolsChangedCallback_def
proof (rule with_guard_via)
  fix cp d1 y d2
  assume "run_bind (refreshParams lib cp n (snd (invalidateParams n d1))) (\<lambda>(_, d1). Done ((), d1)) =
    Done (y, d2 :: 'a driver)"
  then obtain st where "refreshParams lib cp n (snd (invalidateParams n d1)) = Done (st, d2)"
    by (auto simp: run_bind_Done_iff)
  note r = this
  from keep_trans [OF keep_invalidate keep_refresh [OF r]] have "near d1 d2" by (rule keep_near)
  moreover have "settles d1 d2"
    by (rule settles_trans [OF settles_view [OF view_invalidate] settles_refresh [OF r]])
  ultimately show "near d1 d2 \<and> settles d1 d2" by simp
next
  fix d d1 d2 :: "'a driver"
  assume "near d d1 \<and> settles d d1" "near d1 d2 \<and> settles d1 d2"
  then show "near d d2 \<and> settles d d2" using near_trans settles_trans by blast
next
  fix d d1 :: "'a driver"
  assume "stays d d1"
  then show "near d d1 \<and> settles d d1" by (simp add: stays_near stays_settles)
qed

lemma stays_update [stays_dests]: "adsUpdateParameter lib i p data n d = Done (st, p', d') \<Longrightarrow> stays d d'"
  by (erule update_outcome) simp

lemma stays_alarm [stays_dests]: "setAlarmParam lib p a s d = (st, p', d') \<Longrightarrow> stays d d'"
  by (drule setAlarmParam_frame) (simp add: stays_frame)

lemma stays_check [stays_dests]: "checkEthercatMasterForParam lib cp p d = (r, d') \<Longrightarrow> stays d d'"
  by (drule check_frame) (rule stays_ecat)

lemma stays_address [stays_dests]: "param_address lib cp p d = (r, p', d') \<Longrightarrow> stays d d'"
  by (auto simp: param_address_def adsGetSymInfoByName_def adsGetSymInfoByName_entry_def adsGetSymHandleByName_def
      Let_def split: prod.splits if_splits dest!: stays_call intro: stays_trans)

section \<open>Reading and writing values\<close>

text \<open>
  An operation on a parameter \<open>p\<close> that hands out the parameter and the driver: the driver stays,
  and the parameter keeps its link, its index, its place and its mark.
\<close>

definition stays_with :: "adsParamInfo \<Rightarrow> 'e driver \<Rightarrow> adsParamInfo \<Rightarrow> 'e driver \<Rightarrow> bool" where
  "stays_with p d p' d' \<longleftrightarrow> stays d d' \<and> same_slot p p' \<and> (p_refreshNeeded p \<longrightarrow> p_refreshNeeded p')"

lemma same_slot_updates [simp]:
  "same_slot p (p'\<lparr>p_alarmStatus := a\<rparr>) = same_slot p p'" "same_slot p (p'\<lparr>p_plcTimeStampRaw := t\<rparr>) = same_slot p p'"
  "same_slot p (p'\<lparr>p_firstReadDone := b\<rparr>) = same_slot p p'" "same_slot p (p'\<lparr>p_plcDataTypeWarn := b\<rparr>) = same_slot p p'"
  "same_slot p (p'\<lparr>p_arrayDataBuffer := m\<rparr>) = same_slot p p'" "same_slot p (p'\<lparr>p_refreshNeeded := b\<rparr>) = same_slot p p'"
  "same_slot p (p'\<lparr>p_lastCallbackSize := n\<rparr>) = same_slot p p'"
  by (simp_all add: slot_defs)

lemma with_refl [simp]: "stays_with p d p d"
  by (simp add: stays_with_def)

lemma with_trans: "stays_with p d p1 d1 \<Longrightarrow> stays_with p1 d1 p2 d2 \<Longrightarrow> stays_with p d p2 d2"
  by (auto simp: stays_with_def intro: stays_trans same_slot_trans)

lemma mark_alarm: "setAlarmParam lib p a s d = (st, p', d') \<Longrightarrow> p_refreshNeeded p' = p_refreshNeeded p"
  by (drule setAlarmParam_frame) (unfold alarm_frame_def, elim conjE exE, erule ssubst, simp)

lemma mark_update: "adsUpdateParameter lib i p data n d = Done (st, p', d') \<Longrightarrow> p_refreshNeeded p' = p_refreshNeeded p"
  by (erule update_outcome) simp

lemma mark_address: "param_address lib cp p d = (r, p', d') \<Longrightarrow> p_refreshNeeded p' = p_refreshNeeded p"
  by (auto simp: param_address_def adsGetSymInfoByName_def adsGetSymHandleByName_def split: prod.splits if_splits)

lemma with_alarm: "setAlarmParam lib p a s d = (st, p', d') \<Longrightarrow> stays_with p d p' d'"
  by (auto simp: stays_with_def dest: slot_alarm stays_alarm mark_alarm)

lemma with_update: "adsUpdateParameter lib i p data n d = Done (st, p', d') \<Longrightarrow> stays_with p d p' d'"
  by (auto simp: stays_with_def dest: slot_update stays_update mark_update)

lemma with_put_back: "stays_with (d_params d ! i) d p' d' \<Longrightarrow> stays d (set_param i p' d')"
  by (auto simp: stays_with_def intro: stays_set_param)

lemma with_read:
  assumes "adsReadParam lib cp i p upd d = Done (st, err, p', d')"
  shows "stays_with p d p' d'"
proof (cases "d_stopThreads d")
  case True
  then show ?thesis using assms by (simp add: adsReadParam_def)
next
  case run: False
  obtain av d1 where chk: "checkEthercatMasterForParam lib cp p d = (av, d1)" by fastforce
  obtain r p1 d2 where adr: "param_address lib cp p d1 = (r, p1, d2)" by (metis prod.exhaust)
  have 1: "stays_with p d p d1" using stays_check [OF chk] by (simp add: stays_with_def)
  have 2: "stays_with p d p1 d2"
    by (rule with_trans [OF 1]) (simp add: stays_with_def stays_address [OF adr] slot_address [OF adr] mark_address [OF adr])
  show ?thesis
  proof (cases "av \<and> r \<noteq> None")
    case False
    then show ?thesis
      using assms run chk adr 1 2 by (cases r) (auto simp: adsReadParam_def Let_def split: if_splits)
  next
    case True
    then obtain g off where r: "r = Some (g, off)" by auto
    obtain e bs n d3 where c: "call (AdsSyncReadReqEx2 lib cp
        \<lparr>netId = adsTargetNetIdForParam d1 p, addr_port = p_amsPort p\<rparr> g off (p_plcSize p1)) d2 = ((e, bs, n), d3)"
      by (metis prod_cases3 prod.exhaust)
    have 3: "stays_with p d p1 d3" "stays_with p d (p1\<lparr>p_plcTimeStampRaw := 0, p_firstReadDone := True\<rparr>) d3"
      using 2 stays_call [OF c] by (auto simp: stays_with_def intro: stays_trans)
    show ?thesis
      using assms run chk adr True r c 3
      by (auto simp: adsReadParam_def Let_def run_bind_Done_iff split: if_splits intro: with_trans with_update)
  qed
qed

lemma with_write:
  assumes "adsWriteParam lib cp p bs n d = Done (st, p', d')"
  shows "stays_with p d p' d'"
proof -
  obtain av d1 where chk: "checkEthercatMasterForParam lib cp p d = (av, d1)" by fastforce
  obtain r p1 d2 where adr: "param_address lib cp p d1 = (r, p1, d2)" by (metis prod.exhaust)
  have 1: "stays_with p d p d1" using stays_check [OF chk] by (simp add: stays_with_def)
  have 2: "stays_with p d p1 d2"
    by (rule with_trans [OF 1]) (simp add: stays_with_def stays_address [OF adr] slot_address [OF adr] mark_address [OF adr])
  have "stays_with p d p1 (snd (call f d2))" for f :: "'a \<Rightarrow> int \<times> 'a"
    using 2 by (simp add: stays_with_def)
  then show ?thesis
    using assms chk adr 1 2
    by (auto simp: adsWriteParam_def Let_def run_bind_Done_iff case_prod_unfold split: if_splits option.splits)
qed

text \<open>A parameter of the table whose alarm is set before it is put back.\<close>

lemma stays_alarmed:
  assumes "stays_with (d_params d ! i) d p1 d1" and "setAlarmParam lib p1 a s d1 = (st, p2, d2)"
  shows "stays d (set_param i p2 d2)"
  by (rule with_put_back) (rule with_trans [OF assms(1) with_alarm [OF assms(2)]])

lemma stays_reset:
  assumes "stays_with (d_params d ! i) d p1 d1"
    and "(if b then snd (setAlarmParam lib p1 a s d1) else (p1, d1)) = (p2, d2)"
  shows "stays d (set_param i p2 d2)"
  using assms stays_alarmed [OF assms(1), of lib a s] with_put_back [OF assms(1)]
  by (cases "setAlarmParam lib p1 a s d1") (auto split: if_splits)

lemma stays_ams_state:
  assumes "write_ams_state lib cp i v d = (st, d')"
  shows "stays d d'"
proof -
  obtain w d1 where w: "adsWriteState lib cp (p_amsPort (d_params d ! i)) (nat (v mod 2 ^ 16)) d = (w, d1)"
    by (metis prod.exhaust)
  then have 1: "stays d d1" by (auto simp: adsWriteState_def dest!: stays_call split: prod.splits)
  then have "stays_with (d_params d ! i) d (d_params d ! i) d1" by (simp add: stays_with_def)
  note al = stays_alarmed [OF this]
  show ?thesis
    using assms w 1 by (auto simp: write_ams_state_def Let_def split: if_splits prod.splits dest!: al)
qed

lemma stays_write_image:
  assumes "write_image lib cp i img n base d = Done (st, d')"
  shows "stays d d'"
proof -
  define p where "p = d_params d ! i"
  define p1 where "p1 = (if n > length img \<or> n > p_plcSize p then p\<lparr>p_plcDataTypeWarn := True\<rparr> else p)"
  have 1: "stays_with (d_params d ! i) d p1 d" by (simp add: stays_with_def p1_def p_def)
  note w = assms [unfolded write_image_def Let_def, folded p_def, folded p1_def]
  show ?thesis
  proof (cases "length img \<noteq> p_plcSize p1 \<or> length img = 0")
    case True
    then show ?thesis using w stays_alarmed [OF 1] by (auto split: prod.splits)
  next
    case False
    then obtain s2 p2 d2 where wr: "adsWriteParam lib cp p1 (img @ replicate (8 - length img) 0) (length img) d = Done (s2, p2, d2)"
      and k: "(if s2 \<noteq> asynSuccess
             then (case setAlarmParam lib p2 (sdk lib ''WRITE_ALARM'') (sdk lib ''INVALID_ALARM'') d2 of
                     (_, p3, d2) \<Rightarrow> Done (asynError, set_param i p3 d2))
             else
               (case (if p_alarmStatus p2 = sdk lib ''WRITE_ALARM''
                      then snd (setAlarmParam lib p2 (sdk lib ''NO_ALARM'') (sdk lib ''NO_ALARM'') d2)
                      else (p2, d2)) of
                  (p3, d2) \<Rightarrow> Done (call base (set_param i p3 d2)))) = Done (st, d')"
      using w unfolding if_not_P [OF False] run_bind_Done_iff by auto
    have 2: "stays_with (d_params d ! i) d p2 d2" by (rule with_trans [OF 1 with_write [OF wr]])
    have c: "stays d d'" if "call base x = (st, d')" "stays d x" for x
      using that stays_call stays_trans by metis
    show ?thesis
    proof (cases "s2 = asynSuccess")
      case False
      then show ?thesis using k stays_alarmed [OF 2] by (auto split: prod.splits)
    next
      case True
      obtain p3 d3 where r: "(if p_alarmStatus p2 = sdk lib ''WRITE_ALARM''
                      then snd (setAlarmParam lib p2 (sdk lib ''NO_ALARM'') (sdk lib ''NO_ALARM'') d2)
                      else (p2, d2)) = (p3, d3)" by (metis prod.exhaust)
      then show ?thesis using k True c stays_reset [OF 2 r] by simp
    qed
  qed
qed

lemma stays_read_scalar:
  assumes "read_scalar lib cp ty u d = Done (r, d')"
  shows "stays d d'"
proof -
  obtain i s1 e p1 d1 where rd: "adsReadParam lib cp i (d_params d ! i) True d = Done (s1, e, p1, d1)"
    and k: "(if s1 \<noteq> asynSuccess
       then (case setAlarmParam lib p1 (sdk lib ''READ_ALARM'') (sdk lib ''INVALID_ALARM'') d1 of
               (st, p2, d2) \<Rightarrow> Done ((st, None), set_param i p2 d2))
       else
         (case (if p_alarmStatus p1 = sdk lib ''READ_ALARM''
                then snd (setAlarmParam lib p1 (sdk lib ''NO_ALARM'') (sdk lib ''NO_ALARM'') d1)
                else (p1, d1)) of
            (p2, d2) \<Rightarrow>
              (case call (ab_readValue lib ty (au_reason u)) (set_param i p2 d2) of
                 ((st, v), d3) \<Rightarrow> Done ((st, Some v), d3)))) = Done (r, d')"
    using assms unfolding read_scalar_def run_bind_Done_iff by auto
  have 1: "stays_with (d_params d ! i) d p1 d1" by (rule with_read [OF rd])
  show ?thesis
  proof (cases "s1 = asynSuccess")
    case False
    then show ?thesis using k stays_alarmed [OF 1] by (auto split: prod.splits)
  next
    case True
    then obtain p2 d2 x where "(if p_alarmStatus p1 = sdk lib ''READ_ALARM''
                then snd (setAlarmParam lib p1 (sdk lib ''NO_ALARM'') (sdk lib ''NO_ALARM'') d1)
                else (p1, d1)) = (p2, d2)"
      and c: "call (ab_readValue lib ty (au_reason u)) (set_param i p2 d2) = (x, d')"
      using k by (auto split: prod.splits)
    from stays_reset [OF 1 this(1)] stays_call [OF c] show ?thesis by (rule stays_trans)
  qed
qed

lemma stays_alarm_error: "stays_with (d_params d ! i) d p1 d1 \<Longrightarrow> stays d (alarm_error lib i p1 alarm d1)"
  by (auto simp: alarm_error_def split: prod.split dest: stays_alarmed)

lemma stays_alarm_reset: "stays_with (d_params d ! i) d p1 d1 \<Longrightarrow> stays d (alarm_reset lib i p1 alarm d1)"
  by (auto simp: alarm_reset_def split: prod.split dest: stays_alarmed with_put_back)

lemma stays_array_read: "adsGenericArrayRead lib u t value n d = Done (r, d') \<Longrightarrow> stays d d'"
  by (auto simp: adsGenericArrayRead_def Let_def run_bind_Done_iff stays_alarm_error stays_alarm_reset
      split: if_splits option.splits)

lemma stays_read_as: "array_read_as lib t w u value n d = Done (r, d') \<Longrightarrow> stays d d'"
  by (auto simp: array_read_as_def run_bind_Done_iff split: if_splits dest!: stays_array_read)

lemma stays_array_write:
  assumes "adsGenericArrayWrite lib cp u t data n d = Done (st, d')"
  shows "stays d d'"
proof -
  define i where "i = nat (au_reason u)"
  define m where "m = min (p_plcSize (d_params d ! i)) n"
  show ?thesis
  proof (cases "au_reason u \<ge> int (d_paramCount d) \<or> \<not> extendedAllowedType (d_params d ! i) t")
    case True
    then show ?thesis
      using assms by (auto simp: adsGenericArrayWrite_def Let_def param_at_def run_bind_Done_iff stays_alarm_error i_def
          split: if_splits)
  next
    case False
    then have at: "param_at d (au_reason u) = Done i"
      using assms by (auto simp: adsGenericArrayWrite_def param_at_def i_def split: if_splits)
    define k where "k = (\<lambda>(s1, p1, d1 :: 'a driver).
      if s1 \<noteq> asynSuccess then Done (asynError, alarm_error lib i p1 ''WRITE_ALARM'' d1)
      else run_bind (case p_arrayDataBuffer p1 of
                       None \<Rightarrow> Done p1
                     | Some buf \<Rightarrow> run_bind (mem_read data 0 m) (\<lambda>bs.
                         run_bind (mem_write buf 0 bs) (\<lambda>buf'. Done (p1\<lparr>p_arrayDataBuffer := Some buf'\<rparr>))))
             (\<lambda>p2. Done (asynSuccess, alarm_reset lib i p2 ''WRITE_ALARM'' d1)))"
    have "run_bind (adsWriteParam lib cp (d_params d ! i) data m d) k = Done (st, d')"
      using assms False at unfolding adsGenericArrayWrite_def k_def m_def Let_def by simp
    then obtain s1 p1 d1 where w: "adsWriteParam lib cp (d_params d ! i) data m d = Done (s1, p1, d1)"
      and k: "k (s1, p1, d1) = Done (st, d')"
      by (auto simp: run_bind_Done_iff)
    have 1: "stays_with (d_params d ! i) d p1 d1" by (rule with_write [OF w])
    then have "stays_with (d_params d ! i) d (p1\<lparr>p_arrayDataBuffer := b\<rparr>) d1" for b by (simp add: stays_with_def)
    with 1 k show ?thesis
      by (auto simp: k_def run_bind_Done_iff stays_alarm_error stays_alarm_reset split: if_splits option.splits)
  qed
qed

section \<open>Threads\<close>

lemma stays_bulk_slots: "bulk_slots lib b js stat srd d = Done d' \<Longrightarrow> stays d d'"
proof (induction js arbitrary: stat srd d)
  case (Cons j js)
  obtain r where g: "getAdsParamInfo d (b_paramID b ! j) = Done r"
    using Cons.prems by (auto simp: run_bind_Done_iff)
  show ?case
  proof (cases r)
    case None
    then show ?thesis using Cons g by simp
  next
    case (Some p)
    let ?i = "nat (b_paramID b ! j)"
    have p: "p = d_params d ! ?i" using g Some by (auto simp: getAdsParamInfo_def split: if_splits)
    obtain q s p2 d1 where u: "adsUpdateParameter lib ?i q (Some (drop srd (d_bulkdata d))) (p_plcSize p) d = Done (s, p2, d1)"
      "same_slot p q" "p_refreshNeeded p \<longrightarrow> p_refreshNeeded q"
      and rest: "bulk_slots lib b js (stat + 4) (srd + p_lastCallbackSize p2) (set_param ?i p2 d1) = Done d'"
      using Cons.prems g Some by (auto simp: run_bind_Done_iff Let_def set_param_def split: if_splits) 
    have "stays_with (d_params d ! ?i) d p2 d1"
      using with_update [OF u(1)] u(2,3) p by (auto simp: stays_with_def intro: same_slot_trans)
    from with_put_back [OF this] Cons.IH [OF rest] show ?thesis by (rule stays_trans)
  qed
qed simp

lemma stays_bulk_request: "bulk_request lib cp b d = Done d' \<Longrightarrow> stays d d'"
  by (auto simp: bulk_request_def Let_def split: prod.splits if_splits dest!: stays_bulk_slots stays_call
      intro: stays_trans)

lemma stays_bulk_poll: "bulk_poll lib cp is d = Done d' \<Longrightarrow> stays d d'"
  by (induction "is" arbitrary: d)
     (auto simp: run_bind_Done_iff split: if_splits dest!: stays_bulk_request intro: stays_trans)

lemma stays_fire_one: "fireCallbacksForArrayParam lib p d = Done (st, d') \<Longrightarrow> stays d d'"
  by (auto simp: fireCallbacksForArrayParam_def Let_def run_bind_Done_iff split: if_splits option.splits
      dest!: stays_call)

lemma stays_fire_queue: "fire_queue lib is d = Done d' \<Longrightarrow> stays d d'"
  by (induction "is" arbitrary: d) (auto simp: run_bind_Done_iff dest!: stays_fire_one intro: stays_trans)

section \<open>Creating a parameter\<close>

text \<open>
  Creating a parameter leaves the output buffer and the queue alone; the list of AMS ports may grow, and
  a port may get the index of the new parameter.
\<close>

definition refs_ok :: "nat \<Rightarrow> (nat \<times> nat option) list \<Rightarrow> bool" where
  "refs_ok n rs \<longleftrightarrow> distinct (map fst rs) \<and> (\<forall>i. Some i \<in> snd ` set rs \<longrightarrow> i < n)"

definition beside_ok :: "nat \<Rightarrow> 'e driver \<Rightarrow> 'e driver \<Rightarrow> bool" where
  "beside_ok n d d' \<longleftrightarrow>
     counter_kept d d' \<and> d_octetAsciiBuffer d' = d_octetAsciiBuffer d \<and> d_datacbqueue d' = d_datacbqueue d \<and>
     (refs_ok n (port_refs d) \<longrightarrow> refs_ok n (port_refs d'))"

lemma beside_same: "beside_table d' = beside_table d \<Longrightarrow> counter_kept d d' \<Longrightarrow> beside_ok n d d'"
  by (simp add: beside_ok_def beside_table_def)

lemma beside_refl: "beside_ok n d d"
  by (rule beside_same) (simp_all add: counter_kept_def)

lemma beside_stays: "stays d d' \<Longrightarrow> beside_ok n d d'"
  by (rule beside_same [OF _ counter_stays]) (simp_all add: stays_def firm_def sys_view_def)

lemma beside_keep: "keep d d' \<Longrightarrow> beside_ok n d d'"
  by (rule beside_same [OF _ counter_keep], drule keep_near) (simp_all add: near_def sys_view_def)

lemma beside_connect: "connect lib self d = Done (r, d') \<Longrightarrow> beside_ok n d d'"
  by (rule beside_same [OF _ counter_connect], drule firm_connect) (simp_all add: firm_def sys_view_def)

lemma beside_trans [trans]: "beside_ok n d d1 \<Longrightarrow> beside_ok n d1 d2 \<Longrightarrow> beside_ok n d d2"
  by (simp add: beside_ok_def counter_kept_def)

lemma beside_set_param [simp]: "beside_ok n d (set_param i p d1) = beside_ok n d d1"
  by (simp add: beside_ok_def set_param_def port_refs_def counter_kept_def)

lemma stays_info_chunks: "info_chunks lib cp cs d = Done (st, d') \<Longrightarrow> stays d d'"
proof (induction cs arbitrary: d)
  case (Cons names rest)
  have "stays d1 d'" if "info_chunks lib cp rest (d1\<lparr>d_symbolDict := x\<rparr>) = Done (st, d')" for d1 x
    using Cons.IH [OF that] by simp
  then show ?case
    using Cons by (auto simp: Let_def run_bind_Done_iff split: prod.splits if_splits dest!: stays_call
        intro: stays_trans)
qed simp

lemma stays_handle_chunks: "stays d (handle_chunks lib cp cs d)"
proof (induction cs arbitrary: d)
  case (Cons keys rest)
  have "stays d1 (handle_chunks lib cp rest (d1\<lparr>d_symbolDict := x\<rparr>))" for d1 :: "'a driver" and x
    using Cons.IH [of "d1\<lparr>d_symbolDict := x\<rparr>"] by simp
  then show ?case
    using Cons.IH by (auto simp: Let_def split: prod.split dest!: stays_call intro: stays_trans)
qed simp

lemma stays_cache: "stays d (buildDrvInfoCache pdbbase d)"
  by (auto simp: buildDrvInfoCache_def stays_defs split: option.split)

lemma stays_resolve:
  assumes "resolve_symbols lib pdbbase link_order dict_order cp d = Done d'"
  shows "stays d d'"
proof -
  have i: "stays d d1"
    if "resolveSymbolInfo lib pdbbase link_order cp (d\<lparr>d_symInfoResolved := True\<rparr>) = Done (st, d1)" for st d1
  proof -
    have "stays d (buildDrvInfoCache pdbbase (d\<lparr>d_symInfoResolved := True, d_symbolDict := Map.empty\<rparr>))"
      by (rule stays_trans [OF _ stays_cache]) simp
    then show ?thesis
      using that by (auto simp: resolveSymbolInfo_def Let_def split: if_splits
          dest!: stays_info_chunks intro: stays_trans)
  qed
  then show ?thesis
    using assms stays_handle_chunks stays_trans
    by (fastforce simp: resolve_symbols_def run_bind_Done_iff resolveSymbolHandles_def split: if_splits)
qed

lemma stays_record_info: "getRecordInfoFromDrvInfo pdbbase s p d = (st, p', d') \<Longrightarrow> stays d d'"
  by (auto simp: getRecordInfoFromDrvInfo_def Let_def stays_cache split: option.splits)

lemma beside_add_port: "beside_ok n d (snd (addNewAmsPortToList lib m d))"
  by (auto simp: addNewAmsPortToList_def counter_kept_def beside_ok_def port_refs_def refs_ok_def new_port_def list_ex_iff comp_def)

lemma beside_set_port:
  assumes "k < length (d_amsPortList d)" and "port_amsPort port = port_amsPort (d_amsPortList d ! k)"
    and "port_paramInfo port = Some i" and "i < n"
  shows "beside_ok n d (set_port k port d)"
proof -
  have f: "map port_amsPort ((d_amsPortList d)[k := port]) = map port_amsPort (d_amsPortList d)"
    using assms(1,2) by (intro nth_equalityI) (auto simp: nth_list_update)
  have "j < n" if "Some j \<in> port_paramInfo ` set ((d_amsPortList d)[k := port])"
    "\<forall>i. Some i \<in> port_paramInfo ` set (d_amsPortList d) \<longrightarrow> i < n" for j
    using that assms(3,4) set_update_subset_insert [of "d_amsPortList d" k port] by (auto simp: image_iff) fastforce+
  with f show ?thesis
    by (auto simp: beside_ok_def set_port_def counter_kept_def port_refs_def refs_ok_def comp_def image_image)
qed

lemma first_index_found:
  "find P xs = Some x \<Longrightarrow> first_index P xs < length xs \<and> xs ! first_index P xs = x \<and> P x"
  by (induction xs) (auto simp: first_index_def split: if_splits)

lemma beside_parse:
  assumes "parsePlcInfofromDrvInfo lib scan_real drvInfo i p d = Done (st, p', d')" and "i < n"
  shows "beside_ok n d d'"
proof -
  have s: "beside_ok n d1 (snd (snd (parse_ams_state lib drvInfo i q d1)))" for q and d1 :: "'a driver"
  proof -
    define d2 where "d2 = snd (addNewAmsPortToList lib (p_amsPort q) d1)"
    have 2: "beside_ok n d1 d2" unfolding d2_def by (rule beside_add_port)
    show ?thesis
    proof (cases "strstr drvInfo ADS_AMS_STATE_COMMAND = None \<or> getAmsPortObject d2 (p_amsPort q) = None")
      case True
      then show ?thesis
        using 2 by (auto simp: parse_ams_state_def Let_def d2_def beside_refl split: option.split)
    next
      case False
      then obtain t port where t: "strstr drvInfo ADS_AMS_STATE_COMMAND = Some t" "getAmsPortObject d2 (p_amsPort q) = Some port"
        by auto
      let ?k = "first_index (\<lambda>r. port_amsPort r = p_amsPort q) (d_amsPortList d2)"
      note f = first_index_found [OF t(2) [unfolded getAmsPortObject_def]]
      have "beside_ok n d2 (set_port ?k (port\<lparr>port_paramInfo := Some i\<rparr>) d2)"
        using f assms(2) by (intro beside_set_port [where i = i]) auto
      with 2 have "beside_ok n d1 (set_port ?k (port\<lparr>port_paramInfo := Some i\<rparr>) d2)" by (rule beside_trans)
      then show ?thesis using t by (simp add: parse_ams_state_def Let_def d2_def)
    qed
  qed
  obtain adr where adr: "plc_adr_str drvInfo = Done adr"
    using assms(1) by (auto simp: parsePlcInfofromDrvInfo_def Let_def run_bind_Done_iff)
  show ?thesis
  proof (cases adr)
    case None
    then show ?thesis using assms(1) adr by (simp add: parsePlcInfofromDrvInfo_def Let_def beside_refl)
  next
    case (Some str)
    obtain st2 p2 where 2: "parse_options scan_real drvInfo d
        (p\<lparr>p_isIOIntr := ends_with CHR ''?'' drvInfo, p_plcAdrStr := str\<rparr>) = (st2, p2)"
      by (metis surj_pair)
    obtain st3 p3 d3 where 3: "parse_ams_state lib drvInfo i p2 d = (st3, p3, d3)" by (metis prod.exhaust)
    obtain st4 d4 where 4: "addNewAmsPortToList lib (p_amsPort p3) d3 = (st4, d4)" by (metis surj_pair)
    have k: "beside_ok n d d3" "beside_ok n d3 d4"
      using s [of d p2] 3 beside_add_port [of n d3 lib "p_amsPort p3"] 4 by simp_all
    then have "beside_ok n d d4" by (rule beside_trans)
    with k(1) show ?thesis
      using assms(1) adr Some 2 3 4 by (auto simp: parsePlcInfofromDrvInfo_def Let_def beside_refl split: if_splits)
  qed
qed

lemma beside_register:
  assumes "register_param lib pdbbase drvInfo i p d = (r, d')"
  shows "beside_ok n d d'"
proof -
  obtain s1 p1 d1 where 1: "getRecordInfoFromDrvInfo pdbbase drvInfo (p\<lparr>p_drvInfo := Some drvInfo\<rparr>) d = (s1, p1, d1)"
    by (metis prod.exhaust)
  obtain s2 index d2 where 2: "call (ab_createParam lib drvInfo (p_asynType p1)) d1 = ((s2, index), d2)"
    by (metis prod.exhaust)
  define d3 where "d3 = default_value lib (p_asynType p1) index d2"
  obtain s3 addr d4 where 4: "call (ab_getAddress lib) d3 = ((s3, addr), d4)" by (metis prod.exhaust)
  have "stays d d1" "stays d1 d2" "stays d3 d4"
    by (rule stays_record_info [OF 1], rule stays_call [OF 2], rule stays_call [OF 4])
  moreover have "stays d2 d3" by (cases "p_asynType p1") (simp_all add: d3_def default_value_def)
  ultimately have k: "beside_ok n d d1" "beside_ok n d d2" "beside_ok n d d4"
    by (meson beside_stays stays_trans)+
  have "beside_ok n d (x\<lparr>d_paramCount := c, d_createdParamsMap := m\<rparr>)" if "beside_ok n d x" for x c m
    using that by (simp add: beside_ok_def port_refs_def counter_kept_def)
  then show ?thesis
    using assms 1 2 4 k by (auto simp: register_param_def d3_def [symmetric] Let_def split: if_splits)
qed

lemma beside_link:
  assumes "link_param lib self cp drvInfo i d = Done (st, d')"
  shows "beside_ok n d d'"
proof -
  obtain d1 where 1: "(if d_connectedAds d then Done d else run_bind (connect lib self d) (\<lambda>(_, d1). Done d1)) = Done d1"
    and 2: "(let p = d_params d1 ! i
       in if d_connectedAds d1 \<and> p_dataSource p \<noteq> ADS_DATASOURCE_AMS_STATE
          then run_bind (updateParamInfoWithPLCInfo lib cp p d1) (\<lambda>(stat, p1, d2).
                 if stat \<noteq> asynSuccess then Done (asynError, set_param i p1 d2)
                 else Done (call (ab_drvUserCreate lib drvInfo) (set_param i p1 d2)))
          else Done (call (ab_drvUserCreate lib drvInfo) d1)) = Done (st, d')"
    using assms by (auto simp: link_param_def run_bind_Done_iff)
  have c: "beside_ok n d d1"
    using 1 by (auto simp: run_bind_Done_iff split: if_splits dest!: beside_connect simp: beside_refl)
  have u: "beside_ok n d1 d2" if "updateParamInfoWithPLCInfo lib cp p d1 = Done (s, p1, d2)" for s p p1 d2
    using table_update_info [OF that] by (intro beside_keep table_keep)
  have "beside_ok n d1 d'"
    using 2 u by (auto simp: Let_def run_bind_Done_iff split: if_splits dest!: stays_call beside_stays [where n = n])
      (metis beside_set_param beside_trans)+
  with c show ?thesis by (rule beside_trans)
qed

text \<open>How creating a parameter ends, and the steps that it took.\<close>

lemma user_create_ends:
  assumes "drvUserCreate lib scan_real pdbbase link_order dict_order self drvInfo d = Done (r, d')"
  obtains (closed) d1 where "guard_enter lib self d = (None, d1)" and "d' = guard_leave lib self d1"
    | (refused) cp d1 d3 d2 where "guard_enter lib self d = (Some cp, d1)"
      and "resolve_symbols lib pdbbase link_order dict_order cp d1 = Done d3"
      and "d2 = d3 \<or> d2 = snd (call (ab_drvUserCreate lib drvInfo) d3)" and "d' = guard_leave lib self d2"
    | (entered) cp d1 d3 p s4 p4 d4 q d5 x d2 where "guard_enter lib self d = (Some cp, d1)"
      and "resolve_symbols lib pdbbase link_order dict_order cp d1 = Done d3"
      and "int (d_paramCount d3) < d_paramTableSize d3 - 1" and "p_bulkIndex p = - 1"
      and "parsePlcInfofromDrvInfo lib scan_real drvInfo (d_paramCount d3) p d3 = Done (s4, p4, d4)"
      and "register_param lib pdbbase drvInfo (d_paramCount d3) p4 d4 = (q, d5)"
      and "s4 \<noteq> asynSuccess \<and> d2 = set_param (d_paramCount d3) p4 d4 \<or>
           s4 = asynSuccess \<and> q \<noteq> None \<and> d2 = d5 \<or>
           s4 = asynSuccess \<and> q = None \<and> link_param lib self cp drvInfo (d_paramCount d3) d5 = Done (x, d2)"
      and "d' = guard_leave lib self d2"
proof -
  obtain c d1 where e: "guard_enter lib self d = (c, d1)" by (metis prod.exhaust)
  show thesis
  proof (cases c)
    case None
    then show thesis using assms e closed by (simp add: drvUserCreate_def with_guard_def)
  next
    case (Some cp)
    obtain x d2 where b: "run_bind (resolve_symbols lib pdbbase link_order dict_order cp d1) (\<lambda>d1.
         if validateDrvInfo drvInfo \<noteq> asynSuccess then Done (asynError, d1)
         else if d_createdParamsMap d1 drvInfo \<noteq> None then Done (call (ab_drvUserCreate lib drvInfo) d1)
         else if int (d_paramCount d1) \<ge> d_paramTableSize d1 - 1 then Done (asynError, d1)
         else
           let i = d_paramCount d1;
               p = (d_params d1 ! i)\<lparr>p_sampleTimeMS := int_to_f64 (d_defaultSampleTimeMS d1),
                     p_maxDelayTimeMS := int_to_f64 (d_defaultMaxDelayTimeMS d1), p_refreshNeeded := True,
                     p_bulkIndex := - 1, p_bulkOffset := - 1\<rparr>
           in run_bind (parsePlcInfofromDrvInfo lib scan_real drvInfo i p d1) (\<lambda>(stat, p1, d2).
                if stat \<noteq> asynSuccess then Done (asynError, set_param i p1 d2)
                else
                  case register_param lib pdbbase drvInfo i p1 d2 of
                    (Some stat1, d3) \<Rightarrow> Done (stat1, d3)
                  | (None, d3) \<Rightarrow> link_param lib self cp drvInfo i d3)) = Done (x, d2)"
      and d': "d' = guard_leave lib self d2"
      using assms e Some unfolding drvUserCreate_def with_guard_def by (auto simp: run_bind_Done_iff)
    then obtain d3 where res: "resolve_symbols lib pdbbase link_order dict_order cp d1 = Done d3"
      by (auto simp: run_bind_Done_iff)
    show thesis
    proof (cases "validateDrvInfo drvInfo = asynSuccess \<and> d_createdParamsMap d3 drvInfo = None \<and>
        int (d_paramCount d3) < d_paramTableSize d3 - 1")
      case False
      then have "d2 = d3 \<or> d2 = snd (call (ab_drvUserCreate lib drvInfo) d3)"
        using b res by (auto simp: not_less prod_eq_iff split: if_splits)
      then show thesis using refused [OF e [unfolded Some] res _ d'] by blast
    next
      case True
      let ?i = "d_paramCount d3"
      let ?p = "(d_params d3 ! ?i)\<lparr>p_sampleTimeMS := int_to_f64 (d_defaultSampleTimeMS d3),
                     p_maxDelayTimeMS := int_to_f64 (d_defaultMaxDelayTimeMS d3), p_refreshNeeded := True,
                     p_bulkIndex := - 1, p_bulkOffset := - 1\<rparr>"
      obtain s4 p4 d4 where parse: "parsePlcInfofromDrvInfo lib scan_real drvInfo ?i ?p d3 = Done (s4, p4, d4)"
        and rest: "(if s4 \<noteq> asynSuccess then Done (asynError, set_param ?i p4 d4)
            else case register_param lib pdbbase drvInfo ?i p4 d4 of
                (Some stat1, d3) \<Rightarrow> Done (stat1, d3)
              | (None, d3) \<Rightarrow> link_param lib self cp drvInfo ?i d3) = Done (x, d2)"
        using b res True by (auto simp: Let_def run_bind_Done_iff not_less)
      obtain q d5 where reg: "register_param lib pdbbase drvInfo ?i p4 d4 = (q, d5)" by (metis surj_pair)
      have "s4 \<noteq> asynSuccess \<and> d2 = set_param ?i p4 d4 \<or> s4 = asynSuccess \<and> q \<noteq> None \<and> d2 = d5 \<or>
          s4 = asynSuccess \<and> q = None \<and> link_param lib self cp drvInfo ?i d5 = Done (x, d2)"
        using rest reg by (auto split: if_splits option.splits)
      then show thesis using True by (intro entered [OF e [unfolded Some] res _ _ parse reg _ d', where x = x]) simp_all
    qed
  qed
qed

lemma user_create_beside:
  assumes "drvUserCreate lib scan_real pdbbase link_order dict_order self drvInfo d = Done (r, d')"
    and "created_ok d"
  shows "beside_ok (length (d_params d)) d d'"
proof -
  let ?n = "length (d_params d)"
  note via = beside_trans [OF _ beside_stays]
  from assms(1) show ?thesis
  proof (cases rule: user_create_ends)
    case (closed d1)
    then show ?thesis using via beside_stays stays_enter stays_leave by metis
  next
    case (refused cp d1 d3 d2)
    have "beside_ok ?n d d3" by (rule via [OF beside_stays [OF stays_enter [OF refused(1)]] stays_resolve [OF refused(2)]])
    then have "beside_ok ?n d d2" using refused(3) via [of ?n d d3 d2] by auto
    then show ?thesis unfolding refused(4) by (rule via [OF _ stays_leave])
  next
    case (entered cp d1 d3 p s4 p4 d4 q d5 x d2)
    have 3: "beside_ok ?n d d3"
      by (rule via [OF beside_stays [OF stays_enter [OF entered(1)]] stays_resolve [OF entered(2)]])
    have "table_of d3 = table_of d"
      using table_of_resolve [OF entered(2)] table_of_enter [of lib self d] entered(1) by simp
    then have "d_paramCount d3 < ?n" using entered(3) assms(2) by (simp add: table_of_def created_ok_def)
    then have 4: "beside_ok ?n d d4" by (rule beside_trans [OF 3 beside_parse [OF entered(5)]])
    have 5: "beside_ok ?n d d5" by (rule beside_trans [OF 4 beside_register [OF entered(6)]])
    have "beside_ok ?n d d2" using entered(7) 4 5 beside_trans [OF 5 beside_link] by auto
    then show ?thesis unfolding entered(8) by (rule via [OF _ stays_leave])
  qed
qed

end
