(* ===== verification/Ads_Reach.thy ===== *)
theory Ads_Reach
  imports Ads_System
begin

text \<open>
  The driver as a whole: every operation that asyn, the ADS library, the hook of the IOC or a thread of
  the driver can start is one step on the state, and every step keeps two invariants.  The first is about
  the table of parameters, the output buffer, the list of AMS ports and the queue of notifications, the
  second about the places of parameters in the bulk requests.  Over the steps of a process that runs on,
  the counter of the supervision stays below 2 and a connection that was lost is not noticed again.
\<close>

section \<open>The invariant\<close>

definition sys_ok :: "'e driver \<Rightarrow> bool" where
  "sys_ok d \<longleftrightarrow>
     created_ok d \<and> out_ok (d_octetAsciiBuffer d) \<and> refs_ok (length (d_params d)) (port_refs d) \<and>
     length (d_datacbqueue d) \<le> MAXCBQSIZE + 1 \<and> (\<forall>c \<in> set (d_datacbqueue d). cb_param c < d_paramCount d)"

lemma sys_ok_near: "near d d' \<Longrightarrow> sys_ok d' = sys_ok d"
proof -
  assume s: "near d d'"
  then have ids: "param_ids d' = param_ids d" by (simp add: near_def sys_view_def)
  then have "length (d_params d') = length (d_params d)" unfolding param_ids_def by (rule map_eq_imp_length_eq)
  moreover from this s ids have "created_ok d' = created_ok d"
    by (simp add: created_ok_def links_def near_def sys_view_def param_ids_def flip: drop_map take_map)
  ultimately show ?thesis using s by (simp add: sys_ok_def near_def sys_view_def beside_table_def)
qed

lemmas sys_ok_stays = sys_ok_near [OF stays_near]
lemmas sys_ok_firm = sys_ok_near [OF firm_near]

lemma sys_ok_create:
  assumes "drvUserCreate lib scan_real pdbbase link_order dict_order self drvInfo d = Done (r, d')" and "sys_ok d"
  shows "sys_ok d'"
proof -
  have ok: "created_ok d" using assms(2) by (simp add: sys_ok_def)
  have g: "grown drvInfo d d'" by (rule user_create_grown [OF ok assms(1), THEN conjunct1])
  have "length (d_params d') = length (d_params d)" using g ok by (simp add: grown_def created_ok_def)
  then show ?thesis
    using g assms(2) user_create_beside [OF assms(1) ok] by (auto simp: sys_ok_def beside_ok_def grown_def)
qed

text \<open>A notification that enters the queue, and one that is delivered.\<close>

lemma notified_outcome:
  "adsDataCallback lib hUser data t n d = Done d' \<Longrightarrow> d' = d \<or> length (d_datacbqueue d) \<le> MAXCBQSIZE \<and>
     (\<exists>c. cb_param c < d_paramCount d \<and> d' = d\<lparr>d_datacbqueue := d_datacbqueue d @ [c]\<rparr>)"
  by (auto simp: adsDataCallback_def getAdsParamInfo_def run_bind_Done_iff split: if_splits option.splits
      intro!: exI [where x = "\<lparr>cb_param = _, cb_data = _, cb_nTimeStamp = _, cb_cbSampleSize = _\<rparr>"])

lemma delivered_outcome:
  assumes "dataCallbackThread_round lib allow d = Done (c, d')"
  shows "d' = d \<or> (\<exists>d1. stays d d1 \<and> d' = d1\<lparr>d_datacbqueue := tl (d_datacbqueue d1)\<rparr>)"
proof (cases "d_stopThreads d \<or> d_datacbqueue d = [] \<or> \<not> allow")
  case True
  then show ?thesis using assms by (auto simp: dataCallbackThread_round_def split: if_splits list.splits)
next
  case False
  then obtain info rest where q: "d_datacbqueue d = info # rest" by (cases "d_datacbqueue d") auto
  let ?i = "cb_param info"
  let ?p = "(d_params d ! ?i)\<lparr>p_plcTimeStampRaw := cb_nTimeStamp info, p_lastCallbackSize := cb_cbSampleSize info\<rparr>"
  obtain st p1 d1 where u: "adsUpdateParameter lib ?i ?p (Some (cb_data info)) (cb_cbSampleSize info) d = Done (st, p1, d1)"
    and d': "d' = (set_param ?i p1 d1)\<lparr>d_datacbqueue := tl (d_datacbqueue (set_param ?i p1 d1))\<rparr>"
    using assms False q by (auto simp: dataCallbackThread_round_def Let_def run_bind_Done_iff set_param_def)
  have "stays_with (d_params d ! ?i) d p1 d1"
    using with_update [OF u] by (simp add: stays_with_def slot_defs)
  then show ?thesis using with_put_back d' by blast
qed

lemma sys_ok_notified:
  assumes "adsDataCallback lib hUser data t n d = Done d'" and "sys_ok d"
  shows "sys_ok d'"
  using notified_outcome [OF assms(1)] assms(2) by (auto simp: sys_ok_def created_ok_def links_def port_refs_def)

lemma sys_ok_delivered:
  assumes "dataCallbackThread_round lib allow d = Done (c, d')" and "sys_ok d"
  shows "sys_ok d'"
proof -
  have "sys_ok (d1\<lparr>d_datacbqueue := tl (d_datacbqueue d1)\<rparr>)" if "sys_ok d1" for d1 :: "'a driver"
    using that by (cases "d_datacbqueue d1") (auto simp: sys_ok_def created_ok_def links_def port_refs_def)
  then show ?thesis using delivered_outcome [OF assms(1)] assms(2) sys_ok_stays by metis
qed

section \<open>The steps\<close>

text \<open>
  One operation, by whichever thread: a link that a record opens, connecting, the accesses of records
  through the interfaces of asyn, the two callbacks of the ADS library, one round of each of the three
  threads that poll and deliver values, the hook of the IOC, and the client port that a thread takes when it
  starts and gives back when it ends.  The other arguments are free, and between two operations the world
  may change in any way.
\<close>

inductive sys_op :: "('e, 'z) start_lib_scheme \<Rightarrow> 'e driver \<Rightarrow> 'e driver \<Rightarrow> bool" for lib where
  create: "drvUserCreate lib scan_real pdbbase link_order dict_order self drvInfo d = Done (r, d') \<Longrightarrow>
    sys_op lib d d'"
| connects: "connect lib self d = Done (r, d') \<Longrightarrow> sys_op lib d d'"
| disconnects: "disconnect lib d = (st, d') \<Longrightarrow> sys_op lib d d'"
| do_writeInt32: "writeInt32 lib self u v d = Done (r, d') \<Longrightarrow> sys_op lib d d'"
| do_writeInt64: "writeInt64 lib self u v d = Done (r, d') \<Longrightarrow> sys_op lib d d'"
| do_writeFloat64: "writeFloat64 lib self u w d = Done (r, d') \<Longrightarrow> sys_op lib d d'"
| do_readInt32: "readInt32 lib self u d = Done (r, d') \<Longrightarrow> sys_op lib d d'"
| do_readInt64: "readInt64 lib self u d = Done (r, d') \<Longrightarrow> sys_op lib d d'"
| do_readFloat64: "readFloat64 lib self u d = Done (r, d') \<Longrightarrow> sys_op lib d d'"
| do_readInt8Array: "readInt8Array lib self u m n d = Done (r, d') \<Longrightarrow> sys_op lib d d'"
| do_readInt16Array: "readInt16Array lib self u m n d = Done (r, d') \<Longrightarrow> sys_op lib d d'"
| do_readInt32Array: "readInt32Array lib self u m n d = Done (r, d') \<Longrightarrow> sys_op lib d d'"
| do_readFloat32Array: "readFloat32Array lib self u m n d = Done (r, d') \<Longrightarrow> sys_op lib d d'"
| do_readInt64Array: "readInt64Array lib self u m n d = Done (r, d') \<Longrightarrow> sys_op lib d d'"
| do_readFloat64Array: "readFloat64Array lib self u m n d = Done (r, d') \<Longrightarrow> sys_op lib d d'"
| do_writeInt8Array: "writeInt8Array lib self u bs n d = Done (r, d') \<Longrightarrow> sys_op lib d d'"
| do_writeInt16Array: "writeInt16Array lib self u bs n d = Done (r, d') \<Longrightarrow> sys_op lib d d'"
| do_writeInt32Array: "writeInt32Array lib self u bs n d = Done (r, d') \<Longrightarrow> sys_op lib d d'"
| do_writeFloat32Array: "writeFloat32Array lib self u bs n d = Done (r, d') \<Longrightarrow> sys_op lib d d'"
| do_writeInt64Array: "writeInt64Array lib self u bs n d = Done (r, d') \<Longrightarrow> sys_op lib d d'"
| do_writeFloat64Array: "writeFloat64Array lib self u bs n d = Done (r, d') \<Longrightarrow> sys_op lib d d'"
| do_writeOctet: "writeOctet lib scan_real self line n d = Done (r, d') \<Longrightarrow> sys_op lib d d'"
| do_readOctet: "readOctet lib self timeout_zero out n d = Done (r, d') \<Longrightarrow> sys_op lib d d'"
| symbols_changed: "adsSymbolsChangedCallback lib self n d = Done (r, d') \<Longrightarrow> sys_op lib d d'"
| notified: "adsDataCallback lib hUser bs t n d = Done d' \<Longrightarrow> sys_op lib d d'"
| poll: "bulkReadThread_round lib cp d = Done (c, d') \<Longrightarrow> sys_op lib d d'"
| deliver_one: "dataCallbackThread_round lib allow d = Done (c, d') \<Longrightarrow> sys_op lib d d'"
| fire: "triggerEpicsIoIntrCallbacksThread_round lib allow d = Done (c, d') \<Longrightarrow> sys_op lib d d'"
| hook: "adsAsynPortObj g = Some d \<Longrightarrow> adsAsynPortObj (getEpicsState lib h g) = Some d' \<Longrightarrow> sys_op lib d d'"
| thread_starts: "guard_enter lib t d = (c, d') \<Longrightarrow> sys_op lib d d'"
| thread_ends: "sys_op lib d (guard_leave lib t d)"
| world: "sys_op lib d (d\<lparr>env := e\<rparr>)"

inductive_cases sys_opE: "sys_op lib d d'"

text \<open>
  A step is such an operation or a round of the cyclic thread.  A round may end the process; the process
  goes on only after the other rounds, so the states of a running process are those that \<open>live_step\<close>
  reaches.
\<close>

inductive sys_step :: "('e, 'z) start_lib_scheme \<Rightarrow> 'e driver \<Rightarrow> 'e driver \<Rightarrow> bool" for lib where
  operation: "sys_op lib d d' \<Longrightarrow> sys_step lib d d'"
| cyclic: "cyclicThread_round lib self cp allow d = Done (c, d') \<Longrightarrow> sys_step lib d d'"

inductive live_step :: "('e, 'z) start_lib_scheme \<Rightarrow> 'e driver \<Rightarrow> 'e driver \<Rightarrow> bool" for lib where
  live_operation: "sys_op lib d d' \<Longrightarrow> live_step lib d d'"
| live_round: "cyclicThread_round lib self cp allow d = Done (c, d') \<Longrightarrow> c \<noteq> Cycle_exit \<Longrightarrow> live_step lib d d'"

lemma live_sys: "live_step lib d d' \<Longrightarrow> sys_step lib d d'"
  by (erule live_step.cases) (auto intro: sys_step.intros)

lemma live_sys_steps: "(live_step lib)\<^sup>*\<^sup>* d d' \<Longrightarrow> (sys_step lib)\<^sup>*\<^sup>* d d'"
  by (rule rtranclp_mono [THEN predicate2D]) (auto intro: live_sys)

text \<open>The accesses of asyn; the bodies run inside a guard.\<close>

lemma stays_writes:
  "writeInt32 lib self u v d = Done (r, d') \<Longrightarrow> stays d d'"
  "writeInt64 lib self u v d = Done (r, d') \<Longrightarrow> stays d d'"
  "writeFloat64 lib self u w d = Done (r, d') \<Longrightarrow> stays d d'"
  unfolding writeInt32_def writeInt64_def writeFloat64_def
  by (erule with_guard_stays, auto simp: run_bind_Done_iff Let_def param_at_def
        split: if_splits option.splits prod.splits
        dest!: stays_ams_state stays_write_image stays_alarmed [OF with_refl])+
    (metis stays_ams_state surj_pair)

lemma stays_reads:
  "readInt32 lib self u d = Done (q, d') \<Longrightarrow> stays d d'"
  "readInt64 lib self u d = Done (q, d') \<Longrightarrow> stays d d'"
  "readFloat64 lib self u d = Done (q, d') \<Longrightarrow> stays d d'"
  unfolding readInt32_def readInt64_def readFloat64_def
  by (erule with_guard_stays, auto split: if_splits dest!: stays_read_scalar)+

lemma stays_array_reads:
  "readInt8Array lib self u m n d = Done (r, d') \<Longrightarrow> stays d d'"
  "readInt16Array lib self u m n d = Done (r, d') \<Longrightarrow> stays d d'"
  "readInt32Array lib self u m n d = Done (r, d') \<Longrightarrow> stays d d'"
  "readFloat32Array lib self u m n d = Done (r, d') \<Longrightarrow> stays d d'"
  "readInt64Array lib self u m n d = Done (r, d') \<Longrightarrow> stays d d'"
  "readFloat64Array lib self u m n d = Done (r, d') \<Longrightarrow> stays d d'"
  unfolding readInt8Array_def readInt16Array_def readInt32Array_def readFloat32Array_def readInt64Array_def
    readFloat64Array_def
  by (erule with_guard_stays, auto simp: run_bind_Done_iff split: if_splits dest!: stays_read_as)+

lemma stays_array_writes:
  "writeInt8Array lib self u bs n d = Done (r, d') \<Longrightarrow> stays d d'"
  "writeInt16Array lib self u bs n d = Done (r, d') \<Longrightarrow> stays d d'"
  "writeInt32Array lib self u bs n d = Done (r, d') \<Longrightarrow> stays d d'"
  "writeFloat32Array lib self u bs n d = Done (r, d') \<Longrightarrow> stays d d'"
  "writeInt64Array lib self u bs n d = Done (r, d') \<Longrightarrow> stays d d'"
  "writeFloat64Array lib self u bs n d = Done (r, d') \<Longrightarrow> stays d d'"
  unfolding writeInt8Array_def writeInt16Array_def writeInt32Array_def writeFloat32Array_def writeInt64Array_def
    writeFloat64Array_def
  by (erule with_guard_stays, auto simp: run_bind_Done_iff split: if_splits dest!: stays_array_write)+

lemma stays_rounds:
  "bulkReadThread_round lib cp d = Done (c, d') \<Longrightarrow> stays d d'"
  "triggerEpicsIoIntrCallbacksThread_round lib allow d = Done (c, d') \<Longrightarrow> stays d d'"
proof -
  assume "bulkReadThread_round lib cp d = Done (c, d')"
  then show "stays d d'"
    by (auto simp: bulkReadThread_round_def run_bind_Done_iff split: if_splits dest!: stays_bulk_poll)
next
  assume "triggerEpicsIoIntrCallbacksThread_round lib allow d = Done (c, d')"
  then show "stays d d'"
    by (auto simp: triggerEpicsIoIntrCallbacksThread_round_def fireAllCallbacksLock_def Let_def run_bind_Done_iff
        split: if_splits dest!: stays_fire_queue)
qed

lemma stays_hook:
  "adsAsynPortObj g = Some d \<Longrightarrow> adsAsynPortObj (getEpicsState lib h g) = Some d' \<Longrightarrow> stays d d'"
  by (auto simp: getEpicsState_def split: if_splits)

lemma sys_ok_octet: "oct_step d d' \<Longrightarrow> sys_ok d \<Longrightarrow> sys_ok d'"
  by (auto simp: sys_ok_def oct_step_def out_step_def beside_octet_def created_ok_def links_def port_refs_def)

text \<open>The operations with their threads and guards that keep the view.\<close>

lemmas stays_operations = stays_enter stays_writes stays_reads stays_array_reads stays_array_writes stays_rounds

lemma sys_ok_op: "sys_op lib d d' \<Longrightarrow> sys_ok d \<Longrightarrow> sys_ok d'"
proof (induction rule: sys_op.induct)
  case (create scan_real pdbbase link_order dict_order self drvInfo d r d')
  then show ?case by (rule sys_ok_create)
next
  case (connects self d r d')
  then show ?case using sys_ok_firm [OF firm_connect [OF connects(1)]] by simp
next
  case (disconnects d st d')
  then show ?case using sys_ok_stays [OF stays_disconnect [of d lib]] by simp
next
  case (do_writeOctet scan_real self line n d r d')
  then show ?case using sys_ok_octet writeOctet_oct by metis
next
  case (do_readOctet self timeout_zero out n d r d')
  then show ?case using sys_ok_octet readOctet_oct by metis
next
  case (notified hUser bs t n d d')
  then show ?case by (rule sys_ok_notified)
next
  case (deliver_one allow d c d')
  then show ?case by (rule sys_ok_delivered)
next
  case (symbols_changed self n d r d')
  then show ?case using sys_ok_near near_symbols_changed by metis
next
  case (hook g d h d')
  then show ?case using sys_ok_stays stays_hook by metis
next
  case (thread_ends d t)
  then show ?case using sys_ok_stays [OF stays_leave [of d lib t]] by simp
next
  case (world d e)
  then show ?case using sys_ok_stays [of d "d\<lparr>env := e\<rparr>"] by simp
qed (auto dest!: stays_operations dest: sys_ok_stays)

lemma sys_ok_step: "sys_step lib d d' \<Longrightarrow> sys_ok d \<Longrightarrow> sys_ok d'"
  by (erule sys_step.cases) (auto intro: sys_ok_op dest: near_cyclic sys_ok_near)

lemma sys_ok_steps: "(sys_step lib)\<^sup>*\<^sup>* d d' \<Longrightarrow> sys_ok d \<Longrightarrow> sys_ok d'"
  by (induction rule: rtranclp_induct) (auto intro: sys_ok_step)

text \<open>The state that the constructor leaves.\<close>

lemma constructed_view:
  fixes d :: "'e driver"
  assumes "adsAsynPortDriver lib self fuel a e = Done (Constructed, d)" and "self \<noteq> 0"
  obtains d0 :: "'e driver" where "prepared a d0"
    and "start_view d = start_view (d0\<lparr>d_adsPort := d_adsPort d, d_clientPorts := d_clientPorts d\<rparr>)"
proof -
  obtain d0 where p: "prepared a d0" and s: "start_ports lib self (a_amsport a) fuel d0 = Done (Constructed, d)"
    using constructor_reaches_ports [OF constructed_args [OF assms(1)], of lib self fuel e] assms(1) by auto
  then have "d_clientPorts d0 = Map.empty" by (simp add: prepared_def)
  from start_ports_outcome [OF s assms(2) this] show thesis using that [OF p] by blast
qed

lemma sys_ok_constructed:
  fixes d :: "'e driver"
  assumes "adsAsynPortDriver lib self fuel a e = Done (Constructed, d)" and "self \<noteq> 0"
  shows "sys_ok d"
proof -
  obtain d0 :: "'e driver" where p: "prepared a d0"
    and v: "start_view d = start_view (d0\<lparr>d_adsPort := d_adsPort d, d_clientPorts := d_clientPorts d\<rparr>)"
    by (rule constructed_view [OF assms]) blast
  have "created_ok d" using p v created_ok_table [of d d0] by (simp add: prepared_def start_view_def table_of_def)
  moreover have "map fst (port_refs d) = [a_amsport a mod 2 ^ 16]" "map snd (port_refs d) = [None]"
    using p v by (simp_all add: prepared_def start_view_def port_refs_def comp_def)
  moreover have "out_ok fresh_obuf" by (simp add: out_ok_def fresh_obuf_def ADS_CMD_BUFFER_SIZE_def)
  ultimately show ?thesis
    using p v by (auto simp: sys_ok_def refs_ok_def prepared_def start_view_def)
qed

section \<open>Places in the bulk requests\<close>

text \<open>Creating a parameter: it has no place before it is completed.\<close>

lemma parse_steps_bulk:
  assumes "\<And>f p st q. f \<in> set fs \<Longrightarrow> f p = (st, q) \<Longrightarrow> p_bulkIndex q = p_bulkIndex p"
  shows "parse_steps fs p = (st, q) \<Longrightarrow> p_bulkIndex q = p_bulkIndex p"
  using assms by (induction fs arbitrary: p) (auto split: prod.splits if_splits, metis)

lemma options_bulk: "parse_options scan_real drvInfo d p = (st, q) \<Longrightarrow> p_bulkIndex q = p_bulkIndex p"
  unfolding parse_options_def
  by (erule parse_steps_bulk [rotated])
     (auto simp: parse_adr_def parse_max_delay_def parse_sample_time_def parse_poll_rate_def parse_timebase_def
       parse_port_def Let_def split: option.splits prod.splits if_splits)

lemma parse_places:
  assumes "parsePlcInfofromDrvInfo lib scan_real drvInfo i p d = Done (st, p', d')"
  shows "slot_view d' = slot_view d \<and> (st = asynSuccess \<longrightarrow> p_bulkIndex p' = p_bulkIndex p)"
proof -
  have a: "slot_view (snd (addNewAmsPortToList lib n d1)) = slot_view d1" for n and d1 :: "'a driver"
    by (simp add: addNewAmsPortToList_def slot_view_def)
  then have s: "slot_view (snd (snd (parse_ams_state lib drvInfo i q d1))) = slot_view d1"
    "p_bulkIndex (fst (snd (parse_ams_state lib drvInfo i q d1))) = p_bulkIndex q" for q and d1 :: "'a driver"
    by (simp_all add: parse_ams_state_def Let_def split: option.split)
  obtain adr where adr: "plc_adr_str drvInfo = Done adr"
    using assms by (auto simp: parsePlcInfofromDrvInfo_def Let_def run_bind_Done_iff)
  show ?thesis
  proof (cases adr)
    case None
    then show ?thesis using assms adr by (simp add: parsePlcInfofromDrvInfo_def Let_def)
  next
    case (Some str)
    obtain st2 p2 where 2: "parse_options scan_real drvInfo d
        (p\<lparr>p_isIOIntr := ends_with CHR ''?'' drvInfo, p_plcAdrStr := str\<rparr>) = (st2, p2)"
      by (metis surj_pair)
    obtain st3 p3 d3 where 3: "parse_ams_state lib drvInfo i p2 d = (st3, p3, d3)" by (metis prod.exhaust)
    obtain st4 d4 where 4: "addNewAmsPortToList lib (p_amsPort p3) d3 = (st4, d4)" by (metis surj_pair)
    have "slot_view d3 = slot_view d" "slot_view d4 = slot_view d3" "p_bulkIndex p3 = p_bulkIndex p"
      using s [of p2 d] 3 a [of "p_amsPort p3" d3] 4 options_bulk [OF 2] by simp_all
    then show ?thesis
      using assms adr Some 2 3 4 by (auto simp: parsePlcInfofromDrvInfo_def Let_def split: if_splits)
  qed
qed

lemma settles_free: "d_paramCount d \<le> i \<Longrightarrow> settles d (set_param i p d)"
proof -
  assume i: "d_paramCount d \<le> i"
  have b: "bulk_view (set_param i p d) = bulk_view d" by (simp add: set_param_def)
  have "own (set_param i p d) q = own d q" for q using slot_ok_view [OF b refl] by (simp add: own_def)
  moreover have "d_params (set_param i p d) ! j = d_params d ! j" if "j \<in> {1..<d_paramCount d}" for j
    using i that by (simp add: set_param_def)
  moreover have "d_paramCount (set_param i p d) = d_paramCount d" "length (d_params (set_param i p d)) = length (d_params d)"
    by (simp_all add: set_param_def)
  ultimately show ?thesis using bulk_inv_view [OF b] by (auto simp: settles_def placed_def)
qed

text \<open>A parameter without a place that is taken into use.\<close>

lemma placed_new:
  assumes "placed d" and "slot_view d1 = slot_view d" and "p_bulkIndex p < 0" and "d_paramCount d < length (d_params d)"
  shows "placed ((set_param (d_paramCount d) p d1)\<lparr>d_paramCount := d_paramCount d + 1, d_createdParamsMap := m\<rparr>)"
    (is "placed ?d")
proof -
  have d1: "placed d1" using assms(1,2) placed_view by blast
  have c: "d_paramCount d1 = d_paramCount d" "length (d_params d1) = length (d_params d)"
    using assms(2) by (auto simp: slot_view_def dest: map_eq_imp_length_eq)
  have b: "bulk_view ?d = bulk_view d1" by (simp add: bulk_view_def set_param_def)
  have o: "own ?d q = own d1 q" for q using slot_ok_view [OF b refl] by (simp add: own_def)
  have at: "d_params ?d ! j = (if j = d_paramCount d then p else d_params d1 ! j)" for j
    using assms(4) c by (simp add: set_param_def nth_list_update)
  have n: "d_paramCount ?d = d_paramCount d + 1" "length (d_params ?d) = length (d_params d)"
    using c by (simp_all add: set_param_def)
  have "own d1 p" using assms(3) by (simp add: own_def)
  then show ?thesis
    using d1 bulk_inv_view [OF b] assms(3,4) c unfolding placed_def o at n by (auto simp: less_Suc_eq)
qed

lemma register_places:
  assumes "register_param lib pdbbase drvInfo (d_paramCount d) p d = (q, d')" and "p_bulkIndex p < 0"
    and "d_paramCount d < length (d_params d)"
  shows "settles d d' \<and> (q = None \<longrightarrow> d_paramCount d' = d_paramCount d + 1)"
proof -
  let ?i = "d_paramCount d"
  obtain s1 p1 d1 where 1: "getRecordInfoFromDrvInfo pdbbase drvInfo (p\<lparr>p_drvInfo := Some drvInfo\<rparr>) d = (s1, p1, d1)"
    by (metis prod.exhaust)
  obtain s2 index d2 where 2: "call (ab_createParam lib drvInfo (p_asynType p1)) d1 = ((s2, index), d2)"
    by (metis prod.exhaust)
  define d3 where "d3 = default_value lib (p_asynType p1) index d2"
  obtain s3 addr d4 where 4: "call (ab_getAddress lib) d3 = ((s3, addr), d4)" by (metis prod.exhaust)
  have b: "p_bulkIndex p1 = p_bulkIndex p"
    using 1 by (auto simp: getRecordInfoFromDrvInfo_def Let_def split: option.splits)
  have "slot_view d3 = slot_view d2" by (cases "p_asynType p1") (simp_all add: d3_def default_value_def)
  then have v: "slot_view d1 = slot_view d" "slot_view d2 = slot_view d" "slot_view d4 = slot_view d"
    using stays_slots [OF stays_record_info [OF 1]] slot_view_call [OF 2] slot_view_call [OF 4] by simp_all
  have free: "settles d (set_param ?i r x)" if "slot_view x = slot_view d" for r x
    using settles_trans [OF settles_view [OF that] settles_free] that by (simp add: slot_view_def)
  have c: "d_paramCount d4 = ?i" using v(3) by (simp add: slot_view_def)
  show ?thesis
  proof (cases "s1 = asynSuccess \<and> s2 = asynSuccess \<and> s3 = asynSuccess")
    case False
    then show ?thesis
      using assms(1) 1 2 4 free v by (auto simp: register_param_def d3_def [symmetric] Let_def split: if_splits)
  next
    case True
    let ?p = "p1\<lparr>p_paramIndex := index, p_asynAddr := addr\<rparr>"
    have "d' = (set_param ?i ?p d4)\<lparr>d_paramCount := ?i + 1, d_createdParamsMap := (d_createdParamsMap d4)(drvInfo \<mapsto> index)\<rparr>"
      using assms(1) 1 2 4 True c by (simp add: register_param_def d3_def [symmetric] Let_def)
    then show ?thesis
      using placed_new [OF _ v(3) _ assms(3), of ?p] b assms(2) by (simp add: settles_def)
  qed
qed

lemma link_places:
  assumes "link_param lib self cp drvInfo i d = Done (st, d')" and "i \<in> {1..<d_paramCount d}"
  shows "settles d d'"
proof -
  obtain d1 where 1: "(if d_connectedAds d then Done d else run_bind (connect lib self d) (\<lambda>(_, d1). Done d1)) = Done d1"
    and 2: "(let p = d_params d1 ! i
       in if d_connectedAds d1 \<and> p_dataSource p \<noteq> ADS_DATASOURCE_AMS_STATE
          then run_bind (updateParamInfoWithPLCInfo lib cp p d1) (\<lambda>(stat, p1, d2).
                 if stat \<noteq> asynSuccess then Done (asynError, set_param i p1 d2)
                 else Done (call (ab_drvUserCreate lib drvInfo) (set_param i p1 d2)))
          else Done (call (ab_drvUserCreate lib drvInfo) d1)) = Done (st, d')"
    using assms(1) by (auto simp: link_param_def run_bind_Done_iff)
  have s: "firm d d1" using 1 by (auto simp: run_bind_Done_iff split: if_splits dest!: firm_connect)
  then have i: "i \<in> {1..<d_paramCount d1}" using assms(2) by (simp add: firm_def slot_view_def)
  have u: "settles d1 (set_param i p1 d2)" if u: "updateParamInfoWithPLCInfo lib cp (d_params d1 ! i) d1 = Done (s, p1, d2)"
    for s p1 d2
    using placed_put_back [OF _ seated_update_info [OF u] i] table_update_info [OF u]
    by (simp add: settles_def set_param_def keep_table_def keep_def)
  have c: "settles x d'" if "call (ab_drvUserCreate lib drvInfo) x = (st, d')" for x
    by (rule settles_view) (rule slot_view_call [OF that])
  have "settles d1 d'"
    using 2 u c by (auto simp: Let_def run_bind_Done_iff split: if_splits) (meson settles_trans)+
  then show ?thesis using firm_settles [OF s] settles_trans by blast
qed

lemma create_places:
  assumes "drvUserCreate lib scan_real pdbbase link_order dict_order self drvInfo d = Done (r, d')"
    and "created_ok d"
  shows "settles d d'"
  using assms(1)
proof (cases rule: user_create_ends)
  case (closed d1)
  then show ?thesis using stays_settles stays_enter stays_leave settles_trans by metis
next
  case (refused cp d1 d3 d2)
  have "stays d d3" by (rule stays_trans [OF stays_enter [OF refused(1)] stays_resolve [OF refused(2)]])
  then have "stays d d2" using refused(3) by auto
  then show ?thesis unfolding refused(4) by (intro stays_settles stays_trans [OF _ stays_leave])
next
  case (entered cp d1 d3 p s4 p4 d4 q d5 x d2)
  let ?i = "d_paramCount d3"
  have s: "stays d d3" by (rule stays_trans [OF stays_enter [OF entered(1)] stays_resolve [OF entered(2)]])
  have "table_of d3 = table_of d"
    using table_of_resolve [OF entered(2)] table_of_enter [of lib self d] entered(1) by simp
  then have i: "?i < length (d_params d3)" "0 < ?i" using entered(3) assms(2) by (simp_all add: table_of_def created_ok_def)
  note p = parse_places [OF entered(5)]
  have c: "d_paramCount d4 = ?i" "length (d_params d4) = length (d_params d3)"
    using p by (auto simp: slot_view_def dest: map_eq_imp_length_eq)
  have 4: "settles d d4" using settles_trans [OF stays_settles [OF s] settles_view] p by blast
  have "settles d d2"
  proof (cases "s4 = asynSuccess")
    case False
    then show ?thesis using entered(7) settles_trans [OF 4 settles_free [of d4 ?i p4]] c by simp
  next
    case True
    note reg = register_places [of lib pdbbase drvInfo d4 p4 q d5]
    have 5: "settles d4 d5" "q = None \<Longrightarrow> d_paramCount d5 = ?i + 1"
      using reg entered(4,6) p True c i(1) by simp_all
    have "settles d5 d2" if "q = None" "link_param lib self cp drvInfo ?i d5 = Done (x, d2)"
      by (rule link_places [OF that(2)]) (use 5(2) that(1) i in simp)
    then show ?thesis using entered(7) True settles_trans [OF 4 5(1)] settles_trans by blast
  qed
  then show ?thesis unfolding entered(8) by (rule settles_trans [OF _ stays_settles [OF stays_leave]])
qed

text \<open>The other steps, and the start.\<close>

lemma slot_view_queue [simp]: "slot_view (d\<lparr>d_datacbqueue := q\<rparr>) = slot_view d"
  by (simp add: slot_view_def bulk_view_def)

lemma octet_places: "oct_step d d' \<Longrightarrow> settles d d'"
  by (rule settles_view) (simp add: oct_step_def beside_octet_def slot_view_def bulk_view_def)

lemma op_places: "sys_op lib d d' \<Longrightarrow> sys_ok d \<Longrightarrow> settles d d'"
proof (induction rule: sys_op.induct)
  case (create scan_real pdbbase link_order dict_order self drvInfo d r d')
  then show ?case using create_places by (metis sys_ok_def)
next
  case (connects self d r d')
  then show ?case by (intro firm_settles firm_connect)
next
  case (disconnects d st d')
  then show ?case using stays_settles [OF stays_disconnect [of d lib]] by simp
next
  case (do_writeOctet scan_real self line n d r d')
  then show ?case using octet_places writeOctet_oct by metis
next
  case (do_readOctet self timeout_zero out n d r d')
  then show ?case using octet_places readOctet_oct by metis
next
  case (notified hUser bs t n d d')
  then show ?case using notified_outcome [OF notified(1)] by (auto intro: settles_view)
next
  case (deliver_one allow d c d')
  have "settles d1 (d1\<lparr>d_datacbqueue := q\<rparr>)" for d1 :: "'a driver" and q by (rule settles_view) simp
  then show ?case
    using delivered_outcome [OF deliver_one(1)] stays_settles settles_trans by (metis settles_refl)
next
  case (symbols_changed self n d r d')
  then show ?case using near_symbols_changed by metis
next
  case (hook g d h d')
  then show ?case using stays_settles stays_hook by metis
next
  case (thread_ends d t)
  show ?case by (rule stays_settles [OF stays_leave])
next
  case (world d e)
  then show ?case using stays_settles [of d "d\<lparr>env := e\<rparr>"] by simp
qed (auto dest!: stays_operations dest: stays_settles)

lemma step_places: "sys_step lib d d' \<Longrightarrow> sys_ok d \<Longrightarrow> settles d d'"
  by (erule sys_step.cases) (auto intro: op_places dest: near_cyclic)

lemma placed_steps: "(sys_step lib)\<^sup>*\<^sup>* d d' \<Longrightarrow> sys_ok d \<Longrightarrow> placed d \<Longrightarrow> placed d'"
proof (induction rule: rtranclp_induct)
  case (step d1 d2)
  then show ?case using step_places sys_ok_steps by (metis settles_def)
qed

lemma placed_constructed:
  fixes d :: "'e driver"
  assumes "adsAsynPortDriver lib self fuel a e = Done (Constructed, d)" and "self \<noteq> 0"
  shows "placed d"
proof -
  obtain d0 :: "'e driver" where p: "prepared a d0"
    and v: "start_view d = start_view (d0\<lparr>d_adsPort := d_adsPort d, d_clientPorts := d_clientPorts d\<rparr>)"
    by (rule constructed_view [OF assms]) blast
  then have b: "d_bulk d = replicate MAXBULK new_bulk" "d_bulkTScnt d = 0" "d_paramCount d = 1"
    by (simp_all add: prepared_def start_view_def table_of_def)
  have "bulk_inv d" using b(1,2) by (auto simp: bulk_inv_def bulk_prefix_def bulk_ok_def new_bulk_def)
  moreover have "d_paramCount d \<le> length (d_params d)"
    using sys_ok_constructed [OF assms] by (simp add: sys_ok_def created_ok_def)
  ultimately show ?thesis using b(3) by (simp add: placed_def)
qed

section \<open>The state of the connection\<close>

text \<open>The counter of the supervision belongs to the cyclic thread.\<close>

lemma counter_octet: "oct_step d d' \<Longrightarrow> counter_kept d d'"
  by (simp add: oct_step_def beside_octet_def counter_kept_def)

lemma counter_notified: "adsDataCallback lib hUser bs t n d = Done d' \<Longrightarrow> counter_kept d d'"
  by (drule notified_outcome) (auto simp: counter_kept_def)

lemma counter_delivered: "dataCallbackThread_round lib allow d = Done (c, d') \<Longrightarrow> counter_kept d d'"
  by (drule delivered_outcome) (auto simp: counter_kept_def dest: counter_stays)

lemma op_counter: "sys_op lib d d' \<Longrightarrow> sys_ok d \<Longrightarrow> counter_kept d d'"
proof (induction rule: sys_op.induct)
  case (create scan_real pdbbase link_order dict_order self drvInfo d r d')
  then show ?case using user_create_beside [OF create(1)] by (simp add: sys_ok_def beside_ok_def)
next
  case (disconnects d st d')
  then show ?case using counter_stays [OF stays_disconnect [of d lib]] by simp
next
  case (do_writeOctet scan_real self line n d r d')
  then show ?case using counter_octet writeOctet_oct by metis
next
  case (do_readOctet self timeout_zero out n d r d')
  then show ?case using counter_octet readOctet_oct by metis
next
  case (symbols_changed self n d r d')
  then show ?case using symbols_callback_keeps(1) by (fastforce simp: link_def counter_kept_def)
next
  case (hook g d h d')
  then show ?case using counter_stays stays_hook by metis
next
  case (thread_ends d t)
  show ?case by (rule counter_stays [OF stays_leave])
next
  case (world d e)
  then show ?case by (simp add: counter_kept_def)
qed (auto dest!: stays_operations counter_connect counter_notified counter_delivered dest: counter_stays)

text \<open>While the driver is not connected, most operations leave the flag down and keep all marks.\<close>

definition calm :: "'e driver \<Rightarrow> 'e driver \<Rightarrow> bool" where
  "calm d d' \<longleftrightarrow> \<not> d_connectedAds d \<longrightarrow> \<not> d_connectedAds d' \<and> stale_le d d'"

lemma calm_stays: "stays d d' \<Longrightarrow> calm d d'"
  by (simp add: calm_def stays_def link_def)

lemma calm_octet: "oct_step d d' \<Longrightarrow> calm d d'"
  by (simp add: oct_step_def beside_octet_def calm_def stale_params)

lemma calm_notified: "adsDataCallback lib hUser bs t n d = Done d' \<Longrightarrow> calm d d'"
  by (drule notified_outcome) (auto simp: calm_def stale_params)

lemma calm_delivered: "dataCallbackThread_round lib allow d = Done (c, d') \<Longrightarrow> calm d d'"
proof (drule delivered_outcome, elim disjE exE conjE)
  fix d1
  assume "stays d d1" and d': "d' = d1\<lparr>d_datacbqueue := tl (d_datacbqueue d1)\<rparr>"
  then have "calm d d1" by (simp add: calm_stays)
  then show "calm d d'" by (simp add: d' calm_def stale_le_def)
qed (simp add: calm_def)

lemma op_calm:
  "sys_op lib d d' \<Longrightarrow> calm d d' \<or> (\<exists>self r. connect lib self d = Done (r, d')) \<or>
     (\<exists>scan_real pdbbase link_order dict_order self drvInfo r.
        drvUserCreate lib scan_real pdbbase link_order dict_order self drvInfo d = Done (r, d'))"
proof (induction rule: sys_op.induct)
  case (disconnects d st d')
  then show ?case using calm_stays [OF stays_disconnect [of d lib]] by simp
next
  case (do_writeOctet scan_real self line n d r d')
  then show ?case using calm_octet writeOctet_oct by metis
next
  case (do_readOctet self timeout_zero out n d r d')
  then show ?case using calm_octet readOctet_oct by metis
next
  case (symbols_changed self n d r d')
  then show ?case using symbols_callback_keeps [OF symbols_changed] by (simp add: link_def calm_def)
next
  case (hook g d h d')
  then show ?case using calm_stays stays_hook by metis
next
  case (thread_ends d t)
  then show ?case using calm_stays [OF stays_leave] by blast
next
  case (world d e)
  then show ?case by (simp add: calm_def stale_params)
qed (blast, blast, (blast dest: stays_operations calm_stays calm_notified calm_delivered)+)

text \<open>A round that does not end the process.\<close>

definition counted :: "'e driver \<Rightarrow> bool" where
  "counted d \<longleftrightarrow> d_notConnectedCounter d = 0 \<or> d_notConnectedCounter d = 1"

lemma round_counted:
  assumes "cyclicThread_round lib self cp allow d = Done (c, d')" and "counted d"
  shows "(c \<noteq> Cycle_exit \<longrightarrow> counted d') \<and> calm d d'"
  using assms(1)
proof (cases rule: round_parts)
  case idle
  then show ?thesis using assms(2) by (auto simp: calm_def)
next
  case (work one d1 d2)
  have n: "counted d2" and k: "d_connectedAds d2 = d_connectedAds d" using assms(2) work(4) by (simp_all add: counted_def keep_def)
  note f = work(3) [unfolded finish_counting [OF n [unfolded counted_def]]]
  have "stale_le d2 d'" "\<not> d_connectedAds d2 \<longrightarrow> \<not> d_connectedAds d'" using f by (auto simp: stale_params split: if_splits)
  moreover have "\<not> d_connectedAds d \<longrightarrow> stale_le d d2"
    using stale_trans [OF stale_cyclic_ports [OF work(1)] stale_publish [OF work(2)]] by blast
  ultimately have "calm d d'" using k by (auto simp: calm_def intro: stale_trans)
  moreover have "c \<noteq> Cycle_exit \<longrightarrow> counted d'" using f by (auto simp: counted_def split: if_splits)
  ultimately show ?thesis by simp
qed

lemma live_counted: "(live_step lib)\<^sup>*\<^sup>* d d' \<Longrightarrow> sys_ok d \<Longrightarrow> counted d \<Longrightarrow> counted d'"
proof (induction rule: rtranclp_induct)
  case (step d1 d2)
  have ok: "sys_ok d1" using sys_ok_steps [OF live_sys_steps [OF step(1)]] step(4) by blast
  show ?case
    using step(2)
  proof (cases rule: live_step.cases)
    case live_operation
    then show ?thesis using op_counter [OF live_operation ok] step(3-5) by (simp add: counted_def counter_kept_def)
  next
    case live_round
    then show ?thesis using round_counted step by blast
  qed
qed

lemma counted_constructed:
  fixes d :: "'e driver"
  assumes "adsAsynPortDriver lib self fuel a e = Done (Constructed, d)" and "self \<noteq> 0"
  shows "counted d"
proof -
  obtain d0 :: "'e driver" where "prepared a d0"
    and "start_view d = start_view (d0\<lparr>d_adsPort := d_adsPort d, d_clientPorts := d_clientPorts d\<rparr>)"
    by (rule constructed_view [OF assms]) blast
  then show ?thesis by (simp add: counted_def prepared_def start_view_def)
qed

lemma live_constructed:
  assumes "adsAsynPortDriver lib self fuel a e = Done (Constructed, d0)" and "self \<noteq> 0"
    and "(live_step lib)\<^sup>*\<^sup>* d0 d"
  shows "counted d"
  by (rule live_counted [OF assms(3) sys_ok_constructed [OF assms(1,2)] counted_constructed [OF assms(1,2)]])

section \<open>Properties\<close>

text \<open>The end of the initialisation of the scans, as a step for examples.\<close>

lemma scan_init_op: "sys_op lib d (d\<lparr>d_bulkOK := True\<rparr>)"
proof -
  let ?g = "\<lparr>adsAsynPortObj = Some d, allowCallbackEpicsState = False, currentEpicsState = 0\<rparr>"
  have "adsAsynPortObj (getEpicsState lib (sdk lib ''initHookAfterScanInit'') ?g) = Some (d\<lparr>d_bulkOK := True\<rparr>)"
    by (simp add: getEpicsState_def)
  then show ?thesis by (intro sys_op.hook [of ?g]) simp_all
qed

lemmas scan_init_step = sys_step.operation [OF scan_init_op]

text \<open>
  C1: the invariant of the running driver.  From a finished constructor on, whatever operations any
  thread starts, in any order, with any arguments, database, answers of the library and changes of the
  world between them: the table of parameters and the map of created parameters agree, the output buffer
  is intact, no AMS port is listed twice, the AMS ports refer to entries of the table, the queue never
  has more than MAXCBQSIZE + 1 notifications, and each is for a parameter in use.
\<close>
theorem system_invariant:
  assumes "adsAsynPortDriver lib self fuel a e = Done (Constructed, d0)" and "self \<noteq> 0"
    and "(sys_step lib)\<^sup>*\<^sup>* d0 d"
  shows "created_ok d \<and> out_ok (d_octetAsciiBuffer d) \<and>
    distinct (map port_amsPort (d_amsPortList d)) \<and>
    (\<forall>port i. port \<in> set (d_amsPortList d) \<longrightarrow> port_paramInfo port = Some i \<longrightarrow> i < length (d_params d)) \<and>
    length (d_datacbqueue d) \<le> MAXCBQSIZE + 1 \<and> (\<forall>c \<in> set (d_datacbqueue d). cb_param c < d_paramCount d)"
proof -
  have ok: "sys_ok d" using sys_ok_steps [OF assms(3) sys_ok_constructed [OF assms(1,2)]] .
  then have "distinct (map port_amsPort (d_amsPortList d))"
    by (simp add: sys_ok_def refs_ok_def port_refs_def comp_def)
  moreover have "i < length (d_params d)" if "port \<in> set (d_amsPortList d)" "port_paramInfo port = Some i" for port i
    using ok that by (force simp: sys_ok_def refs_ok_def port_refs_def image_iff)
  ultimately show ?thesis using ok by (auto simp: sys_ok_def)
qed

lemma system_invariant_witness:
  "\<exists>d0 d. adsAsynPortDriver late_lib 1 4 demo_args 3 = Done (Constructed, d0) \<and>
     adsDataCallback late_lib 0 [7] 5 1 (d0\<lparr>d_bulkOK := True\<rparr>) = Done d \<and>
     (sys_step late_lib)\<^sup>*\<^sup>* d0 d \<and> created_ok d \<and> length (d_datacbqueue d) \<le> MAXCBQSIZE + 1"
proof -
  obtain d0 where d0: "adsAsynPortDriver late_lib 1 4 demo_args 3 = Done (Constructed, d0)" using demo_constructed by blast
  let ?d1 = "d0\<lparr>d_bulkOK := True\<rparr>"
  have 1: "sys_step late_lib d0 ?d1" by (rule scan_init_step)
  have r: "d_paramCount d0 = 1" "created_ok d0" using driver_ready [OF d0] by simp_all
  then have "0 < length (d_params d0)" by (auto simp: created_ok_def)
  then have g: "getAdsParamInfo ?d1 0 = Done (Some (d_params d0 ! 0))" using r by (simp add: getAdsParamInfo_def)
  have z: "wrap_signed 4 (int 0) = 0" by (simp add: wrap_signed_eq)
  have "adsDataCallback late_lib 0 [7] 5 1 ?d1 \<noteq> Ub \<and> adsDataCallback late_lib 0 [7] 5 1 ?d1 \<noteq> NoFuel"
    unfolding adsDataCallback_def z g run_bind.simps option.case by (simp add: mem_read_def)
  then obtain d where d: "adsDataCallback late_lib 0 [7] 5 1 ?d1 = Done d" by (metis run.exhaust)
  have s: "(sys_step late_lib)\<^sup>*\<^sup>* d0 d" using 1 sys_step.operation [OF sys_op.notified [OF d]] by (meson r_into_rtranclp rtranclp.rtrancl_into_rtrancl)
  show ?thesis using d0 d s system_invariant [OF d0 _ s] by auto
qed

text \<open>
  C2: the places in the bulk requests.  In every state that a constructed driver reaches by any operations
  in any order, the requests are a used prefix of the array with 3 to 500 slots each; every parameter
  behind the default one has no place yet, or one in use, behind the two slots of the time stamp, in a
  request of its own AMS port and under its own index; and no two parameters share a place.
\<close>
theorem bulk_places:
  assumes "adsAsynPortDriver lib self fuel a e = Done (Constructed, d0)" and "self \<noteq> 0"
    and "(sys_step lib)\<^sup>*\<^sup>* d0 d"
  shows "bulk_inv d \<and>
    (\<forall>i \<in> {1..<d_paramCount d}. p_bulkIndex (d_params d ! i) < 0 \<or> slot_ok d (d_params d ! i)) \<and>
    (\<forall>i \<in> {1..<d_paramCount d}. \<forall>j \<in> {1..<d_paramCount d}. i \<noteq> j \<longrightarrow>
       0 \<le> p_bulkIndex (d_params d ! i) \<longrightarrow> 0 \<le> p_bulkIndex (d_params d ! j) \<longrightarrow>
       slot_of (d_params d ! i) \<noteq> slot_of (d_params d ! j))"
proof -
  have "placed d"
    by (rule placed_steps [OF assms(3) sys_ok_constructed [OF assms(1,2)] placed_constructed [OF assms(1,2)]])
  then show ?thesis by (simp add: placed_def own_def)
qed

lemma bulk_places_witness:
  "\<exists>d0 d. adsAsynPortDriver late_lib 1 4 demo_args 3 = Done (Constructed, d0) \<and>
     (sys_step late_lib)\<^sup>*\<^sup>* d0 d \<and> d_bulkOK d \<and> bulk_inv d"
proof -
  obtain d0 where d0: "adsAsynPortDriver late_lib 1 4 demo_args 3 = Done (Constructed, d0)" using demo_constructed by blast
  have s: "(sys_step late_lib)\<^sup>*\<^sup>* d0 (d0\<lparr>d_bulkOK := True\<rparr>)" using scan_init_step by (rule r_into_rtranclp)
  then show ?thesis using d0 bulk_places [OF d0 _ s] by auto
qed

section \<open>The end of a connection\<close>

text \<open>
  C9: how a round of the cyclic thread ends, in every state that a running process reaches by operations
  and rounds in any order since the constructor finished.  With one port in state RUN the counter goes
  back to 0; the first round without one sets the counter to 1 and, when the driver connects
  automatically, drops the connection flag; the second such round ends the process.  None of the three
  calls the library: the branch that disconnects and connects again needs a counter of 2 in a process that
  goes on, and is never taken.
\<close>
theorem cyclic_gives_up:
  assumes "adsAsynPortDriver lib self fuel a e = Done (Constructed, d0)" and "self \<noteq> 0"
    and "(live_step lib)\<^sup>*\<^sup>* d0 d"
    and "cyclic_ports lib cp [0..<length (d_amsPortList d)] False d = Done (one, d1)"
    and "publish_states lib [0..<length (d_amsPortList d1)] d1 = Done d2"
  shows "cyclic_finish lib t one d2 = Done
    (if one then (Cycle_next, d2\<lparr>d_notConnectedCounter := 0, d_oneAmsConnectionOKold := True\<rparr>)
     else if d_notConnectedCounter d2 = 1 then (Cycle_exit, d2\<lparr>d_notConnectedCounter := 2\<rparr>)
     else (Cycle_next, d2\<lparr>d_notConnectedCounter := 1,
             d_connectedAds := d_connectedAds d2 \<and> \<not> d_autoConnect d2,
             d_oneAmsConnectionOKold := False\<rparr>))"
proof -
  have "d_notConnectedCounter d2 = 0 \<or> d_notConnectedCounter d2 = 1"
    using live_constructed [OF assms(1-3)] keep_trans [OF keep_cyclic_ports [OF assms(4)] keep_publish [OF assms(5)]]
    by (simp add: counted_def keep_def)
  then show ?thesis by (rule finish_counting)
qed

text \<open>A controller that leaves the state RUN: one round drops the flag, the next one ends the process.\<close>

lemma gone_round:
  assumes "d_amsPortList d = [port]" and "port_paramInfo port = None" and "env d \<noteq> 0"
  obtains d2 where "cyclic_ports late_lib cp [0..<1] False d = Done (False, d2)"
    and "publish_states late_lib [0..<1] d2 = Done d2" and "length (d_amsPortList d2) = 1" and "keep d d2"
proof -
  have st: "adsReadState late_lib cp n d = ((asynSuccess, 5, 0), d)" for n
    using assms(3) by (simp add: adsReadState_def call_def late_lib_def user_lib.defs ads_lib.defs start_lib.defs)
  obtain d2 where c: "cyclic_port late_lib cp 0 d = Done (False, d2)"
    using st assms(1) by (simp add: cyclic_port_def note_state_def Let_def late_lib_def user_lib.defs ads_lib.defs
        start_lib.defs zero_lib_def)
  then have k: "keep d d2" by (rule keep_cyclic_port)
  then have "map port_paramInfo (d_amsPortList d2) = [None]" using assms(1,2) by (simp add: keep_def)
  then obtain q where "d_amsPortList d2 = [q]" "port_paramInfo q = None" by auto
  then show thesis using that [of d2] c k by simp
qed

text \<open>The state of the example at the end of its first round without the controller.\<close>

lemma gone_demo:
  obtains d0 d where "adsAsynPortDriver late_lib 1 4 demo_args 3 = Done (Constructed, d0)"
    and "(live_step late_lib)\<^sup>*\<^sup>* d0 d" and "\<not> d_connectedAds d" and "d_notConnectedCounter d = 1"
    and "\<exists>port. d_amsPortList d = [port] \<and> port_paramInfo port = None" and "env d \<noteq> 0"
proof -
  obtain d0 where d0: "adsAsynPortDriver late_lib 1 4 demo_args 3 = Done (Constructed, d0)" using demo_constructed by blast
  obtain p0 :: "nat driver" where p: "prepared demo_args p0"
    and v: "start_view d0 = start_view (p0\<lparr>d_adsPort := d_adsPort d0, d_clientPorts := d_clientPorts d0\<rparr>)"
    by (rule constructed_view [OF d0]) simp_all
  have m: "map port_paramInfo (d_amsPortList d0) = [None]" and n: "d_notConnectedCounter d0 = 0" and a: "d_autoConnect d0"
    and run: "\<not> d_stopThreads d0"
    using p v by (simp_all add: prepared_def start_view_def demo_args_def configure_args_def)
  let ?d = "d0\<lparr>env := 9\<rparr>"
  obtain port where port: "d_amsPortList ?d = [port]" "port_paramInfo port = None" using m by auto
  obtain d2 where 1: "cyclic_ports late_lib 7 [0..<1] False ?d = Done (False, d2)"
      "publish_states late_lib [0..<1] d2 = Done d2" "length (d_amsPortList d2) = 1" "keep ?d d2"
    by (rule gone_round [OF port]) simp_all
  let ?d' = "d2\<lparr>d_notConnectedCounter := 1, d_connectedAds := False, d_oneAmsConnectionOKold := False\<rparr>"
  have k: "d_notConnectedCounter d2 = 0" "d_autoConnect d2" "map port_paramInfo (d_amsPortList d2) = [None]"
    using 1(4) n a m by (simp_all add: keep_def)
  then have "cyclic_finish late_lib 1 False d2 = Done (Cycle_next, ?d')"
    by (simp add: finish_counting)
  then have "cyclicThread_round late_lib 1 7 True ?d = Done (Cycle_next, ?d')"
    using 1(1-3) port(1) run by (simp add: cyclicThread_round_def)
  then have "live_step late_lib ?d ?d'" by (rule live_step.live_round) simp
  moreover have "live_step late_lib d0 ?d" by (rule live_step.live_operation [OF sys_op.world])
  ultimately have "(live_step late_lib)\<^sup>*\<^sup>* d0 (?d'\<lparr>env := 9\<rparr>)"
    using live_step.live_operation [OF sys_op.world, of late_lib ?d' 9]
    by (meson r_into_rtranclp rtranclp.rtrancl_into_rtrancl)
  then show thesis by (rule that [OF d0]) (use k(3) in auto)
qed

lemma cyclic_gives_up_witness:
  "\<exists>d2. cyclic_finish late_lib 1 False d2 = Done (Cycle_exit, d2\<lparr>d_notConnectedCounter := 2\<rparr>)"
proof -
  obtain d0 d port where d: "adsAsynPortDriver late_lib 1 4 demo_args 3 = Done (Constructed, d0)"
      "(live_step late_lib)\<^sup>*\<^sup>* d0 d" "d_notConnectedCounter d = 1" "d_amsPortList d = [port]"
      "port_paramInfo port = None" "env d \<noteq> 0"
    by (rule gone_demo) auto
  obtain d2 where 2: "cyclic_ports late_lib 7 [0..<1] False d = Done (False, d2)"
      "publish_states late_lib [0..<1] d2 = Done d2" "length (d_amsPortList d2) = 1" "keep d d2"
    by (rule gone_round [OF d(4-6)])
  have "d_notConnectedCounter d2 = 1" using 2(4) d(3) by (simp add: keep_def)
  then show ?thesis
    using cyclic_gives_up [OF d(1) _ d(2), of 7 False d2 d2 1] 2 d(4) by auto
qed

text \<open>
  C39: a lost connection stays lost.  In every state that a running process reaches and in which the flag
  \<^verbatim>\<open>connectedAds_\<close> is down, no step raises it but the connect entry point and the opening of a link by a
  record (drvUserCreate, which connects first): no read, no write, no command line, no notification and
  no round of a thread does.  Nor does any of them take the mark for refresh from a parameter, so the
  values stay stale until such a connect happens.
\<close>
theorem lost_connection_stays_lost:
  assumes "adsAsynPortDriver lib self fuel a e = Done (Constructed, d0)" and "self \<noteq> 0"
    and "(live_step lib)\<^sup>*\<^sup>* d0 d" and "live_step lib d d'" and "\<not> d_connectedAds d"
  shows "\<not> d_connectedAds d' \<and> length (d_params d') = length (d_params d) \<and>
      (\<forall>i < length (d_params d). p_refreshNeeded (d_params d ! i) \<longrightarrow> p_refreshNeeded (d_params d' ! i)) \<or>
    (\<exists>t r. connect lib t d = Done (r, d')) \<or>
    (\<exists>scan_real pdbbase link_order dict_order t drvInfo r.
       drvUserCreate lib scan_real pdbbase link_order dict_order t drvInfo d = Done (r, d'))"
proof -
  have "calm d d' \<or> (\<exists>t r. connect lib t d = Done (r, d')) \<or>
    (\<exists>scan_real pdbbase link_order dict_order t drvInfo r.
       drvUserCreate lib scan_real pdbbase link_order dict_order t drvInfo d = Done (r, d'))"
    using assms(4)
  proof (cases rule: live_step.cases)
    case live_operation
    then show ?thesis by (rule op_calm)
  next
    case live_round
    then show ?thesis using round_counted live_constructed [OF assms(1-3)] by blast
  qed
  then show ?thesis using assms(5) by (simp add: calm_def stale_le_def)
qed

lemma lost_connection_stays_lost_witness:
  "\<exists>d0 d d'. adsAsynPortDriver late_lib 1 4 demo_args 3 = Done (Constructed, d0) \<and>
     (live_step late_lib)\<^sup>*\<^sup>* d0 d \<and> \<not> d_connectedAds d \<and> live_step late_lib d d' \<and>
     (\<not> d_connectedAds d' \<or> (\<exists>t r. connect late_lib t d = Done (r, d')) \<or>
      (\<exists>scan_real pdbbase link_order dict_order t drvInfo r.
         drvUserCreate late_lib scan_real pdbbase link_order dict_order t drvInfo d = Done (r, d')))"
proof -
  obtain d0 d where d: "adsAsynPortDriver late_lib 1 4 demo_args 3 = Done (Constructed, d0)"
      "(live_step late_lib)\<^sup>*\<^sup>* d0 d" "\<not> d_connectedAds d"
    by (rule gone_demo) auto
  let ?d' = "d\<lparr>d_bulkOK := True\<rparr>"
  have s: "live_step late_lib d ?d'" by (rule live_step.live_operation [OF scan_init_op])
  from lost_connection_stays_lost [OF d(1) _ d(2) s d(3)] show ?thesis
    using d s by (intro exI [of _ d0] exI [of _ d] exI [of _ ?d']) auto
qed

end
