(* ===== verification/Spec2Isabelle.thy ===== *)
theory Spec2Isabelle
  imports Ads_Reach Ads_SymbolDict
begin

text \<open>
  A model of twincat-ads, the EPICS driver for Beckhoff TwinCAT controllers (the library under
  \<^verbatim>\<open>src/adsApp/src\<close>), and the theorems that make it correct.

  The program.  The class \<^verbatim>\<open>adsAsynPortDriver\<close> connects the records of an EPICS IOC
  to the variables of PLCs.  A record names a variable; the driver turns it into a parameter
  (\<^verbatim>\<open>adsParamInfo\<close>), finds the address of the variable by symbolic name, and moves values
  in both directions: on request of a record (the read and write functions of asyn), by notifications of
  the controller, and by polling bulk requests.  A thread watches the state of every AMS port and
  invalidates the parameters of a port that is lost.  An octet interface accepts command lines with
  values as text.  Below the driver are the AdsLib, which speaks the protocol, and asyn, which keeps
  the values for the records.  Both are outside the repository: they are the operations of the record
  \<^verbatim>\<open>ads_lib\<close> (theory Ads_Driver), an argument of every definition that calls them, over an
  environment of any type.  A theorem holds for every behaviour of these operations that its hypotheses
  allow.

  The theories, from the bottom up.

  \<^item> Ads_Prelude: byte memories with checked bounds, little-endian images, C strings, formatting and
    scanning of integers; the outcome \<^verbatim>\<open>Ub\<close> of the type \<^verbatim>\<open>run\<close> stands for an
    access outside an object or an undefined conversion, so a result \<^verbatim>\<open>Done\<close> also says that
    memory was respected.
  \<^item> Ads_Types: \<^verbatim>\<open>adsAsynPortDriverUtils.cpp\<close>, the enumeration of data types, sizes, the name
    tables and the conversion of time stamps; Ads_Float: IEEE formats as bit patterns.
  \<^item> Ads_OctetBuffer, Ads_OctetArgs, Ads_OctetConv: the output buffer, the splitting of command lines
    and the two conversions between PLC memory and text of the octet interface.
  \<^item> Ads_Driver: the records of \<^verbatim>\<open>adsAsynPortDriver.h\<close> (the whole state
    of the driver that the modelled code uses), and its state after the initialisers of the constructor.
  \<^item> Ads_ClientPorts: the reference-counted map from threads to client ports and
    \<^verbatim>\<open>AdsClientPortGuard\<close>.
  \<^item> Ads_EtherCat: \<^verbatim>\<open>adsAmsNetId.h\<close>, \<^verbatim>\<open>adsEthercatState.h\<close> and the
    discovery of the EtherCAT master.
  \<^item> Ads_Update: \<^verbatim>\<open>adsUpdateParameter\<close>, alarms, time stamps and array callbacks.
  \<^item> Ads_SymbolIo: the requests for handles, symbol information, notifications, values and states.
  \<^item> Ads_Octet: the interpreter of the octet interface, from \<^verbatim>\<open>writeOctet\<close> and
    \<^verbatim>\<open>readOctet\<close> down to the conversions; Ads_OctetSession: a controller that keeps a
    variable, and the commands that write and read it.
  \<^item> Ads_Symbols: the cache of the links of the database and the SumUp requests that look up all symbols
    and their handles at the start; Ads_SymbolDict: what these requests put into the dictionary.
  \<^item> Ads_Records: from the string of a link to a parameter (\<^verbatim>\<open>validateDrvInfo\<close>,
    \<^verbatim>\<open>parsePlcInfofromDrvInfo\<close>, \<^verbatim>\<open>drvUserCreate\<close>); Ads_RecordOptions: the
    options are read as they are written; Ads_RecordTable: the table and the map of parameters agree.
  \<^item> Ads_Access: the entry points for scalars and arrays (\<^verbatim>\<open>readInt32\<close> to
    \<^verbatim>\<open>writeFloat64Array\<close>).
  \<^item> Ads_Bulk: bulk requests and \<^verbatim>\<open>updateParamInfoWithPLCInfo\<close>; Ads_Supervise: AMS ports,
    invalidation, refresh, connect, and the round of \<^verbatim>\<open>cyclicThread\<close>.
  \<^item> Ads_Frames: what the operations leave alone; Ads_Watch: what a round of the supervision
    keeps, how it ends, and what the loss of a port leaves behind;
    Ads_Threads: the polling thread, the notification queue and the threads that empty it.
  \<^item> Ads_Startup: the shell command, the constructor, the hook of the IOC and the destructor;
    Ads_Lifetime: what a finished constructor has established, that it finishes, and what the destructor
    gives back.
  \<^item> Ads_Slots: the places of all parameters in the bulk requests, and that refreshing keeps them apart;
    Ads_System: what each operation leaves alone of the whole state.
  \<^item> Ads_Reach: every operation, callback and round of a thread as a step on the whole driver, the two
    invariants that all of them keep, and how a running process gives up its connection and ends.

  State and concurrency.  The state of the driver is the record \<^verbatim>\<open>driver\<close>; its members are
  those of the class, with the prefix \<^verbatim>\<open>d_\<close>.  An operation takes the state and returns it
  updated; a pointer to a parameter is its index, or the parameter itself passed in and out.  A function
  that runs under the lock of the driver is one step.  The relation \<^verbatim>\<open>sys_op\<close> (Ads_Reach) has one
  rule for every operation that asyn, the ADS library, the hook of the IOC or one of the threads that poll
  and deliver values can start, with any arguments, for a thread that takes or gives back its client port,
  and for a change of the world between them; \<^verbatim>\<open>sys_step\<close> adds the rounds of the cyclic thread, and
  \<^verbatim>\<open>live_step\<close> only those rounds that do not end the process.  Arrivals and removals of the
  notification queue are also the actions of \<^verbatim>\<open>notify\<close> and \<^verbatim>\<open>take_off\<close> (Ads_Threads); they are
  atomic although the code does not lock the queue, which is a finding.  Trace output is not modelled.

  Interfaces.  Six locales state what one part promises another:
  \<^verbatim>\<open>code_table\<close> (names for codes, provided by the data types), \<^verbatim>\<open>char_fifo\<close> (a bounded
  stream of characters, provided by the output buffer), \<^verbatim>\<open>scoped_resource\<close> (a guard under which
  nested scopes are neutral, provided by the client ports), its extension \<^verbatim>\<open>held_resource\<close> (only the
  outermost scope asks anything of the world), \<^verbatim>\<open>registry\<close> (a list of objects with
  unique keys, provided by the AMS ports) and \<^verbatim>\<open>bounded_queue\<close> (provided by the notification
  queue).  Each is interpreted on the model's definitions.

  What is shown.  Round trips: values written and read back, text read and written back, command lines,
  characters through the output buffer.  Invariants: client ports under nested guards, the bulk
  requests, the list of AMS ports, what an update may change.  Bounds: no access outside the argument
  arrays, the binary buffer, the data blocks.  Supervision: what a lost port leaves behind, how the
  driver gives up.  The whole: what holds in every state that a constructed driver can reach.  Where the code does not do what it means to, a theorem states what it does; these
  are the findings of the manifest (the reconnection that is never tried, reads beyond buffers, a
  queue without a lock, a conversion that does not end, errors that are not reported).

  Bounds and fuel.  \<^verbatim>\<open>octetBinary2ascii\<close>, \<^verbatim>\<open>octetAscii2binary\<close> and the
  loop of the constructor that waits for the PLC have fuel: the number of their rounds.  \<open>b2a_terminates\<close> shows that the number of bytes and
  two more is enough unless the variable is a structure of an unknown type, for which no number is.
  The constructor needs as many rounds as the controller takes to come up (\<open>start_ends\<close>).

  Not modelled.  Overlapping accesses of two threads to the same memory; the call of \<^verbatim>\<open>exit\<close> in
  drvUserCreate after a failed lookup of handles, which never fails.  The reports (\<^verbatim>\<open>report\<close>, \<^verbatim>\<open>poll_info\<close>), the help text and
  the registration of the commands with the EPICS shell, which only print and register; trace messages
  and their counters, measured times and the releasing of memory.
\<close>

end
